theory Spec2Isabelle
  imports Main "HOL-Library.Word" "HOL-Library.Sublist"
begin

section \<open>JavaScript strings\<close>

text \<open>
  A JavaScript string is a sequence of 16-bit code units. \<open>js\<close> turns an ASCII literal
  of the source into such a sequence; \<open>a + b\<close> is \<open>a @ b\<close>, \<open>s.length\<close> is
  \<open>length s\<close>, \<open>s.startsWith(p)\<close> is \<open>prefix p s\<close>, \<open>s.includes(p)\<close> is
  \<open>sublist p s\<close>, \<open>s.substring(0, n)\<close> is \<open>take n s\<close>, and a string is falsy
  exactly when it is empty.
\<close>

type_synonym jsstring = "16 word list"

definition js :: "string \<Rightarrow> jsstring" where
  "js s = map of_char s"

section \<open>Session manager (src/ai/sessionManager.js)\<close>

subsection \<open>Errors and user-facing messages\<close>

text \<open>A thrown \<open>Error\<close> object: its \<open>name\<close>, \<open>message\<close> and \<open>code\<close>, each possibly absent.\<close>

record js_error =
  ename :: "jsstring option"
  emessage :: "jsstring option"
  ecode :: "jsstring option"

definition codeOnly :: "string \<Rightarrow> js_error" where
  "codeOnly c = \<lparr>ename = None, emessage = None, ecode = Some (js c)\<rparr>"

datatype message_key =
  error_language_model_unavailable
  | error_language_model_failed
  | error_quota_exceeded
  | error_network
  | error_image_processing
  | error_session_not_found
  | error_generic
  | error_input_too_large

text \<open>\<open>FALLBACK_ERROR_MESSAGES\<close>; the accented letters of the Spanish table are given by
  their code units.\<close>

fun FALLBACK_ERROR_MESSAGES_en :: "message_key \<Rightarrow> jsstring" where
  "FALLBACK_ERROR_MESSAGES_en error_language_model_unavailable =
     js ''AI language model is not available. Please ensure your browser supports the Prompt API.''"
| "FALLBACK_ERROR_MESSAGES_en error_language_model_failed =
     js ''Failed to create language model. Please try again.''"
| "FALLBACK_ERROR_MESSAGES_en error_quota_exceeded =
     js ''AI quota exceeded. Please wait and try again later.''"
| "FALLBACK_ERROR_MESSAGES_en error_network =
     js ''Network error occurred. Please check your connection.''"
| "FALLBACK_ERROR_MESSAGES_en error_image_processing =
     js ''Failed to process image. Please try again.''"
| "FALLBACK_ERROR_MESSAGES_en error_session_not_found =
     js ''Session not found. Please start a new analysis.''"
| "FALLBACK_ERROR_MESSAGES_en error_generic =
     js ''An error occurred. Please try again.''"
| "FALLBACK_ERROR_MESSAGES_en error_input_too_large =
     js ''The content is too large to process. Please try on a simpler page.''"

fun FALLBACK_ERROR_MESSAGES_es :: "message_key \<Rightarrow> jsstring" where
  "FALLBACK_ERROR_MESSAGES_es error_language_model_unavailable =
     js ''El modelo de lenguaje de IA no est'' @ [0xE1] @ js '' disponible. Aseg'' @ [0xFA]
       @ js ''rate de que tu navegador sea compatible con la API de Prompt.''"
| "FALLBACK_ERROR_MESSAGES_es error_language_model_failed =
     js ''No se pudo crear el modelo de lenguaje. Por favor, int'' @ [0xE9] @ js ''ntalo de nuevo.''"
| "FALLBACK_ERROR_MESSAGES_es error_quota_exceeded =
     js ''Se ha excedido la cuota de IA. Por favor, espera e int'' @ [0xE9]
       @ js ''ntalo de nuevo m'' @ [0xE1] @ js ''s tarde.''"
| "FALLBACK_ERROR_MESSAGES_es error_network =
     js ''Se produjo un error de red. Por favor, verifica tu conexi'' @ [0xF3] @ js ''n.''"
| "FALLBACK_ERROR_MESSAGES_es error_image_processing =
     js ''No se pudo procesar la imagen. Por favor, int'' @ [0xE9] @ js ''ntalo de nuevo.''"
| "FALLBACK_ERROR_MESSAGES_es error_session_not_found =
     js ''Sesi'' @ [0xF3] @ js ''n no encontrada. Por favor, inicia un nuevo an'' @ [0xE1]
       @ js ''lisis.''"
| "FALLBACK_ERROR_MESSAGES_es error_generic =
     js ''Ocurri'' @ [0xF3] @ js '' un error. Por favor, int'' @ [0xE9] @ js ''ntalo de nuevo.''"
| "FALLBACK_ERROR_MESSAGES_es error_input_too_large =
     js ''El contenido es demasiado grande para procesar. Por favor, int'' @ [0xE9]
       @ js ''ntalo en una p'' @ [0xE1] @ js ''gina m'' @ [0xE1] @ js ''s simple.''"

definition messageKeyOf :: "js_error \<Rightarrow> message_key" where
  "messageKeyOf error =
     (if ecode error = Some (js ''LANGUAGE_MODEL_UNAVAILABLE'') then error_language_model_unavailable
      else if ecode error = Some (js ''LANGUAGE_MODEL_CREATION_FAILED'') then error_language_model_failed
      else if ecode error = Some (js ''QUOTA_EXCEEDED'') \<or> ename error = Some (js ''QuotaExceededError'')
        then (case emessage error of
                Some m \<Rightarrow> if m \<noteq> [] \<and> sublist (js ''input is too large'') m
                          then error_input_too_large else error_quota_exceeded
              | None \<Rightarrow> error_quota_exceeded)
      else if ecode error = Some (js ''NETWORK_ERROR'') \<or> ename error = Some (js ''NetworkError'')
        then error_network
      else if ecode error = Some (js ''IMAGE_PROCESSING_ERROR'') then error_image_processing
      else if ecode error = Some (js ''SESSION_NOT_FOUND'') then error_session_not_found
      else error_generic)"

definition getErrorMessage :: "js_error \<Rightarrow> jsstring \<Rightarrow> jsstring" where
  "getErrorMessage error userLanguage =
     (if userLanguage = js ''es'' then FALLBACK_ERROR_MESSAGES_es (messageKeyOf error)
      else FALLBACK_ERROR_MESSAGES_en (messageKeyOf error))"

subsection \<open>Quota check\<close>

text \<open>
  The usage counters a session object shows; \<open>None\<close> stands for a property that is not of
  type number. Numbers are token counts, taken as integers.
\<close>

record counters =
  inputUsage :: "int option"
  inputQuota :: "int option"

datatype quota_check = Within | Exceeded int int jsstring

text \<open>
  \<open>chrome.i18n.getMessage\<close>: \<open>None\<close> when \<open>chrome.i18n\<close> is not available in the
  context, where the call throws and \<open>checkQuota\<close> catches.
\<close>

type_synonym i18n = "(jsstring \<Rightarrow> jsstring) option"

definition checkQuota :: "i18n \<Rightarrow> counters option \<Rightarrow> quota_check" where
  "checkQuota getMessage session =
     (case session of
        None \<Rightarrow> Within
      | Some c \<Rightarrow>
          (case (inputUsage c, inputQuota c) of
             (Some usage, Some quota) \<Rightarrow>
               if usage \<ge> quota
               then (case getMessage of
                       Some g \<Rightarrow> Exceeded usage quota (g (js ''error_quota_exceeded''))
                     | None \<Rightarrow> Within)
               else Within
           | _ \<Rightarrow> Within))"

subsection \<open>The streaming loop\<close>

text \<open>
  What the provider's asynchronous iterator yields: chunks, and possibly an error that ends
  the iteration. The iterator is taken to be finite.
\<close>

datatype stream_item = Chunk jsstring | StreamThrows js_error

datatype loop_end =
  Completed jsstring nat
  | QuotaAbort jsstring jsstring
  | StreamFailed js_error jsstring

text \<open>
  The \<open>for await\<close> loop of \<open>createSession\<close> (lines 259-290) and of
  \<open>sendPromptStreaming\<close> (lines 380-411), which are the same text. \<open>countersAt k\<close> are
  the counters the session shows when the \<open>k\<close>-th chunk has arrived; \<open>onStream\<close> says
  whether a callback was supplied, and the last component collects the callback's arguments.
\<close>

fun streamLoop ::
  "i18n \<Rightarrow> (nat \<Rightarrow> counters) \<Rightarrow> bool \<Rightarrow> stream_item list \<Rightarrow> jsstring \<Rightarrow> nat \<Rightarrow> jsstring list
     \<Rightarrow> loop_end \<times> jsstring list" where
  "streamLoop getMessage countersAt onStream [] fullText chunkCount calls =
     (Completed fullText chunkCount, calls)"
| "streamLoop getMessage countersAt onStream (StreamThrows e # rest) fullText chunkCount calls =
     (StreamFailed e fullText, calls)"
| "streamLoop getMessage countersAt onStream (Chunk chunk # rest) fullText chunkCount calls =
     (let chunkCount = chunkCount + 1;
          quotaCheck = (if chunkCount mod 10 = 0
                        then checkQuota getMessage (Some (countersAt chunkCount)) else Within)
      in case quotaCheck of
           Exceeded usage quota message \<Rightarrow> (QuotaAbort fullText message, calls)
         | Within \<Rightarrow>
             (let fullText = (if fullText \<noteq> [] \<and> prefix fullText chunk
                              then chunk else fullText @ chunk)
              in streamLoop getMessage countersAt onStream rest fullText chunkCount
                   (if onStream then calls @ [fullText] else calls)))"

text \<open>The merge rule in the words of the specification.\<close>

definition spec_merge :: "jsstring \<Rightarrow> jsstring \<Rightarrow> jsstring" where
  "spec_merge buffer chunk =
     (if buffer \<noteq> [] \<and> take (length buffer) chunk = buffer then chunk else buffer @ chunk)"

subsection \<open>Prompts and sessions\<close>

text \<open>
  A prompt is an array of messages or some other value (a bare string for a simple turn).
  The content of a message is an array of parts, a string, or absent; the value of a part
  is a text, an image (a blob or a bitmap, by handle), or absent.
\<close>

datatype pval = VText jsstring | VBlob nat | VBitmap nat | VUndefined

record part =
  ptype :: jsstring
  pvalue :: pval

datatype content = CParts "part list" | CString jsstring | CAbsent

record message =
  role :: jsstring
  content :: content

datatype jsprompt = PMessages "message list" | PValue pval

text \<open>
  The provider's session object: an opaque handle, the counters it shows over time, and
  its two entry points. \<open>promptStreaming\<close> may throw before it returns an iterator;
  \<open>prompt\<close> resolves to a string, to nothing (\<open>None\<close>), or rejects.
\<close>

record session =
  handle :: nat
  countersAt :: "nat \<Rightarrow> counters"
  promptStreaming :: "jsprompt \<Rightarrow> js_error + stream_item list"
  prompt :: "jsprompt \<Rightarrow> js_error + jsstring option"

record session_data =
  session :: session
  userLanguage :: jsstring

type_synonym session_store = "nat \<rightharpoonup> session_data"

record gen_result =
  success :: bool
  response :: "jsstring option"
  error :: "jsstring option"
  userMessage :: "jsstring option"
  quotaExceeded :: bool
  usage :: "int option"
  quota :: "int option"
  partialResponse :: "jsstring option"
  code :: "jsstring option"

definition failed :: gen_result where
  "failed = \<lparr>success = False, response = None, error = None, userMessage = None,
     quotaExceeded = False, usage = None, quota = None, partialResponse = None, code = None\<rparr>"

definition succeeded :: "jsstring \<Rightarrow> gen_result" where
  "succeeded text = failed\<lparr>success := True, response := Some text\<rparr>"

text \<open>\<open>error.message || fallback\<close>\<close>

definition messageOr :: "js_error \<Rightarrow> string \<Rightarrow> jsstring" where
  "messageOr e fallback =
     (case emessage e of Some m \<Rightarrow> if m \<noteq> [] then m else js fallback | None \<Rightarrow> js fallback)"

text \<open>
  What \<open>createSession\<close> calls outside this file: \<open>createLanguageModel\<close> (which throws
  or returns a session; the function also tests for a null session), the two image
  helpers, and \<open>chrome.i18n.getMessage\<close>.
\<close>

record environment =
  createLanguageModel :: "jsstring \<Rightarrow> jsstring \<Rightarrow> js_error + session option"
  base64ToBlob :: "jsstring \<Rightarrow> jsstring \<Rightarrow> js_error + nat"
  createImageBitmapFromBlob :: "nat \<Rightarrow> js_error + nat"
  getMessage :: i18n

text \<open>The \<open>context\<close> argument: an object with \<open>context\<close> and \<open>imgSrc\<close>, or null.\<close>

record page_context =
  contextText :: "jsstring option"
  imgSrc :: "jsstring option"

text \<open>\<open>context?.context || ""\<close>\<close>

definition contextTextOf :: "page_context option \<Rightarrow> jsstring" where
  "contextTextOf c = (case c of None \<Rightarrow> [] | Some p \<Rightarrow> (case contextText p of None \<Rightarrow> [] | Some t \<Rightarrow> t))"

text \<open>\<open>context?.imgSrc?.split("/").pop().split("?")[0] || ""\<close>\<close>

definition normalizedImgSrcOf :: "page_context option \<Rightarrow> jsstring" where
  "normalizedImgSrcOf c =
     (case c of
        None \<Rightarrow> []
      | Some p \<Rightarrow>
          (case imgSrc p of
             None \<Rightarrow> []
           | Some u \<Rightarrow> takeWhile (\<lambda>x. x \<noteq> of_char CHR ''?'')
                        (rev (takeWhile (\<lambda>x. x \<noteq> of_char CHR ''/'') (rev u)))))"

text \<open>
  Lines 186-241: the first turn for the session type, or the early return of the
  function (\<open>Inl\<close>).
\<close>

definition initialTurn ::
  "environment \<Rightarrow> jsstring \<Rightarrow> page_context option \<Rightarrow> nat \<Rightarrow> jsstring \<Rightarrow> gen_result + message list" where
  "initialTurn env type context blob lang =
     (if type = js ''screenshot'' then
        Inr [\<lparr>role = js ''user'',
              content = CParts [\<lparr>ptype = js ''text'', pvalue = VText (contextTextOf context)\<rparr>,
                                \<lparr>ptype = js ''image'', pvalue = VBlob blob\<rparr>]\<rparr>]
      else if type = js ''image'' then
        (case createImageBitmapFromBlob env blob of
           Inl e \<Rightarrow>
             Inl (failed\<lparr>error := Some (js ''Image bitmap creation failed''),
                    userMessage := Some (getErrorMessage (codeOnly ''IMAGE_PROCESSING_ERROR'') lang)\<rparr>)
         | Inr imageBitmap \<Rightarrow>
             Inr [\<lparr>role = js ''user'',
                   content = CParts [\<lparr>ptype = js ''text'', pvalue = VText (contextTextOf context)\<rparr>,
                                     \<lparr>ptype = js ''text'',
                                      pvalue = VText (js ''Image URL: '' @ normalizedImgSrcOf context)\<rparr>,
                                     \<lparr>ptype = js ''image'', pvalue = VBitmap imageBitmap\<rparr>]\<rparr>])
      else Inl (failed\<lparr>error := Some (js ''Invalid session type'')\<rparr>))"

text \<open>Lines 258-308: the result of the loop, and the store after it.\<close>

definition afterStream ::
  "session_store \<Rightarrow> nat \<Rightarrow> session \<Rightarrow> jsstring \<Rightarrow> loop_end \<Rightarrow> gen_result \<times> session_store" where
  "afterStream store tabId s lang ending =
     (case ending of
        QuotaAbort fullText message \<Rightarrow>
          (failed\<lparr>error := Some (js ''Quota exceeded during streaming''), userMessage := Some message,
             quotaExceeded := True, partialResponse := Some fullText\<rparr>, store)
      | StreamFailed streamError fullText \<Rightarrow>
          (failed\<lparr>error := Some (messageOr streamError ''Streaming failed''),
             userMessage := Some (getErrorMessage streamError lang),
             partialResponse := Some fullText\<rparr>, store)
      | Completed fullText chunkCount \<Rightarrow>
          (succeeded fullText, store(tabId \<mapsto> \<lparr>session = s, userLanguage = lang\<rparr>)))"

text \<open>
  \<open>createSession\<close>: the result, the session store afterwards and the arguments the
  stream callback was called with. The callback itself is taken not to throw (the one the
  worker passes only starts a send whose rejection it swallows).
\<close>

definition createSession ::
  "environment \<Rightarrow> session_store \<Rightarrow> nat \<Rightarrow> jsstring \<Rightarrow> jsstring \<Rightarrow> jsstring \<Rightarrow> jsstring
     \<Rightarrow> page_context option \<Rightarrow> bool \<Rightarrow> jsstring \<Rightarrow> message list option
     \<Rightarrow> gen_result \<times> session_store \<times> jsstring list" where
  "createSession env store tabId type initialPrompt imageBase64 imageType context onStream
     lang additionalPrompts =
     (let caught = (\<lambda>e. (failed\<lparr>error := Some (messageOr e ''Session creation failed''),
                              userMessage := Some (getErrorMessage e lang),
                              code := ecode e\<rparr>, store, []))
      in case createLanguageModel env initialPrompt lang of
           Inl e \<Rightarrow> caught e
         | Inr None \<Rightarrow>
             (let errorMsg = getErrorMessage (codeOnly ''LANGUAGE_MODEL_CREATION_FAILED'') lang
              in (failed\<lparr>error := Some errorMsg, userMessage := Some errorMsg\<rparr>, store, []))
         | Inr (Some s) \<Rightarrow>
             (case checkQuota (getMessage env) (Some (countersAt s 0)) of
                Exceeded u q m \<Rightarrow>
                  (failed\<lparr>error := Some (js ''Quota exceeded''), userMessage := Some m,
                     quotaExceeded := True, usage := Some u, quota := Some q\<rparr>, store, [])
              | Within \<Rightarrow>
                  (case base64ToBlob env imageBase64 imageType of
                     Inl e \<Rightarrow>
                       (failed\<lparr>error := Some (js ''Image processing failed''),
                          userMessage := Some (getErrorMessage (codeOnly ''IMAGE_PROCESSING_ERROR'') lang)\<rparr>,
                        store, [])
                   | Inr blob \<Rightarrow>
                       (case initialTurn env type context blob lang of
                          Inl early \<Rightarrow> (early, store, [])
                        | Inr turn \<Rightarrow>
                            (let p = (case additionalPrompts of
                                        None \<Rightarrow> turn
                                      | Some extra \<Rightarrow> if extra \<noteq> [] then turn @ extra else turn)
                             in case promptStreaming s (PMessages p) of
                                  Inl e \<Rightarrow> caught e
                                | Inr stream \<Rightarrow>
                                    (case streamLoop (getMessage env) (countersAt s) onStream stream [] 0 [] of
                                       (ending, calls) \<Rightarrow>
                                         (case afterStream store tabId s lang ending of
                                            (result, store') \<Rightarrow> (result, store', calls))))))))"

subsection \<open>Follow-up turns\<close>

text \<open>Lines 355-372: what is handed to the provider for a follow-up.\<close>

definition promptInputOf :: "jsprompt \<Rightarrow> jsprompt" where
  "promptInputOf p =
     (case p of
        PMessages (firstMessage # others) \<Rightarrow>
          (case content firstMessage of
             CParts parts \<Rightarrow>
               (let hasImage = list_ex (\<lambda>c. ptype c = js ''image'') parts
                in if \<not> hasImage \<and> length parts = 1 \<and> ptype (hd parts) = js ''text''
                   then PValue (pvalue (hd parts)) else p)
           | _ \<Rightarrow> p)
      | _ \<Rightarrow> p)"

datatype provider_call = CallPromptStreaming jsprompt | CallPrompt jsprompt

text \<open>
  \<open>sendPromptStreaming\<close>: the result, the arguments of the stream callback, and the calls
  made on the provider's session, in order. The session store is only read.
\<close>

definition sendPromptStreaming ::
  "i18n \<Rightarrow> session_store \<Rightarrow> nat \<Rightarrow> jsprompt \<Rightarrow> bool
     \<Rightarrow> gen_result \<times> jsstring list \<times> provider_call list" where
  "sendPromptStreaming getMsg store tabId p onStream =
     (case store tabId of
        None \<Rightarrow>
          (failed\<lparr>error := Some (js ''Session not found''),
             userMessage := Some (getErrorMessage (codeOnly ''SESSION_NOT_FOUND'') (js ''en'')),
             code := Some (js ''SESSION_NOT_FOUND'')\<rparr>, [], [])
      | Some sessionData \<Rightarrow>
          (let s = session sessionData; lang = userLanguage sessionData
           in case checkQuota getMsg (Some (countersAt s 0)) of
                Exceeded u q m \<Rightarrow>
                  (failed\<lparr>error := Some (js ''Quota exceeded''), userMessage := Some m,
                     quotaExceeded := True, usage := Some u, quota := Some q\<rparr>, [], [])
              | Within \<Rightarrow>
                  (let promptInput = promptInputOf p
                   in case promptStreaming s promptInput of
                        Inl e \<Rightarrow>
                          (failed\<lparr>error := Some (messageOr e ''Prompt failed''),
                             userMessage := Some (getErrorMessage e lang), code := ecode e\<rparr>,
                           [], [CallPromptStreaming promptInput])
                      | Inr stream \<Rightarrow>
                          (case streamLoop getMsg (countersAt s) onStream stream [] 0 [] of
                             (QuotaAbort fullText message, calls) \<Rightarrow>
                               (failed\<lparr>error := Some (js ''Quota exceeded during streaming''),
                                  userMessage := Some message, quotaExceeded := True,
                                  partialResponse := Some fullText\<rparr>,
                                calls, [CallPromptStreaming promptInput])
                           | (StreamFailed streamError fullText, calls) \<Rightarrow>
                               (failed\<lparr>error := Some (messageOr streamError ''Streaming failed''),
                                  userMessage := Some (getErrorMessage streamError lang),
                                  partialResponse := Some fullText\<rparr>,
                                calls, [CallPromptStreaming promptInput])
                           | (Completed fullText chunkCount, calls) \<Rightarrow>
                               if chunkCount = 0 then
                                 (case prompt s promptInput of
                                    Inl fallbackError \<Rightarrow>
                                      (failed\<lparr>error := Some (messageOr fallbackError ''Prompt failed''),
                                         userMessage := Some (getErrorMessage fallbackError lang)\<rparr>,
                                       calls, [CallPromptStreaming promptInput, CallPrompt promptInput])
                                  | Inr r \<Rightarrow>
                                      (let text = (case r of None \<Rightarrow> [] | Some t \<Rightarrow> t)
                                       in (succeeded text,
                                           (if onStream \<and> text \<noteq> [] then calls @ [text] else calls),
                                           [CallPromptStreaming promptInput, CallPrompt promptInput])))
                               else (succeeded fullText, calls, [CallPromptStreaming promptInput])))))"

section \<open>Worker message handler (src/offscreen.js)\<close>

datatype bus_event =
  Ack
  | StreamUpdate nat jsstring
  | StreamComplete nat "jsstring option"

text \<open>
  Lines 57-98 and 150-191: what the worker sends once the generation has settled. The
  message is \<open>result.userMessage || result.error || chrome.i18n.getMessage("error_generic")\<close>.
  When \<open>chrome.i18n\<close> is missing, the last operand throws a TypeError with the message
  \<open>typeError\<close>, and the \<open>catch\<close> continuation (lines 99-126) sends that message, or
  throws in its turn and sends nothing when the message is empty.
\<close>

definition truthy :: "jsstring option \<Rightarrow> bool" where
  "truthy v = (case v of None \<Rightarrow> False | Some t \<Rightarrow> t \<noteq> [])"

definition errorMessageOf :: "i18n \<Rightarrow> jsstring \<Rightarrow> gen_result \<Rightarrow> jsstring option" where
  "errorMessageOf getMsg typeError result =
     (if truthy (userMessage result) then userMessage result
      else if truthy (error result) then error result
      else (case getMsg of
              Some g \<Rightarrow> Some (g (js ''error_generic''))
            | None \<Rightarrow> if typeError \<noteq> [] then Some typeError else None))"

definition settleEvents :: "i18n \<Rightarrow> jsstring \<Rightarrow> nat \<Rightarrow> gen_result \<Rightarrow> bus_event list" where
  "settleEvents getMsg typeError tabId result =
     (if success result then [StreamComplete tabId (response result)]
      else (case errorMessageOf getMsg typeError result of
              Some errorMessage \<Rightarrow>
                [StreamUpdate tabId errorMessage, StreamComplete tabId (Some errorMessage)]
            | None \<Rightarrow> []))"

text \<open>
  The \<open>createSession\<close> case of the listener: the acknowledgement, one \<open>streamUpdate\<close>
  per callback call, then the events of the settled result.
\<close>

definition handleCreateSession ::
  "environment \<Rightarrow> jsstring \<Rightarrow> session_store \<Rightarrow> nat \<Rightarrow> jsstring \<Rightarrow> jsstring \<Rightarrow> jsstring
     \<Rightarrow> jsstring \<Rightarrow> page_context option \<Rightarrow> jsstring \<Rightarrow> message list option
     \<Rightarrow> bus_event list \<times> session_store" where
  "handleCreateSession env typeError store tabId type initialPrompt imageBase64 imageType context
     lang additionalPrompts =
     (case createSession env store tabId type initialPrompt imageBase64 imageType context True
             lang additionalPrompts of
        (result, store', calls) \<Rightarrow>
          (Ack # map (StreamUpdate tabId) calls @ settleEvents (getMessage env) typeError tabId result,
           store'))"

definition handleSendPrompt ::
  "i18n \<Rightarrow> jsstring \<Rightarrow> session_store \<Rightarrow> nat \<Rightarrow> jsprompt \<Rightarrow> bus_event list" where
  "handleSendPrompt getMsg typeError store promptTabId p =
     (case sendPromptStreaming getMsg store promptTabId p True of
        (promptResult, calls, provider) \<Rightarrow>
          Ack # map (StreamUpdate promptTabId) calls @ settleEvents getMsg typeError promptTabId promptResult)"

text \<open>
  The chunks an iterator yields before it ends or throws, and the text an ending of the
  loop carries.
\<close>

fun chunksOf :: "stream_item list \<Rightarrow> jsstring list" where
  "chunksOf [] = []"
| "chunksOf (Chunk chunk # rest) = chunk # chunksOf rest"
| "chunksOf (StreamThrows e # rest) = []"

fun textOf :: "loop_end \<Rightarrow> jsstring" where
  "textOf (Completed fullText chunkCount) = fullText"
| "textOf (QuotaAbort fullText message) = fullText"
| "textOf (StreamFailed e fullText) = fullText"

text \<open>The buffers the callback sees, chunk after chunk, in the words of the specification.\<close>

fun spec_buffers :: "jsstring \<Rightarrow> jsstring list \<Rightarrow> jsstring list" where
  "spec_buffers buffer [] = []"
| "spec_buffers buffer (chunk # chunks) =
     spec_merge buffer chunk # spec_buffers (spec_merge buffer chunk) chunks"


subsection \<open>Scripted providers\<close>

text \<open>
  A session that answers every prompt with a given stream and a given reply, and an
  environment in which model creation and image decoding succeed.
\<close>

definition noCounters :: counters where
  "noCounters = \<lparr>inputUsage = None, inputQuota = None\<rparr>"

definition quietCounters :: "nat \<Rightarrow> counters" where
  "quietCounters k = noCounters"

definition scriptedSession ::
  "(nat \<Rightarrow> counters) \<Rightarrow> stream_item list \<Rightarrow> js_error + jsstring option \<Rightarrow> session" where
  "scriptedSession cnt stream reply =
     \<lparr>handle = 0, countersAt = cnt, promptStreaming = (\<lambda>p. Inr stream), prompt = (\<lambda>p. reply)\<rparr>"

definition scriptedEnv :: "session \<Rightarrow> i18n \<Rightarrow> environment" where
  "scriptedEnv s g =
     \<lparr>createLanguageModel = (\<lambda>p l. Inr (Some s)), base64ToBlob = (\<lambda>b t. Inr 0),
      createImageBitmapFromBlob = (\<lambda>b. Inr 0), getMessage = g\<rparr>"

text \<open>
  A session whose usage grows by 100 with every chunk against a quota of 1000, twelve
  one-letter chunks, and a message table that answers every key with one notice.
\<close>

definition risingCounters :: "nat \<Rightarrow> counters" where
  "risingCounters k = \<lparr>inputUsage = Some (int k * 100), inputQuota = Some 1000\<rparr>"

definition twelveChunks :: "jsstring list" where
  "twelveChunks = map (\<lambda>c. [of_char c]) ''0123456789ab''"

definition quotaNotice :: i18n where
  "quotaNotice = Some (\<lambda>key. js ''Quota reached'')"

text \<open>The follow-up turn the coordinator sends for a question (handleFollowupQuestion).\<close>

definition textTurn :: "jsstring \<Rightarrow> jsprompt" where
  "textTurn question =
     PMessages [\<lparr>role = js ''user'', content = CParts [\<lparr>ptype = js ''text'', pvalue = VText question\<rparr>]\<rparr>]"

section \<open>Worker lifecycle and message delivery (background/offscreenBridge.js, in src/constants.js from line 234)\<close>

subsection \<open>The host\<close>

text \<open>
  A message on the bus as far as the delivery layer looks at it: the \<open>action\<close>, the
  \<open>tabId\<close> and the \<open>prompt\<close>. The worker's reply is an object with \<open>success\<close>,
  \<open>started\<close> and \<open>error\<close>, or nothing (\<open>None\<close>).
\<close>

record bus_message =
  action :: jsstring
  messageTabId :: "nat option"
  messagePrompt :: "jsprompt option"

record bus_response =
  responseSuccess :: bool
  responseStarted :: bool
  responseError :: "jsstring option"

text \<open>
  How a promise of the host stands when the deadline it is raced against expires:
  resolved, rejected, or still pending.
\<close>

datatype 'a settled = Resolved 'a | Rejected js_error | Pending

text \<open>
  What the layer asks of the host, in order: \<open>chrome.runtime.getContexts\<close>, the liveness
  probe (\<open>sendMessage\<close> of a ping raced against 2000 ms), the delivery of a request
  (\<open>sendMessage\<close> raced against the given deadline), \<open>chrome.offscreen.closeDocument\<close>,
  \<open>chrome.offscreen.createDocument\<close>, a delay, and the wait of up to ten seconds for the
  first stream update.
\<close>

datatype host_op =
  GetContexts
  | Probe
  | Deliver bus_message nat
  | CloseDocument
  | CreateDocument
  | Delay nat
  | AwaitFirstUpdate

text \<open>
  The host is not under the program's control: it is given as scripts that say how the
  \<open>n\<close>-th call of each kind turns out. \<open>getContexts\<close> gives the number of worker
  contexts or throws (\<open>None\<close>); \<open>closeDocument\<close> and \<open>createDocument\<close> resolve or
  reject; \<open>updateBeforeAck\<close> says whether a stream update for the tab had arrived when the
  \<open>n\<close>-th message was acknowledged. The state of a run is the list of requests made so far.
\<close>

record world =
  contextsScript :: "nat \<Rightarrow> nat option"
  sendScript :: "nat \<Rightarrow> bus_response option settled"
  closeScript :: "nat \<Rightarrow> bool"
  createScript :: "nat \<Rightarrow> bool"
  updateBeforeAck :: "nat \<Rightarrow> bool"

definition isSend :: "host_op \<Rightarrow> bool" where
  "isSend op = (case op of Probe \<Rightarrow> True | Deliver m d \<Rightarrow> True | _ \<Rightarrow> False)"

definition isDeliver :: "host_op \<Rightarrow> bool" where
  "isDeliver op = (case op of Deliver m d \<Rightarrow> True | _ \<Rightarrow> False)"

definition sendCount :: "host_op list \<Rightarrow> nat" where
  "sendCount tr = length (filter isSend tr)"

definition deliveries :: "host_op list \<Rightarrow> nat" where
  "deliveries tr = length (filter isDeliver tr)"

definition creations :: "host_op list \<Rightarrow> nat" where
  "creations tr = count_list tr CreateDocument"

definition newError :: "jsstring \<Rightarrow> js_error" where
  "newError m = \<lparr>ename = Some (js ''Error''), emessage = Some m, ecode = None\<rparr>"

definition getContexts :: "world \<Rightarrow> host_op list \<Rightarrow> nat option \<times> host_op list" where
  "getContexts w tr = (contextsScript w (count_list tr GetContexts), tr @ [GetContexts])"

definition closeDocument :: "world \<Rightarrow> host_op list \<Rightarrow> bool \<times> host_op list" where
  "closeDocument w tr = (closeScript w (count_list tr CloseDocument), tr @ [CloseDocument])"

definition createDocument :: "world \<Rightarrow> host_op list \<Rightarrow> bool \<times> host_op list" where
  "createDocument w tr = (createScript w (count_list tr CreateDocument), tr @ [CreateDocument])"

definition delay :: "nat \<Rightarrow> host_op list \<Rightarrow> host_op list" where
  "delay ms tr = tr @ [Delay ms]"

text \<open>
  \<open>Promise.race([chrome.runtime.sendMessage(...), timeout])\<close>: the reply, or the error
  thrown, which is the timeout's when the send is still pending.
\<close>

definition raced ::
  "world \<Rightarrow> host_op \<Rightarrow> string \<Rightarrow> host_op list \<Rightarrow> (js_error + bus_response option) \<times> host_op list" where
  "raced w op timeoutText tr =
     (case sendScript w (sendCount tr) of
        Resolved r \<Rightarrow> (Inr r, tr @ [op])
      | Rejected e \<Rightarrow> (Inl e, tr @ [op])
      | Pending \<Rightarrow> (Inl (newError (js timeoutText)), tr @ [op]))"

text \<open>\<open>pingResult?.success\<close>\<close>

definition pingOk :: "bus_response option \<Rightarrow> bool" where
  "pingOk r = (case r of None \<Rightarrow> False | Some x \<Rightarrow> responseSuccess x)"

subsection \<open>ensureOffscreenDocument\<close>

text \<open>
  Lines 288-307: the loop \<open>for (let i = 0; i < 5; i++)\<close>, by the number of rounds left;
  the delay of 200 ms follows a failed probe unless it was the last.
\<close>

fun verifyReady :: "world \<Rightarrow> nat \<Rightarrow> host_op list \<Rightarrow> bool \<times> host_op list" where
  "verifyReady w 0 tr = (False, tr)"
| "verifyReady w (Suc left) tr =
     (case raced w Probe ''Ping timeout'' tr of
        (Inr pingResult, tr1) \<Rightarrow> if pingOk pingResult then (True, tr1) else verifyReady w left tr1
      | (Inl e, tr1) \<Rightarrow> verifyReady w left (if 0 < left then delay 200 tr1 else tr1))"

text \<open>Lines 278-313, inside the outer \<open>try\<close>: any throw makes the function return false.\<close>

definition createAndVerify :: "world \<Rightarrow> host_op list \<Rightarrow> bool \<times> host_op list" where
  "createAndVerify w tr =
     (case createDocument w tr of
        (False, tr1) \<Rightarrow> (False, tr1)
      | (True, tr1) \<Rightarrow> verifyReady w 5 (delay 500 tr1))"

definition ensureOffscreenDocument :: "world \<Rightarrow> host_op list \<Rightarrow> bool \<times> host_op list" where
  "ensureOffscreenDocument w tr =
     (case getContexts w tr of
        (None, tr1) \<Rightarrow> (False, tr1)
      | (Some clients, tr1) \<Rightarrow>
          if clients > 0 then
            (case raced w Probe ''Ping timeout'' tr1 of
               (Inr pingResult, tr2) \<Rightarrow>
                 if pingOk pingResult then (True, tr2) else createAndVerify w tr2
             | (Inl e, tr2) \<Rightarrow> createAndVerify w (snd (closeDocument w tr2)))
          else createAndVerify w tr1)"

text \<open>
  A worker is live, as a call of \<open>ensureOffscreenDocument\<close> finds it, when a context of
  the kind exists and the next probe is answered with success.
\<close>

definition liveWorker :: "world \<Rightarrow> host_op list \<Rightarrow> bool" where
  "liveWorker w tr =
     (case contextsScript w (count_list tr GetContexts) of
        None \<Rightarrow> False
      | Some clients \<Rightarrow>
          0 < clients \<and> (case sendScript w (sendCount tr) of Resolved r \<Rightarrow> pingOk r | _ \<Rightarrow> False))"

subsection \<open>sendMessageToOffscreen\<close>

text \<open>
  Lines 332-340. The chain of negations reads fields of the prompt; on a first part whose
  value is an image the call of \<open>includes\<close> throws a TypeError.
\<close>

definition includesTypeError :: js_error where
  "includesTypeError =
     \<lparr>ename = Some (js ''TypeError''),
      emessage = Some (js ''message.prompt[0].content[0].value.includes is not a function''),
      ecode = None\<rparr>"

definition isStreamingAction :: "bus_message \<Rightarrow> js_error + bool" where
  "isStreamingAction message =
     (if action message = js ''createSession'' then Inr True
      else if action message = js ''sendPrompt'' then
        (case messagePrompt message of
           Some (PMessages (first # others)) \<Rightarrow>
             (case content first of
                CParts (part0 # parts) \<Rightarrow>
                  (case pvalue part0 of
                     VText v \<Rightarrow> Inr (v = [] \<or> \<not> sublist (js ''perceptaActions:'') v)
                   | VUndefined \<Rightarrow> Inr True
                   | _ \<Rightarrow> Inl includesTypeError)
              | _ \<Rightarrow> Inr True)
         | _ \<Rightarrow> Inr True)
      else Inr False)"

text \<open>Lines 416-421: the errors that lead to the retry.\<close>

definition isTransportError :: "js_error \<Rightarrow> bool" where
  "isTransportError err =
     (case emessage err of
        None \<Rightarrow> False
      | Some m \<Rightarrow>
          sublist (js ''Receiving end does not exist'') m
          \<or> sublist (js ''Could not establish connection'') m
          \<or> sublist (js ''Timeout'') m
          \<or> sublist (js ''did not start'') m)"

text \<open>\<open>`${error.message}`\<close>\<close>

definition messageText :: "js_error \<Rightarrow> jsstring" where
  "messageText e = (case emessage e of None \<Rightarrow> js ''undefined'' | Some m \<Rightarrow> m)"

text \<open>Lines 325-412: the first attempt, up to its return or its throw.\<close>

definition firstAttempt ::
  "world \<Rightarrow> bus_message \<Rightarrow> host_op list \<Rightarrow> (js_error + bus_response) \<times> host_op list" where
  "firstAttempt w message tr =
     (let tr1 = delay 200 (snd (ensureOffscreenDocument w tr))
      in case isStreamingAction message of
           Inl e \<Rightarrow> (Inl e, tr1)
         | Inr True \<Rightarrow>
             (case raced w (Deliver message 5000) ''Timeout waiting for generation start'' tr1 of
                (Inl e, tr2) \<Rightarrow> (Inl e, tr2)
              | (Inr None, tr2) \<Rightarrow>
                  (Inl (newError (js ''No acknowledgment from offscreen document'')), tr2)
              | (Inr (Some resp), tr2) \<Rightarrow>
                  if \<not> responseStarted resp then
                    (Inl (newError (if truthy (responseError resp) then the (responseError resp)
                                    else js ''No acknowledgment from offscreen document'')), tr2)
                  else if updateBeforeAck w (sendCount tr1) then (Inr resp, tr2)
                  else (Inr resp, tr2 @ [AwaitFirstUpdate]))
         | Inr False \<Rightarrow>
             (case raced w (Deliver message 30000) ''Timeout after 30s'' tr1 of
                (Inl e, tr2) \<Rightarrow> (Inl e, tr2)
              | (Inr None, tr2) \<Rightarrow> (Inl (newError (js ''No response from offscreen document'')), tr2)
              | (Inr (Some resp), tr2) \<Rightarrow> (Inr resp, tr2)))"

text \<open>Lines 422-455: close, ensure, settle, and the one retry.\<close>

definition retryAttempt ::
  "world \<Rightarrow> bus_message \<Rightarrow> host_op list \<Rightarrow> (js_error + bus_response) \<times> host_op list" where
  "retryAttempt w message tr =
     (let tr1 = snd (closeDocument w tr);
          tr2 = snd (ensureOffscreenDocument w tr1);
          tr3 = delay 500 tr2
      in case isStreamingAction message of
           Inl e \<Rightarrow> (Inl (newError (js ''Failed after retry: '' @ messageText e)), tr3)
         | Inr streaming \<Rightarrow>
             (case raced w (Deliver message (if streaming then 5000 else 30000)) ''Timeout on retry'' tr3 of
                (Inl retryError, tr4) \<Rightarrow>
                  (Inl (newError (js ''Failed after retry: '' @ messageText retryError)), tr4)
              | (Inr None, tr4) \<Rightarrow>
                  (Inl (newError (js ''Failed after retry: ''
                                   @ js ''No response from offscreen document on retry'')), tr4)
              | (Inr (Some retryResponse), tr4) \<Rightarrow> (Inr retryResponse, tr4)))"

definition sendMessageToOffscreen ::
  "world \<Rightarrow> bus_message \<Rightarrow> host_op list \<Rightarrow> (js_error + bus_response) \<times> host_op list" where
  "sendMessageToOffscreen w message tr =
     (case firstAttempt w message tr of
        (Inr resp, tr1) \<Rightarrow> (Inr resp, tr1)
      | (Inl err, tr1) \<Rightarrow>
          if isTransportError err then retryAttempt w message tr1 else (Inl err, tr1))"

text \<open>
  A host with no worker at first that creates one on request and answers every message with
  \<open>{success: true, started: true}\<close>. A host whose worker answers the first probe and
  never answers the first delivery, is gone once it has been closed and, created anew,
  answers the probe and gives the second delivery the outcome \<open>second\<close>. A host whose
  worker answers the first probe and nothing after it, and is gone once it has been closed.
  A host whose worker gives the first delivery the given reply. In the last three no stream
  update arrives before an acknowledgement. And the reply of a worker that could not start
  the generation.
\<close>

definition okResponse :: bus_response where
  "okResponse = \<lparr>responseSuccess = True, responseStarted = True, responseError = None\<rparr>"

definition liveWorld :: world where
  "liveWorld =
     \<lparr>contextsScript = (\<lambda>n. Some (if n = 0 then 0 else 1)),
      sendScript = (\<lambda>n. Resolved (Some okResponse)),
      closeScript = (\<lambda>n. True), createScript = (\<lambda>n. True), updateBeforeAck = (\<lambda>n. True)\<rparr>"

definition flakyWorld :: "bus_response option settled \<Rightarrow> world" where
  "flakyWorld second =
     \<lparr>contextsScript = (\<lambda>n. Some (if n = 0 then 1 else 0)),
      sendScript = (\<lambda>n. if n = 1 then Pending else if n = 3 then second else Resolved (Some okResponse)),
      closeScript = (\<lambda>n. True), createScript = (\<lambda>n. True), updateBeforeAck = (\<lambda>n. False)\<rparr>"

definition silentWorld :: world where
  "silentWorld =
     \<lparr>contextsScript = (\<lambda>n. Some (if n = 0 then 1 else 0)),
      sendScript = (\<lambda>n. if n = 0 then Resolved (Some okResponse) else Pending),
      closeScript = (\<lambda>n. True), createScript = (\<lambda>n. True), updateBeforeAck = (\<lambda>n. False)\<rparr>"

definition steadyWorld :: "bus_response \<Rightarrow> world" where
  "steadyWorld reply =
     \<lparr>contextsScript = (\<lambda>n. Some 1),
      sendScript = (\<lambda>n. Resolved (Some (if n = 1 then reply else okResponse))),
      closeScript = (\<lambda>n. True), createScript = (\<lambda>n. True), updateBeforeAck = (\<lambda>n. False)\<rparr>"

definition failedResponse :: bus_response where
  "failedResponse =
     \<lparr>responseSuccess = False, responseStarted = False, responseError = Some (js ''Worker failed'')\<rparr>"

definition deleteRequest :: bus_message where
  "deleteRequest = \<lparr>action = js ''deleteSession'', messageTabId = Some 7, messagePrompt = None\<rparr>"

section \<open>Context chunker (src/ai/contextChunker.js)\<close>

subsection \<open>Sizes\<close>

definition MAX_CONTEXT_SIZE :: int where
  "MAX_CONTEXT_SIZE = 10 * 1024"

text \<open>The footer; its dash is U+2014.\<close>

definition FOOTER_MESSAGE :: jsstring where
  "FOOTER_MESSAGE =
     js ''END OF CONTEXT '' @ [0x2014] @ js '' use only this data. Do not invent or guess links.''"

definition nl :: "16 word" where
  "nl = 0x0A"

definition isHighSurrogate :: "16 word \<Rightarrow> bool" where
  "isHighSurrogate c = (0xD800 \<le> c \<and> c < 0xDC00)"

definition isLowSurrogate :: "16 word \<Rightarrow> bool" where
  "isLowSurrogate c = (0xDC00 \<le> c \<and> c < 0xE000)"

text \<open>
  \<open>new Blob([text]).size\<close>: the length of the UTF-8 encoding. A surrogate pair is one
  code point of four bytes; a surrogate on its own is encoded as U+FFFD, three bytes.
\<close>

fun getTextSizeInBytes :: "jsstring \<Rightarrow> nat" where
  "getTextSizeInBytes [] = 0"
| "getTextSizeInBytes (c # cs) =
     (if c < 0x80 then 1 + getTextSizeInBytes cs
      else if c < 0x800 then 2 + getTextSizeInBytes cs
      else if isHighSurrogate c then
        (case cs of
           [] \<Rightarrow> 3
         | d # ds \<Rightarrow> if isLowSurrogate d then 4 + getTextSizeInBytes ds
                     else 3 + getTextSizeInBytes cs)
      else 3 + getTextSizeInBytes cs)"

subsection \<open>Truncation\<close>

text \<open>\<open>items.join("\n")\<close>\<close>

fun joinLines :: "jsstring list \<Rightarrow> jsstring" where
  "joinLines [] = []"
| "joinLines [item] = item"
| "joinLines (item # items) = item @ [nl] @ joinLines items"

text \<open>\<open>truncateArray\<close>: the loop, from the size reached so far.\<close>

fun truncateArrayFrom :: "int \<Rightarrow> int \<Rightarrow> jsstring list \<Rightarrow> jsstring list" where
  "truncateArrayFrom maxBytes currentSize [] = []"
| "truncateArrayFrom maxBytes currentSize (item # items) =
     (let itemSize = int (getTextSizeInBytes (item @ [nl]))
      in if currentSize + itemSize > maxBytes then []
         else item # truncateArrayFrom maxBytes (currentSize + itemSize) items)"

definition truncateArray :: "jsstring list \<Rightarrow> int \<Rightarrow> jsstring list" where
  "truncateArray items maxBytes = truncateArrayFrom maxBytes 0 items"

text \<open>The binary search of \<open>truncateText\<close> (lines 278-293).\<close>

function bisect :: "jsstring \<Rightarrow> int \<Rightarrow> int \<Rightarrow> int \<Rightarrow> jsstring \<Rightarrow> jsstring" where
  "bisect text maxBytes low high result =
     (if low \<le> high then
        (let mid = (low + high) div 2;
             substring = take (nat mid) text
         in if int (getTextSizeInBytes substring) \<le> maxBytes
            then bisect text maxBytes (mid + 1) high substring
            else bisect text maxBytes low (mid - 1) result)
      else result)"
  by pat_completeness auto
termination
  by (relation "measure (\<lambda>(text, maxBytes, low, high, result). nat (high - low + 1))") auto

text \<open>\<open>s.lastIndexOf(" ")\<close>: the index of the last space, or -1.\<close>

definition lastIndexOfSpace :: "jsstring \<Rightarrow> int" where
  "lastIndexOfSpace s =
     (if 0x20 \<in> set s
      then int (length s) - 1 - int (length (takeWhile (\<lambda>x. x \<noteq> 0x20) (rev s)))
      else - 1)"

text \<open>The white space and line terminators that \<open>trim\<close> removes.\<close>

definition isWhiteSpace :: "16 word \<Rightarrow> bool" where
  "isWhiteSpace c =
     (c \<in> {0x09, 0x0A, 0x0B, 0x0C, 0x0D, 0x20, 0xA0, 0x1680, 0x2028, 0x2029, 0x202F, 0x205F,
            0x3000, 0xFEFF}
      \<or> (0x2000 \<le> c \<and> c \<le> 0x200A))"

definition trim :: "jsstring \<Rightarrow> jsstring" where
  "trim s = rev (dropWhile isWhiteSpace (rev (dropWhile isWhiteSpace s)))"

text \<open>
  \<open>truncateText\<close>. The test \<open>lastSpace > result.length * 0.8\<close> compares an integer
  with a product in floating point; for the lengths a string can have the product rounds
  to the exact value when that is an integer and keeps its side of every integer
  otherwise, so the test is \<open>5 * lastSpace > 4 * result.length\<close>.
\<close>

definition truncateText :: "jsstring \<Rightarrow> int \<Rightarrow> jsstring" where
  "truncateText text maxBytes =
     (if text = [] then []
      else if int (getTextSizeInBytes text) \<le> maxBytes then text
      else (let result = bisect text maxBytes 0 (int (length text)) [];
                lastSpace = lastIndexOfSpace result;
                result = (if 5 * lastSpace > 4 * int (length result)
                          then take (nat lastSpace) result else result)
            in trim result))"

subsection \<open>chunkContext\<close>

record context_data =
  title :: jsstring
  meta :: "jsstring list"
  headings :: "jsstring list"
  links :: "jsstring list"
  snippet :: jsstring
  url :: jsstring
  articleContent :: "jsstring option"
  isArticle :: bool

text \<open>\<open>MAX_CONTEXT_SIZE - getTextSizeInBytes(context) - footerSize\<close>\<close>

definition remainingFor :: "jsstring \<Rightarrow> int" where
  "remainingFor context =
     MAX_CONTEXT_SIZE - int (getTextSizeInBytes context) - int (getTextSizeInBytes FOOTER_MESSAGE)"

text \<open>Lines 112-117: the URL line and, for a non-empty title, the title line.\<close>

definition header :: "context_data \<Rightarrow> jsstring" where
  "header cd =
     js ''URL: '' @ url cd @ [nl, nl]
       @ (if title cd \<noteq> [] then js ''TITLE: '' @ title cd @ [nl, nl] else [])"

text \<open>
  Lines 154-170, 173-194 and 197-213: the three blocks for meta tags, headings and links,
  which differ in the label and the items only (the headings are prefixed with "- ").
  The state is the context so far and \<open>remainingBytes\<close>.
\<close>

definition addSection :: "string \<Rightarrow> jsstring list \<Rightarrow> jsstring \<times> int \<Rightarrow> jsstring \<times> int" where
  "addSection label items state =
     (case state of
        (context, remainingBytes) \<Rightarrow>
          if items \<noteq> [] \<and> remainingBytes > 0 then
            (let section = js label @ [nl] @ joinLines items @ [nl, nl];
                 sectionSize = int (getTextSizeInBytes section)
             in if sectionSize \<le> remainingBytes
                then (context @ section, remainingBytes - sectionSize)
                else (let truncated = truncateArray items (remainingBytes - 50)
                      in if truncated \<noteq> []
                         then (context @ js label @ [nl] @ joinLines truncated @ [nl, nl],
                               remainingFor (context @ js label @ [nl] @ joinLines truncated @ [nl, nl]))
                         else (context, remainingBytes)))
          else (context, remainingBytes))"

text \<open>Lines 216-229: the page snippet.\<close>

definition addSnippet :: "jsstring \<Rightarrow> jsstring \<times> int \<Rightarrow> jsstring" where
  "addSnippet snip state =
     (case state of
        (context, remainingBytes) \<Rightarrow>
          if snip \<noteq> [] \<and> remainingBytes > 0 then
            (let snippetSection = js ''PAGE TEXT (SNAPSHOT):'' @ [nl] @ snip @ [nl, nl];
                 snippetSize = int (getTextSizeInBytes snippetSection)
             in if snippetSize \<le> remainingBytes then context @ snippetSection
                else (let truncatedSnippet = truncateText snip (remainingBytes - 100)
                      in if truncatedSnippet \<noteq> []
                         then context @ js ''PAGE TEXT (SNAPSHOT):'' @ [nl] @ truncatedSnippet
                                @ js ''...'' @ [nl, nl]
                         else context))
          else context)"

definition chunkContext :: "context_data \<Rightarrow> jsstring" where
  "chunkContext cd =
     (let context = header cd;
          remainingBytes = remainingFor context
      in if isArticle cd \<and> truthy (articleContent cd) \<and> remainingBytes > 0 then
           (let article = the (articleContent cd);
                articleSize = int (getTextSizeInBytes article)
            in if articleSize \<le> remainingBytes
               then context @ article @ [nl, nl] @ FOOTER_MESSAGE
               else (let truncatedArticle = truncateText article (remainingBytes - 100)
                     in if truncatedArticle \<noteq> []
                        then context @ truncatedArticle @ js ''...'' @ [nl, nl] @ FOOTER_MESSAGE
                        else context @ FOOTER_MESSAGE))
         else
           addSnippet (snippet cd)
             (addSection ''LINKS:'' (links cd)
                (addSection ''HEADINGS:'' (map (\<lambda>h. js ''- '' @ h) (headings cd))
                   (addSection ''META TAGS:'' (meta cd) (context, remainingBytes))))
           @ FOOTER_MESSAGE)"

subsection \<open>Sample pages\<close>

text \<open>
  A page whose URL alone is longer than the budget, and one whose title is. An article page
  whose title leaves 56 bytes, and one whose title leaves exactly 100. A small article
  page. An article page whose article is longer than what the title leaves. An article
  page whose article is exactly as long as what the URL line leaves.
\<close>

definition longUrlPage :: context_data where
  "longUrlPage =
     \<lparr>title = [], meta = [], headings = [], links = [], snippet = [],
      url = replicate 10240 (of_char CHR ''a''), articleContent = None, isArticle = False\<rparr>"

definition longTitlePage :: context_data where
  "longTitlePage =
     \<lparr>title = replicate 10240 (of_char CHR ''a''), meta = [js ''description: none''], headings = [],
      links = [js ''1. Home''], snippet = js ''Some text'', url = [],
      articleContent = None, isArticle = False\<rparr>"

definition crowdedArticlePage :: context_data where
  "crowdedArticlePage =
     \<lparr>title = replicate 10100 (of_char CHR ''a''), meta = [js ''description: none''], headings = [],
      links = [], snippet = [], url = [],
      articleContent = Some (replicate 200 (of_char CHR ''z'')), isArticle = True\<rparr>"

definition tightArticlePage :: context_data where
  "tightArticlePage =
     \<lparr>title = replicate 10056 (of_char CHR ''a''), meta = [js ''description: none''], headings = [],
      links = [], snippet = [], url = [],
      articleContent = Some (replicate 200 (of_char CHR ''z'')), isArticle = True\<rparr>"

definition sampleArticlePage :: context_data where
  "sampleArticlePage =
     \<lparr>title = js ''Example'', meta = [js ''description: none''], headings = [js ''Welcome''],
      links = [js ''1. Home''], snippet = [], url = js ''https://example.org/post/1'',
      articleContent = Some (js ''A short article.''), isArticle = True\<rparr>"

definition longArticlePage :: context_data where
  "longArticlePage =
     \<lparr>title = replicate 9000 (of_char CHR ''a''), meta = [js ''description: none''], headings = [],
      links = [], snippet = [], url = [],
      articleContent = Some (replicate 2000 (of_char CHR ''z'')), isArticle = True\<rparr>"

definition snugArticlePage :: context_data where
  "snugArticlePage =
     \<lparr>title = [], meta = [], headings = [], links = [], snippet = [], url = [],
      articleContent = Some (replicate 10165 (of_char CHR ''z'')), isArticle = True\<rparr>"

section \<open>Coordinator (background/messageHandlers.js, background/screenshot.js) and popup\<close>

text \<open>
  \<open>streamingState\<close>: a \<open>Map\<close> from tab id to an object with the flags below (a flag
  that is absent reads as false). A \<open>Map\<close> keeps its keys in insertion order: it is an
  association list, with \<open>map_of\<close> for \<open>get\<close>, \<open>updateState\<close> for \<open>set\<close> and
  \<open>deleteState\<close> for \<open>delete\<close>.
\<close>

record stream_state =
  isFollowup :: bool
  initialized :: bool
  isActionButtons :: bool
  generatingTitle :: bool

type_synonym streaming_state = "(nat \<times> stream_state) list"

fun updateState :: "nat \<Rightarrow> stream_state \<Rightarrow> streaming_state \<Rightarrow> streaming_state" where
  "updateState k v [] = [(k, v)]"
| "updateState k v (p # ps) = (if fst p = k then (k, v) # ps else p # updateState k v ps)"

definition deleteState :: "nat \<Rightarrow> streaming_state \<Rightarrow> streaming_state" where
  "deleteState k ps = filter (\<lambda>p. fst p \<noteq> k) ps"

text \<open>The key has a generation in flight, as the coordinator records it.\<close>

definition inFlight :: "streaming_state \<Rightarrow> nat \<Rightarrow> bool" where
  "inFlight streamingState tabId = (map_of streamingState tabId \<noteq> None)"

text \<open>
  The \<open>isAnyTabStreaming\<close> case of the listener (lines 835-845). Every value in the map
  is an object, hence truthy.
\<close>

definition isAnyTabStreaming :: "streaming_state \<Rightarrow> bool" where
  "isAnyTabStreaming streamingState = list_ex (\<lambda>entry. True) streamingState"

text \<open>\<open>cleanupStreamingState\<close>\<close>

definition cleanupStreamingState :: "nat \<Rightarrow> streaming_state \<Rightarrow> streaming_state" where
  "cleanupStreamingState tabId streamingState =
     (if inFlight streamingState tabId then deleteState tabId streamingState else streamingState)"

text \<open>
  What \<open>captureAndProcessScreenshot\<close> needs of the browser: whether the screenshot could
  be captured and encoded (lines 50-92; a throw there ends the function), and the page
  signals, or none when the script injection throws.
\<close>

record capture_env =
  captureOk :: bool
  pageSignals :: "context_data option"

definition createSessionRequest :: "nat \<Rightarrow> bus_message" where
  "createSessionRequest tabId =
     \<lparr>action = js ''createSession'', messageTabId = Some tabId, messagePrompt = None\<rparr>"

definition sendPromptRequest :: "nat \<Rightarrow> jsstring \<Rightarrow> bus_message" where
  "sendPromptRequest tabId question =
     \<lparr>action = js ''sendPrompt'', messageTabId = Some tabId, messagePrompt = Some (textTurn question)\<rparr>"

text \<open>
  \<open>captureAndProcessScreenshot\<close>: the streaming state afterwards and the requests handed
  to \<open>sendMessageToOffscreen\<close>. A tab id of 0 is falsy.
\<close>

definition captureAndProcessScreenshot ::
  "capture_env \<Rightarrow> nat option \<Rightarrow> streaming_state \<Rightarrow> streaming_state \<times> bus_message list" where
  "captureAndProcessScreenshot env tab streamingState =
     (case tab of
        None \<Rightarrow> (streamingState, [])
      | Some tabId \<Rightarrow>
          if tabId = 0 then (streamingState, [])
          else if \<not> captureOk env then (streamingState, [])
          else (case pageSignals env of
                  None \<Rightarrow> (cleanupStreamingState tabId streamingState, [])
                | Some contextData \<Rightarrow>
                    (cleanupStreamingState tabId streamingState, [createSessionRequest tabId])))"

text \<open>
  \<open>handleFollowupQuestion\<close>. The tab id of the message, else the active tab; the session
  metadata must exist and the question be non-empty; the state is set before the
  conversation is updated, and a throw of that update means that nothing is sent.
\<close>

record followup_env =
  activeTab :: "nat option"
  hasMetadata :: "nat \<Rightarrow> bool"
  conversationUpdateOk :: bool

definition handleFollowupQuestion ::
  "followup_env \<Rightarrow> nat option \<Rightarrow> jsstring \<Rightarrow> streaming_state \<Rightarrow> streaming_state \<times> bus_message list" where
  "handleFollowupQuestion env messageTab question streamingState =
     (let tab = (case messageTab of
                   Some t \<Rightarrow> if t \<noteq> 0 then Some t else activeTab env
                 | None \<Rightarrow> activeTab env)
      in case tab of
           None \<Rightarrow> (streamingState, [])
         | Some tabId \<Rightarrow>
             if tabId = 0 then (streamingState, [])
             else if \<not> hasMetadata env tabId then (streamingState, [])
             else if question = [] then (streamingState, [])
             else
               (let marked = updateState tabId
                               \<lparr>isFollowup = True, initialized = False, isActionButtons = False,
                                generatingTitle = False\<rparr> streamingState
                in if conversationUpdateOk env then (marked, [sendPromptRequest tabId question])
                   else (marked, [])))"

text \<open>
  \<open>handleStreamUpdate\<close>: a stream update for a tab with no entry in the map records the
  tab as streaming its first answer; an entry that exists is left as it is. The update is
  forwarded to the side panel with the flags of the entry.
\<close>

record forwarded_update =
  forwardTabId :: nat
  forwardPartial :: jsstring
  forwardIsFollowup :: bool
  forwardIsActionButtons :: bool

definition handleStreamUpdate ::
  "nat \<Rightarrow> jsstring \<Rightarrow> streaming_state \<Rightarrow> streaming_state \<times> forwarded_update" where
  "handleStreamUpdate tabId chunk streamingState =
     (case map_of streamingState tabId of
        None \<Rightarrow>
          (updateState tabId
             \<lparr>isFollowup = False, initialized = True, isActionButtons = False, generatingTitle = False\<rparr>
             streamingState,
           \<lparr>forwardTabId = tabId, forwardPartial = chunk, forwardIsFollowup = False,
            forwardIsActionButtons = False\<rparr>)
      | Some state \<Rightarrow>
          (streamingState,
           \<lparr>forwardTabId = tabId, forwardPartial = chunk, forwardIsFollowup = isFollowup state,
            forwardIsActionButtons = isActionButtons state\<rparr>))"

text \<open>
  \<open>handleContextMenuClick\<close> and \<open>generateFromImage\<close> (background/contextMenus.js): for
  the menu item of the extension on an image with a source, unless the script that reads
  the image's surroundings or the download of the image throws, the \<open>createSession\<close>
  request is handed to \<open>sendMessageToOffscreen\<close>. The streaming state is not looked at.
\<close>

record menu_env =
  contextScriptOk :: bool
  imageFetchOk :: bool

definition handleContextMenuClick ::
  "menu_env \<Rightarrow> jsstring \<Rightarrow> nat option \<Rightarrow> jsstring \<Rightarrow> streaming_state
     \<Rightarrow> streaming_state \<times> bus_message list" where
  "handleContextMenuClick env menuItemId tab srcUrl streamingState =
     (case tab of
        None \<Rightarrow> (streamingState, [])
      | Some tabId \<Rightarrow>
          if menuItemId \<noteq> js ''generateFromImage'' \<or> tabId = 0 \<or> srcUrl = []
          then (streamingState, [])
          else if \<not> contextScriptOk env then (streamingState, [])
          else if \<not> imageFetchOk env then (streamingState, [])
          else (streamingState, [createSessionRequest tabId]))"

text \<open>
  The popup's \<open>handleDescribePage\<close> (lines 873-911): given how its \<open>isAnyTabStreaming\<close>
  query settled and the active tab, whether it sends \<open>analyzePage\<close> to the coordinator.
\<close>

definition handleDescribePage :: "bool option settled \<Rightarrow> nat option \<Rightarrow> bool" where
  "handleDescribePage reply tab =
     (case reply of
        Resolved (Some isStreaming) \<Rightarrow> \<not> isStreaming \<and> tab \<noteq> None
      | Resolved None \<Rightarrow> tab \<noteq> None
      | _ \<Rightarrow> False)"

text \<open>
  The popup's button from click to worker: the popup asks the coordinator, and on
  \<open>analyzePage\<close> the coordinator runs \<open>generateFromScreenshot\<close> on the active tab.
\<close>

definition describePage ::
  "capture_env \<Rightarrow> nat option \<Rightarrow> streaming_state \<Rightarrow> streaming_state \<times> bus_message list" where
  "describePage env tab streamingState =
     (if handleDescribePage (Resolved (Some (isAnyTabStreaming streamingState))) tab
      then captureAndProcessScreenshot env tab streamingState
      else (streamingState, []))"

text \<open>A coordinator in which tab 7 is streaming its first answer.\<close>

definition streamingInitial :: stream_state where
  "streamingInitial =
     \<lparr>isFollowup = False, initialized = True, isActionButtons = False, generatingTitle = False\<rparr>"

definition readyEnv :: followup_env where
  "readyEnv = \<lparr>activeTab = Some 7, hasMetadata = (\<lambda>t. True), conversationUpdateOk = True\<rparr>"

section \<open>Properties of the session manager\<close>

subsection \<open>The streaming loop\<close>

lemma merge_step_spec:
  "(if fullText \<noteq> [] \<and> prefix fullText chunk then chunk else fullText @ chunk)
     = spec_merge fullText chunk"
  by (auto simp: spec_merge_def prefix_def) (metis append_eq_conv_conj)

lemma streamLoop_chunk:
  "streamLoop g cnt cb (Chunk c # rest) buf n calls =
     (case (if Suc n mod 10 = 0 then checkQuota g (Some (cnt (Suc n))) else Within) of
        Exceeded u q m \<Rightarrow> (QuotaAbort buf m, calls)
      | Within \<Rightarrow> streamLoop g cnt cb rest (spec_merge buf c) (Suc n)
                   (if cb then calls @ [spec_merge buf c] else calls))"
  by (simp add: Let_def merge_step_spec split: quota_check.splits)

lemma streamLoop_within:
  "\<forall>k. checkQuota g (Some (cnt k)) = Within \<Longrightarrow>
   streamLoop g cnt cb (map Chunk cs) buf n calls =
     (Completed (foldl spec_merge buf cs) (n + length cs),
      calls @ (if cb then spec_buffers buf cs else []))"
proof (induction cs arbitrary: buf n calls)
  case Nil
  then show ?case by simp
next
  case (Cons c cs)
  show ?case
    unfolding list.map streamLoop_chunk
    using Cons.prems Cons.IH[OF Cons.prems] by simp
qed

lemma streamLoop_abort:
  assumes "n < k" "k \<le> n + length cs" "k mod 10 = 0"
    and "checkQuota g (Some (cnt k)) = Exceeded u q m"
    and "\<forall>j. n < j \<and> j < k \<and> j mod 10 = 0 \<longrightarrow> checkQuota g (Some (cnt j)) = Within"
  shows "streamLoop g cnt cb (map Chunk cs) buf n calls =
     (QuotaAbort (foldl spec_merge buf (take (k - n - 1) cs)) m,
      calls @ (if cb then spec_buffers buf (take (k - n - 1) cs) else []))"
  using assms
proof (induction cs arbitrary: buf n calls)
  case Nil
  then show ?case by simp
next
  case (Cons c cs)
  show ?case
  proof (cases "Suc n = k")
    case True
    with Cons.prems show ?thesis
      unfolding list.map streamLoop_chunk by simp
  next
    case False
    with Cons.prems have lt: "Suc n < k" by simp
    with Cons.prems have w: "Suc n mod 10 = 0 \<longrightarrow> checkQuota g (Some (cnt (Suc n))) = Within"
      by simp
    have le: "k \<le> Suc n + length cs" using Cons.prems by simp
    have rest: "\<forall>j. Suc n < j \<and> j < k \<and> j mod 10 = 0 \<longrightarrow> checkQuota g (Some (cnt j)) = Within"
      using Cons.prems by simp
    have tk: "take (k - n - 1) (c # cs) = c # take (k - Suc n - 1) cs"
      using lt by (cases "k - n - 1") auto
    show ?thesis
      unfolding list.map streamLoop_chunk tk
      using w Cons.IH[OF lt le Cons.prems(3) Cons.prems(4) rest] by simp
  qed
qed

lemma streamLoop_merges:
  "\<exists>m \<le> length (chunksOf stream).
     textOf (fst (streamLoop g cnt cb stream buf n calls))
       = foldl spec_merge buf (take m (chunksOf stream))
     \<and> snd (streamLoop g cnt cb stream buf n calls)
       = calls @ (if cb then spec_buffers buf (take m (chunksOf stream)) else [])"
proof (induction stream arbitrary: buf n calls)
  case Nil
  then show ?case by simp
next
  case (Cons item rest)
  show ?case
  proof (cases item)
    case (StreamThrows e)
    then show ?thesis by simp
  next
    case (Chunk c)
    show ?thesis
    proof (cases "if Suc n mod 10 = 0 then checkQuota g (Some (cnt (Suc n))) else Within")
      case (Exceeded u q msg)
      then show ?thesis
        unfolding Chunk streamLoop_chunk by (intro exI[of _ 0]) simp
    next
      case Within
      from Cons.IH[of "spec_merge buf c" "Suc n" "if cb then calls @ [spec_merge buf c] else calls"]
      obtain m where m: "m \<le> length (chunksOf rest)"
        "textOf (fst (streamLoop g cnt cb rest (spec_merge buf c) (Suc n)
                   (if cb then calls @ [spec_merge buf c] else calls)))
           = foldl spec_merge (spec_merge buf c) (take m (chunksOf rest))"
        "snd (streamLoop g cnt cb rest (spec_merge buf c) (Suc n)
                   (if cb then calls @ [spec_merge buf c] else calls))
           = (if cb then calls @ [spec_merge buf c] else calls)
               @ (if cb then spec_buffers (spec_merge buf c) (take m (chunksOf rest)) else [])"
        by blast
      show ?thesis
        unfolding Chunk streamLoop_chunk Within
        using m by (intro exI[of _ "Suc m"]) simp
    qed
  qed
qed

lemma turn_extra:
  "(case ap of None \<Rightarrow> turn | Some extra \<Rightarrow> if extra \<noteq> [] then turn @ extra else turn)
     = turn @ (case ap of None \<Rightarrow> [] | Some extra \<Rightarrow> extra)"
  by (cases ap) auto

lemma createSession_streams:
  assumes "createLanguageModel env ip lang = Inr (Some s)"
    and "checkQuota (getMessage env) (Some (countersAt s 0)) = Within"
    and "base64ToBlob env img ty = Inr blob"
    and "initialTurn env type ctx blob lang = Inr turn"
    and "promptStreaming s (PMessages (turn @ (case ap of None \<Rightarrow> [] | Some extra \<Rightarrow> extra)))
           = Inr stream"
  shows "createSession env store tabId type ip img ty ctx cb lang ap =
     (case streamLoop (getMessage env) (countersAt s) cb stream [] 0 [] of
        (ending, calls) \<Rightarrow>
          (fst (afterStream store tabId s lang ending),
           snd (afterStream store tabId s lang ending), calls))"
  using assms
  by (simp add: createSession_def turn_extra split: prod.splits)

lemma sendPromptStreaming_streams:
  assumes "store tabId = Some sd"
    and "checkQuota g (Some (countersAt (session sd) 0)) = Within"
    and "promptStreaming (session sd) (promptInputOf p) = Inr (map Chunk (c # cs))"
    and "\<forall>k. checkQuota g (Some (countersAt (session sd) k)) = Within"
  shows "sendPromptStreaming g store tabId p cb =
     (succeeded (foldl spec_merge [] (c # cs)),
      (if cb then spec_buffers [] (c # cs) else []), [CallPromptStreaming (promptInputOf p)])"
  using assms streamLoop_within[OF assms(4), of cb "c # cs" "[]" 0 "[]"]
  by (simp add: sendPromptStreaming_def Let_def)

lemma createSession_completes:
  assumes "createLanguageModel env ip lang = Inr (Some s)"
    and "base64ToBlob env img ty = Inr blob"
    and "initialTurn env type ctx blob lang = Inr turn"
    and "promptStreaming s (PMessages (turn @ (case ap of None \<Rightarrow> [] | Some extra \<Rightarrow> extra)))
           = Inr (map Chunk cs)"
    and "\<forall>k. checkQuota (getMessage env) (Some (countersAt s k)) = Within"
  shows "createSession env store tabId type ip img ty ctx cb lang ap =
          (succeeded (foldl spec_merge [] cs),
           store(tabId \<mapsto> \<lparr>session = s, userLanguage = lang\<rparr>),
           if cb then spec_buffers [] cs else [])"
  using assms
  by (simp add: createSession_streams[where s=s and blob=blob and turn=turn and stream="map Chunk cs"]
        streamLoop_within[OF assms(5)] afterStream_def)

subsection \<open>Chunk merging\<close>

text \<open>
  Claim C1. The rule of the specification: a non-empty buffer that is a prefix of the chunk
  is replaced by the chunk, otherwise the chunk is appended. However the streaming loop of
  \<open>createSession\<close> and \<open>sendPromptStreaming\<close> ends, the text it ends with is the
  chunks it consumed folded with that rule, and the callback has seen every intermediate
  buffer. When the loop is reached and no quota check fires, all chunks are consumed: the
  result is successful and its response is the fold of the whole sequence. The rule gives
  "Hello world" for the chunks "Hello", "Hello world" and for the chunks "Hello", " world".
\<close>

theorem chunk_merge_correct:
  "(\<exists>m \<le> length (chunksOf stream).
      textOf (fst (streamLoop g cnt cb stream buf n calls))
        = foldl spec_merge buf (take m (chunksOf stream))
      \<and> snd (streamLoop g cnt cb stream buf n calls)
        = calls @ (if cb then spec_buffers buf (take m (chunksOf stream)) else []))
   \<and> (createLanguageModel env ip lang = Inr (Some s)
      \<and> base64ToBlob env img ty = Inr blob
      \<and> initialTurn env type ctx blob lang = Inr turn
      \<and> promptStreaming s (PMessages (turn @ (case ap of None \<Rightarrow> [] | Some extra \<Rightarrow> extra)))
           = Inr (map Chunk cs)
      \<and> (\<forall>k. checkQuota (getMessage env) (Some (countersAt s k)) = Within)
    \<longrightarrow> createSession env store tabId type ip img ty ctx cb lang ap =
          (succeeded (foldl spec_merge [] cs),
           store(tabId \<mapsto> \<lparr>session = s, userLanguage = lang\<rparr>),
           if cb then spec_buffers [] cs else []))
   \<and> (store tabId = Some sd
      \<and> promptStreaming (session sd) (promptInputOf p) = Inr (map Chunk (c # cs))
      \<and> (\<forall>k. checkQuota g (Some (countersAt (session sd) k)) = Within)
    \<longrightarrow> sendPromptStreaming g store tabId p cb =
          (succeeded (foldl spec_merge [] (c # cs)),
           (if cb then spec_buffers [] (c # cs) else []),
           [CallPromptStreaming (promptInputOf p)]))
   \<and> foldl spec_merge [] [js ''Hello'', js ''Hello world''] = js ''Hello world''
   \<and> foldl spec_merge [] [js ''Hello'', js '' world''] = js ''Hello world''"
proof (intro conjI impI)
  show "\<exists>m \<le> length (chunksOf stream).
      textOf (fst (streamLoop g cnt cb stream buf n calls))
        = foldl spec_merge buf (take m (chunksOf stream))
      \<and> snd (streamLoop g cnt cb stream buf n calls)
        = calls @ (if cb then spec_buffers buf (take m (chunksOf stream)) else [])"
    by (rule streamLoop_merges)
next
  assume a: "createLanguageModel env ip lang = Inr (Some s)
      \<and> base64ToBlob env img ty = Inr blob
      \<and> initialTurn env type ctx blob lang = Inr turn
      \<and> promptStreaming s (PMessages (turn @ (case ap of None \<Rightarrow> [] | Some extra \<Rightarrow> extra)))
           = Inr (map Chunk cs)
      \<and> (\<forall>k. checkQuota (getMessage env) (Some (countersAt s k)) = Within)"
  then show "createSession env store tabId type ip img ty ctx cb lang ap =
          (succeeded (foldl spec_merge [] cs),
           store(tabId \<mapsto> \<lparr>session = s, userLanguage = lang\<rparr>),
           if cb then spec_buffers [] cs else [])"
    by (intro createSession_completes[where blob=blob and turn=turn]) auto
next
  assume a: "store tabId = Some sd
      \<and> promptStreaming (session sd) (promptInputOf p) = Inr (map Chunk (c # cs))
      \<and> (\<forall>k. checkQuota g (Some (countersAt (session sd) k)) = Within)"
  then show "sendPromptStreaming g store tabId p cb =
          (succeeded (foldl spec_merge [] (c # cs)),
           (if cb then spec_buffers [] (c # cs) else []),
           [CallPromptStreaming (promptInputOf p)])"
    by (intro sendPromptStreaming_streams) auto
next
  show "foldl spec_merge [] [js ''Hello'', js ''Hello world''] = js ''Hello world''"
    by (simp add: spec_merge_def js_def)
next
  show "foldl spec_merge [] [js ''Hello'', js '' world''] = js ''Hello world''"
    by (simp add: spec_merge_def js_def)
qed

theorem chunk_merge_correct_witness:
  "createSession
     (scriptedEnv (scriptedSession quietCounters [Chunk (js ''Hello''), Chunk (js ''Hello world'')] (Inr None)) None)
     Map.empty 7 (js ''screenshot'') (js ''Describe'') [] (js ''image/png'') None True (js ''en'') None
   = (succeeded (js ''Hello world''),
      [7 \<mapsto> \<lparr>session = scriptedSession quietCounters [Chunk (js ''Hello''), Chunk (js ''Hello world'')] (Inr None),
              userLanguage = js ''en''\<rparr>],
      [js ''Hello'', js ''Hello world''])
   \<and> sendPromptStreaming None
       [7 \<mapsto> \<lparr>session = scriptedSession quietCounters [Chunk (js ''Hello''), Chunk (js '' world'')] (Inr None),
               userLanguage = js ''en''\<rparr>]
       7 (PValue (VText (js ''And then?''))) True
   = (succeeded (js ''Hello world''), [js ''Hello'', js ''Hello world''],
      [CallPromptStreaming (PValue (VText (js ''And then?'')))])"
  using chunk_merge_correct[where env="scriptedEnv (scriptedSession quietCounters [Chunk (js ''Hello''), Chunk (js ''Hello world'')] (Inr None)) None"
      and s="scriptedSession quietCounters [Chunk (js ''Hello''), Chunk (js ''Hello world'')] (Inr None)"
      and ip="js ''Describe''" and lang="js ''en''" and img="[]" and ty="js ''image/png''" and blob=0
      and type="js ''screenshot''" and ctx=None and ap=None and cs="[js ''Hello'', js ''Hello world'']"
      and turn="[\<lparr>role = js ''user'',
              content = CParts [\<lparr>ptype = js ''text'', pvalue = VText []\<rparr>,
                                \<lparr>ptype = js ''image'', pvalue = VBlob 0\<rparr>]\<rparr>]"
      and store="Map.empty" and tabId=7 and cb=True
      and sd="\<lparr>session = scriptedSession quietCounters [Chunk (js ''Hello''), Chunk (js ''Hello world'')] (Inr None), userLanguage = js ''en''\<rparr>"
      and g=None]
   chunk_merge_correct[where store="[7 \<mapsto> \<lparr>session = scriptedSession quietCounters [Chunk (js ''Hello''), Chunk (js '' world'')] (Inr None), userLanguage = js ''en''\<rparr>]"
      and tabId=7 and cb=True and g=None and p="PValue (VText (js ''And then?''))"
      and sd="\<lparr>session = scriptedSession quietCounters [Chunk (js ''Hello''), Chunk (js '' world'')] (Inr None), userLanguage = js ''en''\<rparr>"
      and c="js ''Hello''" and cs="[js '' world'']"]
  by (simp add: scriptedEnv_def scriptedSession_def quietCounters_def noCounters_def checkQuota_def initialTurn_def
        contextTextOf_def promptInputOf_def spec_merge_def js_def)

subsection \<open>Quota reached in mid-stream\<close>

lemma settleEvents_failed:
  "\<not> success r \<Longrightarrow> userMessage r = Some m \<Longrightarrow> error r = Some e \<Longrightarrow> e \<noteq> [] \<Longrightarrow>
   settleEvents g te tabId r =
     [StreamUpdate tabId (if m \<noteq> [] then m else e),
      StreamComplete tabId (Some (if m \<noteq> [] then m else e))]"
  by (simp add: settleEvents_def errorMessageOf_def truthy_def)

lemma createSession_quota_abort:
  assumes "createLanguageModel env ip lang = Inr (Some s)"
    and "checkQuota (getMessage env) (Some (countersAt s 0)) = Within"
    and "base64ToBlob env img ty = Inr blob"
    and "initialTurn env type ctx blob lang = Inr turn"
    and "promptStreaming s (PMessages (turn @ (case ap of None \<Rightarrow> [] | Some extra \<Rightarrow> extra)))
           = Inr (map Chunk cs)"
    and "0 < k" "k \<le> length cs" "k mod 10 = 0"
    and "checkQuota (getMessage env) (Some (countersAt s k)) = Exceeded u q m"
    and "\<forall>j. 0 < j \<and> j < k \<and> j mod 10 = 0 \<longrightarrow>
           checkQuota (getMessage env) (Some (countersAt s j)) = Within"
  shows "createSession env store tabId type ip img ty ctx cb lang ap =
     (failed\<lparr>error := Some (js ''Quota exceeded during streaming''), userMessage := Some m,
        quotaExceeded := True, partialResponse := Some (foldl spec_merge [] (take (k - 1) cs))\<rparr>,
      store, if cb then spec_buffers [] (take (k - 1) cs) else [])"
proof -
  have "streamLoop (getMessage env) (countersAt s) cb (map Chunk cs) [] 0 [] =
     (QuotaAbort (foldl spec_merge [] (take (k - 0 - 1) cs)) m,
      [] @ (if cb then spec_buffers [] (take (k - 0 - 1) cs) else []))"
    using assms(6-10) by (intro streamLoop_abort) auto
  then show ?thesis
    using assms(1-5)
    by (simp add: createSession_streams[where s=s and blob=blob and turn=turn and stream="map Chunk cs"]
          afterStream_def)
qed

lemma sendPromptStreaming_quota_abort:
  assumes "store tabId = Some sd"
    and "checkQuota g (Some (countersAt (session sd) 0)) = Within"
    and "promptStreaming (session sd) (promptInputOf p) = Inr (map Chunk cs)"
    and "0 < k" "k \<le> length cs" "k mod 10 = 0"
    and "checkQuota g (Some (countersAt (session sd) k)) = Exceeded u q m"
    and "\<forall>j. 0 < j \<and> j < k \<and> j mod 10 = 0 \<longrightarrow>
           checkQuota g (Some (countersAt (session sd) j)) = Within"
  shows "sendPromptStreaming g store tabId p cb =
     (failed\<lparr>error := Some (js ''Quota exceeded during streaming''), userMessage := Some m,
        quotaExceeded := True, partialResponse := Some (foldl spec_merge [] (take (k - 1) cs))\<rparr>,
      (if cb then spec_buffers [] (take (k - 1) cs) else []),
      [CallPromptStreaming (promptInputOf p)])"
proof -
  have "streamLoop g (countersAt (session sd)) cb (map Chunk cs) [] 0 [] =
     (QuotaAbort (foldl spec_merge [] (take (k - 0 - 1) cs)) m,
      [] @ (if cb then spec_buffers [] (take (k - 0 - 1) cs) else []))"
    using assms(4-8) by (intro streamLoop_abort) auto
  then show ?thesis
    using assms(1-3)
    by (simp add: sendPromptStreaming_def Let_def)
qed

lemma js_nonempty: "js (c # cs) \<noteq> []"
  by (simp add: js_def)

text \<open>
  Claim C3, as the code has it. When the first quota check that fires is the one at chunk
  \<open>k\<close> (a multiple of ten), \<open>createSession\<close> and \<open>sendPromptStreaming\<close> return an
  unsuccessful quota-exceeded result whose \<open>partialResponse\<close> is the text merged from the
  \<open>k - 1\<close> chunks before it, and the session store is as before. The worker's handler
  does not read \<open>partialResponse\<close>: after the acknowledgement and the per-chunk updates
  it sends one more \<open>streamUpdate\<close> and the \<open>streamComplete\<close>, both carrying the quota
  message (or, when that is empty, the error text).
\<close>

theorem quota_midstream_partial:
  "(createLanguageModel env ip lang = Inr (Some s)
      \<and> checkQuota (getMessage env) (Some (countersAt s 0)) = Within
      \<and> base64ToBlob env img ty = Inr blob
      \<and> initialTurn env type ctx blob lang = Inr turn
      \<and> promptStreaming s (PMessages (turn @ (case ap of None \<Rightarrow> [] | Some extra \<Rightarrow> extra)))
           = Inr (map Chunk cs)
      \<and> 0 < k \<and> k \<le> length cs \<and> k mod 10 = 0
      \<and> checkQuota (getMessage env) (Some (countersAt s k)) = Exceeded u q m
      \<and> (\<forall>j. 0 < j \<and> j < k \<and> j mod 10 = 0 \<longrightarrow>
             checkQuota (getMessage env) (Some (countersAt s j)) = Within)
    \<longrightarrow> createSession env store tabId type ip img ty ctx cb lang ap =
          (failed\<lparr>error := Some (js ''Quota exceeded during streaming''), userMessage := Some m,
             quotaExceeded := True, partialResponse := Some (foldl spec_merge [] (take (k - 1) cs))\<rparr>,
           store, if cb then spec_buffers [] (take (k - 1) cs) else [])
        \<and> handleCreateSession env te store tabId type ip img ty ctx lang ap =
          (Ack # map (StreamUpdate tabId) (spec_buffers [] (take (k - 1) cs))
             @ [StreamUpdate tabId (if m \<noteq> [] then m else js ''Quota exceeded during streaming''),
                StreamComplete tabId (Some (if m \<noteq> [] then m else js ''Quota exceeded during streaming''))],
           store))
   \<and> (st tabId = Some sd
      \<and> checkQuota g (Some (countersAt (session sd) 0)) = Within
      \<and> promptStreaming (session sd) (promptInputOf p) = Inr (map Chunk cs)
      \<and> 0 < k \<and> k \<le> length cs \<and> k mod 10 = 0
      \<and> checkQuota g (Some (countersAt (session sd) k)) = Exceeded u q m
      \<and> (\<forall>j. 0 < j \<and> j < k \<and> j mod 10 = 0 \<longrightarrow>
             checkQuota g (Some (countersAt (session sd) j)) = Within)
    \<longrightarrow> sendPromptStreaming g st tabId p cb =
          (failed\<lparr>error := Some (js ''Quota exceeded during streaming''), userMessage := Some m,
             quotaExceeded := True, partialResponse := Some (foldl spec_merge [] (take (k - 1) cs))\<rparr>,
           (if cb then spec_buffers [] (take (k - 1) cs) else []),
           [CallPromptStreaming (promptInputOf p)])
        \<and> handleSendPrompt g te st tabId p =
          Ack # map (StreamUpdate tabId) (spec_buffers [] (take (k - 1) cs))
             @ [StreamUpdate tabId (if m \<noteq> [] then m else js ''Quota exceeded during streaming''),
                StreamComplete tabId (Some (if m \<noteq> [] then m else js ''Quota exceeded during streaming''))])"
proof (intro conjI impI)
  assume a: "createLanguageModel env ip lang = Inr (Some s)
      \<and> checkQuota (getMessage env) (Some (countersAt s 0)) = Within
      \<and> base64ToBlob env img ty = Inr blob
      \<and> initialTurn env type ctx blob lang = Inr turn
      \<and> promptStreaming s (PMessages (turn @ (case ap of None \<Rightarrow> [] | Some extra \<Rightarrow> extra)))
           = Inr (map Chunk cs)
      \<and> 0 < k \<and> k \<le> length cs \<and> k mod 10 = 0
      \<and> checkQuota (getMessage env) (Some (countersAt s k)) = Exceeded u q m
      \<and> (\<forall>j. 0 < j \<and> j < k \<and> j mod 10 = 0 \<longrightarrow>
             checkQuota (getMessage env) (Some (countersAt s j)) = Within)"
  have r: "\<And>cb. createSession env store tabId type ip img ty ctx cb lang ap =
          (failed\<lparr>error := Some (js ''Quota exceeded during streaming''), userMessage := Some m,
             quotaExceeded := True, partialResponse := Some (foldl spec_merge [] (take (k - 1) cs))\<rparr>,
           store, if cb then spec_buffers [] (take (k - 1) cs) else [])"
    using a by (intro createSession_quota_abort[where s=s and blob=blob and turn=turn and u=u and q=q]) auto
  show "createSession env store tabId type ip img ty ctx cb lang ap =
          (failed\<lparr>error := Some (js ''Quota exceeded during streaming''), userMessage := Some m,
             quotaExceeded := True, partialResponse := Some (foldl spec_merge [] (take (k - 1) cs))\<rparr>,
           store, if cb then spec_buffers [] (take (k - 1) cs) else [])"
    by (rule r)
  show "handleCreateSession env te store tabId type ip img ty ctx lang ap =
          (Ack # map (StreamUpdate tabId) (spec_buffers [] (take (k - 1) cs))
             @ [StreamUpdate tabId (if m \<noteq> [] then m else js ''Quota exceeded during streaming''),
                StreamComplete tabId (Some (if m \<noteq> [] then m else js ''Quota exceeded during streaming''))],
           store)"
    by (simp add: handleCreateSession_def r[of True] settleEvents_def errorMessageOf_def Let_def truthy_def failed_def js_nonempty)
next
  assume a: "st tabId = Some sd
      \<and> checkQuota g (Some (countersAt (session sd) 0)) = Within
      \<and> promptStreaming (session sd) (promptInputOf p) = Inr (map Chunk cs)
      \<and> 0 < k \<and> k \<le> length cs \<and> k mod 10 = 0
      \<and> checkQuota g (Some (countersAt (session sd) k)) = Exceeded u q m
      \<and> (\<forall>j. 0 < j \<and> j < k \<and> j mod 10 = 0 \<longrightarrow>
             checkQuota g (Some (countersAt (session sd) j)) = Within)"
  have r: "\<And>cb. sendPromptStreaming g st tabId p cb =
          (failed\<lparr>error := Some (js ''Quota exceeded during streaming''), userMessage := Some m,
             quotaExceeded := True, partialResponse := Some (foldl spec_merge [] (take (k - 1) cs))\<rparr>,
           (if cb then spec_buffers [] (take (k - 1) cs) else []),
           [CallPromptStreaming (promptInputOf p)])"
    using a by (intro sendPromptStreaming_quota_abort[where sd=sd and u=u and q=q]) auto
  show "sendPromptStreaming g st tabId p cb =
          (failed\<lparr>error := Some (js ''Quota exceeded during streaming''), userMessage := Some m,
             quotaExceeded := True, partialResponse := Some (foldl spec_merge [] (take (k - 1) cs))\<rparr>,
           (if cb then spec_buffers [] (take (k - 1) cs) else []),
           [CallPromptStreaming (promptInputOf p)])"
    by (rule r)
  show "handleSendPrompt g te st tabId p =
          Ack # map (StreamUpdate tabId) (spec_buffers [] (take (k - 1) cs))
             @ [StreamUpdate tabId (if m \<noteq> [] then m else js ''Quota exceeded during streaming''),
                StreamComplete tabId (Some (if m \<noteq> [] then m else js ''Quota exceeded during streaming''))]"
    by (simp add: handleSendPrompt_def r[of True] settleEvents_def errorMessageOf_def Let_def truthy_def failed_def js_nonempty)
qed

theorem quota_midstream_partial_witness:
  "createSession (scriptedEnv (scriptedSession risingCounters (map Chunk twelveChunks) (Inr None)) quotaNotice)
     Map.empty 7 (js ''screenshot'') (js ''Describe'') [] (js ''image/png'') None True (js ''en'') None
   = (failed\<lparr>error := Some (js ''Quota exceeded during streaming''),
        userMessage := Some (js ''Quota reached''), quotaExceeded := True,
        partialResponse := Some (js ''012345678'')\<rparr>,
      Map.empty, spec_buffers [] (take 9 twelveChunks))
   \<and> fst (handleCreateSession (scriptedEnv (scriptedSession risingCounters (map Chunk twelveChunks) (Inr None)) quotaNotice)
       [] Map.empty 7 (js ''screenshot'') (js ''Describe'') [] (js ''image/png'') None (js ''en'') None)
   = Ack # map (StreamUpdate 7) (spec_buffers [] (take 9 twelveChunks))
       @ [StreamUpdate 7 (js ''Quota reached''), StreamComplete 7 (Some (js ''Quota reached''))]"
  using quota_midstream_partial[where env="scriptedEnv (scriptedSession risingCounters (map Chunk twelveChunks) (Inr None)) quotaNotice"
      and s="scriptedSession risingCounters (map Chunk twelveChunks) (Inr None)"
      and ip="js ''Describe''" and lang="js ''en''" and img="[]" and ty="js ''image/png''" and blob=0
      and type="js ''screenshot''" and ctx=None and ap=None and cs=twelveChunks and k=10
      and u=1000 and q=1000 and m="js ''Quota reached''" and te="[]"
      and turn="[\<lparr>role = js ''user'',
              content = CParts [\<lparr>ptype = js ''text'', pvalue = VText []\<rparr>,
                                \<lparr>ptype = js ''image'', pvalue = VBlob 0\<rparr>]\<rparr>]"
      and store="Map.empty" and tabId=7 and cb=True]
  by (simp add: scriptedEnv_def scriptedSession_def risingCounters_def quotaNotice_def checkQuota_def
        initialTurn_def contextTextOf_def twelveChunks_def spec_merge_def js_def)

text \<open>
  Claim C3 as stated fails: with twelve chunks and the quota reached at the tenth, the
  result carries the partial text "012345678", and the completion event the worker sends
  carries the quota notice instead.
\<close>

theorem quota_partial_not_forwarded:
  "partialResponse (fst (createSession
       (scriptedEnv (scriptedSession risingCounters (map Chunk twelveChunks) (Inr None)) quotaNotice)
       Map.empty 7 (js ''screenshot'') (js ''Describe'') [] (js ''image/png'') None True (js ''en'') None))
     = Some (js ''012345678'')
   \<and> last (fst (handleCreateSession
       (scriptedEnv (scriptedSession risingCounters (map Chunk twelveChunks) (Inr None)) quotaNotice)
       [] Map.empty 7 (js ''screenshot'') (js ''Describe'') [] (js ''image/png'') None (js ''en'') None))
     = StreamComplete 7 (Some (js ''Quota reached''))
   \<and> js ''Quota reached'' \<noteq> js ''012345678''"
proof -
  have h: "\<And>cb. createSession (scriptedEnv (scriptedSession risingCounters (map Chunk twelveChunks) (Inr None)) quotaNotice)
     Map.empty 7 (js ''screenshot'') (js ''Describe'') [] (js ''image/png'') None cb (js ''en'') None
   = (failed\<lparr>error := Some (js ''Quota exceeded during streaming''),
        userMessage := Some (js ''Quota reached''), quotaExceeded := True,
        partialResponse := Some (foldl spec_merge [] (take (10 - 1) twelveChunks))\<rparr>,
      Map.empty, if cb then spec_buffers [] (take (10 - 1) twelveChunks) else [])"
    by (rule createSession_quota_abort[where
          s="scriptedSession risingCounters (map Chunk twelveChunks) (Inr None)" and blob=0
          and u=1000 and q=1000
          and turn="[\<lparr>role = js ''user'',
              content = CParts [\<lparr>ptype = js ''text'', pvalue = VText []\<rparr>,
                                \<lparr>ptype = js ''image'', pvalue = VBlob 0\<rparr>]\<rparr>]"])
       (simp_all add: scriptedEnv_def scriptedSession_def risingCounters_def quotaNotice_def
          checkQuota_def initialTurn_def contextTextOf_def twelveChunks_def)
  have f: "foldl spec_merge [] (take 9 twelveChunks) = js ''012345678''"
    by (simp add: twelveChunks_def spec_merge_def js_def)
  show ?thesis
    by (simp add: h f handleCreateSession_def settleEvents_def errorMessageOf_def Let_def truthy_def failed_def)
       (simp add: js_def scriptedEnv_def quotaNotice_def)
qed

subsection \<open>The session store\<close>

lemma initialTurn_early: "initialTurn env type ctx blob lang = Inl r \<Longrightarrow> \<not> success r"
  by (auto simp: initialTurn_def failed_def split: if_splits sum.splits)

text \<open>
  Claim C8. A successful \<open>createSession\<close> is one whose stream ran to completion, and
  only then is the session stored under the conversation key; an unsuccessful one, on
  whatever path, leaves the session store as it was.
\<close>

theorem createSession_store:
  "(case createSession env store tabId type ip img ty ctx cb lang ap of
      (r, store', calls) \<Rightarrow>
        (success r \<longrightarrow>
           (\<exists>s turn stream text n.
              createLanguageModel env ip lang = Inr (Some s)
              \<and> promptStreaming s (PMessages (turn @ (case ap of None \<Rightarrow> [] | Some extra \<Rightarrow> extra)))
                  = Inr stream
              \<and> streamLoop (getMessage env) (countersAt s) cb stream [] 0 [] = (Completed text n, calls)
              \<and> r = succeeded text
              \<and> store' = store(tabId \<mapsto> \<lparr>session = s, userLanguage = lang\<rparr>)))
        \<and> (\<not> success r \<longrightarrow> store' = store))"
  unfolding createSession_def afterStream_def turn_extra
  by (auto simp: Let_def failed_def succeeded_def dest: initialTurn_early
        split: sum.splits option.splits quota_check.splits prod.splits loop_end.splits)

theorem createSession_store_witness:
  "\<not> success (fst (createSession
       (scriptedEnv (scriptedSession risingCounters (map Chunk twelveChunks) (Inr None)) quotaNotice)
       Map.empty 7 (js ''screenshot'') (js ''Describe'') [] (js ''image/png'') None True (js ''en'') None))
   \<and> fst (snd (createSession
       (scriptedEnv (scriptedSession risingCounters (map Chunk twelveChunks) (Inr None)) quotaNotice)
       Map.empty 7 (js ''screenshot'') (js ''Describe'') [] (js ''image/png'') None True (js ''en'') None))
     = Map.empty
   \<and> success (fst (createSession
       (scriptedEnv (scriptedSession quietCounters [Chunk (js ''Hello'')] (Inr None)) None)
       Map.empty 7 (js ''screenshot'') (js ''Describe'') [] (js ''image/png'') None True (js ''en'') None))
   \<and> fst (snd (createSession
       (scriptedEnv (scriptedSession quietCounters [Chunk (js ''Hello'')] (Inr None)) None)
       Map.empty 7 (js ''screenshot'') (js ''Describe'') [] (js ''image/png'') None True (js ''en'') None))
     = [7 \<mapsto> \<lparr>session = scriptedSession quietCounters [Chunk (js ''Hello'')] (Inr None),
              userLanguage = js ''en''\<rparr>]"
proof -
  have e: "createSession
       (scriptedEnv (scriptedSession risingCounters (map Chunk twelveChunks) (Inr None)) quotaNotice)
       Map.empty 7 (js ''screenshot'') (js ''Describe'') [] (js ''image/png'') None True (js ''en'') None
     = (failed\<lparr>error := Some (js ''Quota exceeded during streaming''),
          userMessage := Some (js ''Quota reached''), quotaExceeded := True,
          partialResponse := Some (foldl spec_merge [] (take (10 - 1) twelveChunks))\<rparr>,
        Map.empty, if True then spec_buffers [] (take (10 - 1) twelveChunks) else [])"
    by (rule createSession_quota_abort[where
          s="scriptedSession risingCounters (map Chunk twelveChunks) (Inr None)" and blob=0
          and u=1000 and q=1000
          and turn="[\<lparr>role = js ''user'',
              content = CParts [\<lparr>ptype = js ''text'', pvalue = VText []\<rparr>,
                                \<lparr>ptype = js ''image'', pvalue = VBlob 0\<rparr>]\<rparr>]"])
       (simp_all add: scriptedEnv_def scriptedSession_def risingCounters_def quotaNotice_def
          checkQuota_def initialTurn_def contextTextOf_def twelveChunks_def)
  have ok: "createSession
       (scriptedEnv (scriptedSession quietCounters [Chunk (js ''Hello'')] (Inr None)) None)
       Map.empty 7 (js ''screenshot'') (js ''Describe'') [] (js ''image/png'') None True (js ''en'') None
     = (succeeded (foldl spec_merge [] [js ''Hello'']),
        [7 \<mapsto> \<lparr>session = scriptedSession quietCounters [Chunk (js ''Hello'')] (Inr None),
                userLanguage = js ''en''\<rparr>],
        if True then spec_buffers [] [js ''Hello''] else [])"
    by (rule createSession_completes[where blob=0
          and turn="[\<lparr>role = js ''user'',
              content = CParts [\<lparr>ptype = js ''text'', pvalue = VText []\<rparr>,
                                \<lparr>ptype = js ''image'', pvalue = VBlob 0\<rparr>]\<rparr>]"])
       (simp_all add: scriptedEnv_def scriptedSession_def quietCounters_def noCounters_def
          checkQuota_def initialTurn_def contextTextOf_def)
  have first: "\<not> success (fst (createSession
       (scriptedEnv (scriptedSession risingCounters (map Chunk twelveChunks) (Inr None)) quotaNotice)
       Map.empty 7 (js ''screenshot'') (js ''Describe'') [] (js ''image/png'') None True (js ''en'') None))
   \<and> fst (snd (createSession
       (scriptedEnv (scriptedSession risingCounters (map Chunk twelveChunks) (Inr None)) quotaNotice)
       Map.empty 7 (js ''screenshot'') (js ''Describe'') [] (js ''image/png'') None True (js ''en'') None))
     = Map.empty"
    using createSession_store[where
      env="scriptedEnv (scriptedSession risingCounters (map Chunk twelveChunks) (Inr None)) quotaNotice"
      and store=Map.empty and tabId=7 and type="js ''screenshot''" and ip="js ''Describe''" and img="[]"
      and ty="js ''image/png''" and ctx=None and cb=True and lang="js ''en''" and ap=None]
    unfolding e by (simp add: failed_def)
  have second: "success (fst (createSession
       (scriptedEnv (scriptedSession quietCounters [Chunk (js ''Hello'')] (Inr None)) None)
       Map.empty 7 (js ''screenshot'') (js ''Describe'') [] (js ''image/png'') None True (js ''en'') None))
   \<and> fst (snd (createSession
       (scriptedEnv (scriptedSession quietCounters [Chunk (js ''Hello'')] (Inr None)) None)
       Map.empty 7 (js ''screenshot'') (js ''Describe'') [] (js ''image/png'') None True (js ''en'') None))
     = [7 \<mapsto> \<lparr>session = scriptedSession quietCounters [Chunk (js ''Hello'')] (Inr None),
              userLanguage = js ''en''\<rparr>]"
    unfolding ok by (simp add: succeeded_def failed_def)
  from first second show ?thesis by blast
qed

subsection \<open>Follow-up turns\<close>







text \<open>
  Claim C10. When the session is found, the quota check passes and the provider's stream
  yields nothing, \<open>sendPromptStreaming\<close> calls \<open>prompt\<close> with the same input. If that
  call answers, the result is successful with the answer as response (the empty string for
  no answer) and the callback, when there is one, is called once with a non-empty answer
  and not at all otherwise; if the call fails, the result is unsuccessful.
\<close>

theorem empty_stream_fallback:
  "store tabId = Some sd \<and> checkQuota g (Some (countersAt (session sd) 0)) = Within
     \<and> promptStreaming (session sd) (promptInputOf p) = Inr []
   \<longrightarrow> (case prompt (session sd) (promptInputOf p) of
          Inr r \<Rightarrow>
            sendPromptStreaming g store tabId p cb =
              (succeeded (case r of None \<Rightarrow> [] | Some t \<Rightarrow> t),
               (case r of None \<Rightarrow> [] | Some t \<Rightarrow> if cb \<and> t \<noteq> [] then [t] else []),
               [CallPromptStreaming (promptInputOf p), CallPrompt (promptInputOf p)])
        | Inl e \<Rightarrow>
            \<not> success (fst (sendPromptStreaming g store tabId p cb))
            \<and> fst (snd (sendPromptStreaming g store tabId p cb)) = []
            \<and> snd (snd (sendPromptStreaming g store tabId p cb))
                = [CallPromptStreaming (promptInputOf p), CallPrompt (promptInputOf p)])"
proof
  assume a: "store tabId = Some sd \<and> checkQuota g (Some (countersAt (session sd) 0)) = Within
     \<and> promptStreaming (session sd) (promptInputOf p) = Inr []"
  show "case prompt (session sd) (promptInputOf p) of
          Inr r \<Rightarrow>
            sendPromptStreaming g store tabId p cb =
              (succeeded (case r of None \<Rightarrow> [] | Some t \<Rightarrow> t),
               (case r of None \<Rightarrow> [] | Some t \<Rightarrow> if cb \<and> t \<noteq> [] then [t] else []),
               [CallPromptStreaming (promptInputOf p), CallPrompt (promptInputOf p)])
        | Inl e \<Rightarrow>
            \<not> success (fst (sendPromptStreaming g store tabId p cb))
            \<and> fst (snd (sendPromptStreaming g store tabId p cb)) = []
            \<and> snd (snd (sendPromptStreaming g store tabId p cb))
                = [CallPromptStreaming (promptInputOf p), CallPrompt (promptInputOf p)]"
  proof (cases "prompt (session sd) (promptInputOf p)")
    case (Inl fallbackError)
    with a show ?thesis by (simp add: sendPromptStreaming_def Let_def failed_def)
  next
    case (Inr r)
    with a show ?thesis by (cases r) (simp_all add: sendPromptStreaming_def Let_def)
  qed
qed

theorem empty_stream_fallback_witness:
  "sendPromptStreaming None
       [7 \<mapsto> \<lparr>session = scriptedSession quietCounters [] (Inr (Some (js ''Whole answer''))),
               userLanguage = js ''en''\<rparr>]
       7 (textTurn (js ''Why?'')) True
     = (succeeded (js ''Whole answer''), [js ''Whole answer''],
        [CallPromptStreaming (PValue (VText (js ''Why?''))), CallPrompt (PValue (VText (js ''Why?'')))])
   \<and> \<not> success (fst (sendPromptStreaming None
       [7 \<mapsto> \<lparr>session = scriptedSession quietCounters []
                 (Inl \<lparr>ename = Some (js ''NetworkError''), emessage = None, ecode = None\<rparr>),
               userLanguage = js ''en''\<rparr>]
       7 (textTurn (js ''Why?'')) True))"
  using empty_stream_fallback[where g=None and tabId=7 and cb=True and p="textTurn (js ''Why?'')"
      and store="[7 \<mapsto> \<lparr>session = scriptedSession quietCounters [] (Inr (Some (js ''Whole answer''))),
               userLanguage = js ''en''\<rparr>]"
      and sd="\<lparr>session = scriptedSession quietCounters [] (Inr (Some (js ''Whole answer''))),
               userLanguage = js ''en''\<rparr>"]
    empty_stream_fallback[where g=None and tabId=7 and cb=True and p="textTurn (js ''Why?'')"
      and store="[7 \<mapsto> \<lparr>session = scriptedSession quietCounters []
                 (Inl \<lparr>ename = Some (js ''NetworkError''), emessage = None, ecode = None\<rparr>),
               userLanguage = js ''en''\<rparr>]"
      and sd="\<lparr>session = scriptedSession quietCounters []
                 (Inl \<lparr>ename = Some (js ''NetworkError''), emessage = None, ecode = None\<rparr>),
               userLanguage = js ''en''\<rparr>"]
  by (simp add: scriptedSession_def quietCounters_def noCounters_def checkQuota_def textTurn_def
        promptInputOf_def js_def)

section \<open>Properties of the worker lifecycle and the delivery layer\<close>

lemma raced_trace: "snd (raced w op txt tr) = tr @ [op]"
  by (simp add: raced_def split: settled.splits)

lemma verifyReady_trace:
  "\<exists>ops. snd (verifyReady w left tr) = tr @ ops \<and> deliveries ops = 0 \<and> creations ops = 0"
proof (induction left arbitrary: tr)
  case 0
  then show ?case by (simp add: deliveries_def creations_def)
next
  case (Suc left)
  obtain r where r: "raced w Probe ''Ping timeout'' tr = (r, tr @ [Probe])"
    using raced_trace[of w Probe "''Ping timeout''" tr] by (cases "raced w Probe ''Ping timeout'' tr") auto
  from Suc.IH[of "tr @ [Probe]"] obtain ops1 where
    o1: "snd (verifyReady w left (tr @ [Probe])) = tr @ [Probe] @ ops1" "deliveries ops1 = 0" "creations ops1 = 0"
    by auto
  from Suc.IH[of "tr @ [Probe, Delay 200]"] obtain ops2 where
    o2: "snd (verifyReady w left (tr @ [Probe, Delay 200])) = tr @ [Probe, Delay 200] @ ops2"
        "deliveries ops2 = 0" "creations ops2 = 0"
    by auto
  show ?case
  proof (cases r)
    case (Inl e)
    show ?thesis
    proof (cases "0 < left")
      case True
      with r Inl o2 show ?thesis
        by (intro exI[of _ "[Probe, Delay 200] @ ops2"])
           (simp add: delay_def deliveries_def creations_def isDeliver_def)
    next
      case False
      with r Inl o1 show ?thesis
        by (intro exI[of _ "[Probe] @ ops1"])
           (simp add: delay_def deliveries_def creations_def isDeliver_def)
    qed
  next
    case (Inr pingResult)
    show ?thesis
    proof (cases "pingOk pingResult")
      case True
      with r Inr show ?thesis
        by (intro exI[of _ "[Probe]"]) (simp add: deliveries_def creations_def isDeliver_def)
    next
      case False
      with r Inr o1 show ?thesis
        by (intro exI[of _ "[Probe] @ ops1"]) (simp add: deliveries_def creations_def isDeliver_def)
    qed
  qed
qed

lemma createAndVerify_trace:
  "\<exists>ops. snd (createAndVerify w tr) = tr @ ops \<and> deliveries ops = 0 \<and> creations ops = 1"
proof (cases "createScript w (count_list tr CreateDocument)")
  case True
  from verifyReady_trace[of w 5 "tr @ [CreateDocument, Delay 500]"] obtain ops where
    o: "snd (verifyReady w 5 (tr @ [CreateDocument, Delay 500])) = tr @ [CreateDocument, Delay 500] @ ops"
       "deliveries ops = 0" "creations ops = 0"
    by auto
  with True show ?thesis
    by (intro exI[of _ "[CreateDocument, Delay 500] @ ops"])
       (simp add: createAndVerify_def createDocument_def delay_def deliveries_def creations_def isDeliver_def)
next
  case False
  then show ?thesis
    by (intro exI[of _ "[CreateDocument]"])
       (simp add: createAndVerify_def createDocument_def deliveries_def creations_def isDeliver_def)
qed

lemma ensureOffscreenDocument_trace:
  "\<exists>ops. snd (ensureOffscreenDocument w tr) = tr @ ops \<and> deliveries ops = 0 \<and> creations ops \<le> 1"
proof (cases "contextsScript w (count_list tr GetContexts)")
  case None
  then show ?thesis
    by (intro exI[of _ "[GetContexts]"])
       (simp add: ensureOffscreenDocument_def getContexts_def deliveries_def creations_def isDeliver_def)
next
  case (Some clients)
  show ?thesis
  proof (cases "clients > 0")
    case False
    from createAndVerify_trace[of w "tr @ [GetContexts]"] obtain ops where
      "snd (createAndVerify w (tr @ [GetContexts])) = tr @ [GetContexts] @ ops"
      "deliveries ops = 0" "creations ops = 1"
      by auto
    with Some False show ?thesis
      by (intro exI[of _ "[GetContexts] @ ops"])
         (simp add: ensureOffscreenDocument_def getContexts_def deliveries_def creations_def isDeliver_def)
  next
    case True
    obtain r where r: "raced w Probe ''Ping timeout'' (tr @ [GetContexts]) = (r, tr @ [GetContexts, Probe])"
      using raced_trace[of w Probe "''Ping timeout''" "tr @ [GetContexts]"]
      by (cases "raced w Probe ''Ping timeout'' (tr @ [GetContexts])") auto
    from createAndVerify_trace[of w "tr @ [GetContexts, Probe]"] obtain ops1 where
      o1: "snd (createAndVerify w (tr @ [GetContexts, Probe])) = tr @ [GetContexts, Probe] @ ops1"
      "deliveries ops1 = 0" "creations ops1 = 1"
      by auto
    from createAndVerify_trace[of w "tr @ [GetContexts, Probe, CloseDocument]"] obtain ops2 where
      o2: "snd (createAndVerify w (tr @ [GetContexts, Probe, CloseDocument]))
             = tr @ [GetContexts, Probe, CloseDocument] @ ops2"
      "deliveries ops2 = 0" "creations ops2 = 1"
      by auto
    show ?thesis
    proof (cases r)
      case (Inl e)
      with Some True r o2 show ?thesis
        by (intro exI[of _ "[GetContexts, Probe, CloseDocument] @ ops2"])
           (simp add: ensureOffscreenDocument_def getContexts_def closeDocument_def
              deliveries_def creations_def isDeliver_def)
    next
      case (Inr pingResult)
      show ?thesis
      proof (cases "pingOk pingResult")
        case ok: True
        with Some True r Inr show ?thesis
          by (intro exI[of _ "[GetContexts, Probe]"])
             (simp add: ensureOffscreenDocument_def getContexts_def deliveries_def creations_def isDeliver_def)
      next
        case bad: False
        with Some True r Inr o1 show ?thesis
          by (intro exI[of _ "[GetContexts, Probe] @ ops1"])
             (simp add: ensureOffscreenDocument_def getContexts_def deliveries_def creations_def isDeliver_def)
      qed
    qed
  qed
qed

lemma sendCount_simps:
  "sendCount (tr @ ops) = sendCount tr + sendCount ops"
  "sendCount [] = 0"
  "sendCount (GetContexts # ops) = sendCount ops"
  "sendCount (CloseDocument # ops) = sendCount ops"
  "sendCount (CreateDocument # ops) = sendCount ops"
  "sendCount (Delay ms # ops) = sendCount ops"
  "sendCount (AwaitFirstUpdate # ops) = sendCount ops"
  "sendCount (Probe # ops) = Suc (sendCount ops)"
  "sendCount (Deliver m d # ops) = Suc (sendCount ops)"
  by (simp_all add: sendCount_def isSend_def)

lemma deliveries_simps:
  "deliveries (tr @ ops) = deliveries tr + deliveries ops"
  "deliveries [] = 0"
  "deliveries (GetContexts # ops) = deliveries ops"
  "deliveries (CloseDocument # ops) = deliveries ops"
  "deliveries (CreateDocument # ops) = deliveries ops"
  "deliveries (Delay ms # ops) = deliveries ops"
  "deliveries (AwaitFirstUpdate # ops) = deliveries ops"
  "deliveries (Probe # ops) = deliveries ops"
  "deliveries (Deliver m d # ops) = Suc (deliveries ops)"
  by (simp_all add: deliveries_def isDeliver_def)

lemma creations_simps:
  "creations (tr @ ops) = creations tr + creations ops"
  "creations [] = 0"
  "creations (GetContexts # ops) = creations ops"
  "creations (CloseDocument # ops) = creations ops"
  "creations (CreateDocument # ops) = Suc (creations ops)"
  "creations (Delay ms # ops) = creations ops"
  "creations (AwaitFirstUpdate # ops) = creations ops"
  "creations (Probe # ops) = creations ops"
  "creations (Deliver m d # ops) = creations ops"
  by (simp_all add: creations_def)

lemma ensure_live:
  "liveWorker w tr \<Longrightarrow> ensureOffscreenDocument w tr = (True, tr @ [GetContexts, Probe])"
  by (auto simp: liveWorker_def ensureOffscreenDocument_def getContexts_def raced_def sendCount_simps
        split: option.splits settled.splits)

lemma ensure_not_live:
  assumes "contextsScript w (count_list tr GetContexts) \<noteq> None" "\<not> liveWorker w tr"
  shows "creations (snd (ensureOffscreenDocument w tr)) = creations tr + 1"
proof -
  from assms obtain clients where c: "contextsScript w (count_list tr GetContexts) = Some clients"
    by auto
  have cv: "\<And>t. creations (snd (createAndVerify w t)) = creations t + 1"
    using createAndVerify_trace by (metis creations_simps(1))
  show ?thesis
  proof (cases "0 < clients")
    case False
    with c show ?thesis
      by (simp add: ensureOffscreenDocument_def getContexts_def cv creations_simps)
  next
    case True
    with c assms(2) have n: "\<not> (case sendScript w (sendCount tr) of Resolved r \<Rightarrow> pingOk r | _ \<Rightarrow> False)"
      by (simp add: liveWorker_def)
    with c True show ?thesis
      by (auto simp: ensureOffscreenDocument_def getContexts_def raced_def closeDocument_def cv
            creations_simps sendCount_simps split: settled.splits)
  qed
qed

text \<open>
  Claim C7. A worker is live when a context of the kind exists and the next probe is answered
  with success. With a live worker \<open>ensureOffscreenDocument\<close> returns true after the query
  and one probe, and requests no creation. Hence, when the first of two calls in a row does
  not find a live worker (it then requests one creation) and the second does, the two calls
  request exactly one creation, the second only probing.
\<close>

theorem idempotent_readiness:
  "(liveWorker w tr \<longrightarrow> ensureOffscreenDocument w tr = (True, tr @ [GetContexts, Probe]))
   \<and> (contextsScript w (count_list tr GetContexts) \<noteq> None \<and> \<not> liveWorker w tr
        \<and> liveWorker w (snd (ensureOffscreenDocument w tr))
      \<longrightarrow> ensureOffscreenDocument w (snd (ensureOffscreenDocument w tr))
            = (True, snd (ensureOffscreenDocument w tr) @ [GetContexts, Probe])
          \<and> creations (snd (ensureOffscreenDocument w (snd (ensureOffscreenDocument w tr))))
            = creations tr + 1)"
proof (intro conjI impI)
  assume "liveWorker w tr"
  then show "ensureOffscreenDocument w tr = (True, tr @ [GetContexts, Probe])"
    by (rule ensure_live)
next
  assume a: "contextsScript w (count_list tr GetContexts) \<noteq> None \<and> \<not> liveWorker w tr
        \<and> liveWorker w (snd (ensureOffscreenDocument w tr))"
  then show "ensureOffscreenDocument w (snd (ensureOffscreenDocument w tr))
            = (True, snd (ensureOffscreenDocument w tr) @ [GetContexts, Probe])"
    by (simp add: ensure_live)
next
  assume a: "contextsScript w (count_list tr GetContexts) \<noteq> None \<and> \<not> liveWorker w tr
        \<and> liveWorker w (snd (ensureOffscreenDocument w tr))"
  then have first: "creations (snd (ensureOffscreenDocument w tr)) = creations tr + 1"
    by (simp add: ensure_not_live)
  from a have second: "snd (ensureOffscreenDocument w (snd (ensureOffscreenDocument w tr)))
            = snd (ensureOffscreenDocument w tr) @ [GetContexts, Probe]"
    by (simp add: ensure_live)
  show "creations (snd (ensureOffscreenDocument w (snd (ensureOffscreenDocument w tr))))
            = creations tr + 1"
    unfolding second using first by (simp add: creations_simps)
qed

theorem idempotent_readiness_witness:
  "ensureOffscreenDocument liveWorld [] = (True, [GetContexts, CreateDocument, Delay 500, Probe])
   \<and> ensureOffscreenDocument liveWorld [GetContexts, CreateDocument, Delay 500, Probe]
       = (True, [GetContexts, CreateDocument, Delay 500, Probe, GetContexts, Probe])
   \<and> creations [GetContexts, CreateDocument, Delay 500, Probe, GetContexts, Probe] = 1"
proof -
  have e: "ensureOffscreenDocument liveWorld [] = (True, [GetContexts, CreateDocument, Delay 500, Probe])"
    by (simp add: ensureOffscreenDocument_def getContexts_def createAndVerify_def createDocument_def
          delay_def raced_def liveWorld_def pingOk_def okResponse_def eval_nat_numeral)
  have l: "liveWorker liveWorld [GetContexts, CreateDocument, Delay 500, Probe]"
    by (simp add: liveWorker_def liveWorld_def pingOk_def okResponse_def)
  have n: "\<not> liveWorker liveWorld []"
    by (simp add: liveWorker_def liveWorld_def)
  show ?thesis
    using idempotent_readiness[of liveWorld "[GetContexts, CreateDocument, Delay 500, Probe]"]
      idempotent_readiness[of liveWorld "[]"] l n
    unfolding e by (simp add: creations_simps liveWorld_def)
qed

lemma typeError_not_transport: "\<not> isTransportError includesTypeError"
  by (simp add: isTransportError_def includesTypeError_def js_def sublist_Cons_right)

lemma firstAttempt_failure:
  assumes "firstAttempt w message tr = (Inl err, sent)" "isTransportError err"
  shows "\<exists>streaming. isStreamingAction message = Inr streaming
           \<and> sent = snd (ensureOffscreenDocument w tr)
                    @ [Delay 200, Deliver message (if streaming then 5000 else 30000)]"
proof (cases "isStreamingAction message")
  case (Inl e)
  with assms show ?thesis
    using typeError_not_transport
    by (auto simp: firstAttempt_def Let_def isStreamingAction_def
          split: if_splits option.splits jsprompt.splits list.splits content.splits pval.splits)
next
  case (Inr streaming)
  with assms(1) show ?thesis
    by (cases streaming)
       (auto simp: firstAttempt_def Let_def delay_def raced_def
          split: settled.splits option.splits if_splits)
qed

lemma retryAttempt_run:
  assumes "isStreamingAction message = Inr streaming"
    and "snd (ensureOffscreenDocument w (sent @ [CloseDocument])) = sent @ [CloseDocument] @ ops"
  shows "retryAttempt w message sent =
     ((case sendScript w (sendCount (sent @ [CloseDocument] @ ops @ [Delay 500])) of
         Resolved (Some r) \<Rightarrow> Inr r
       | Resolved None \<Rightarrow>
           Inl (newError (js ''Failed after retry: '' @ js ''No response from offscreen document on retry''))
       | Rejected cause \<Rightarrow> Inl (newError (js ''Failed after retry: '' @ messageText cause))
       | Pending \<Rightarrow> Inl (newError (js ''Failed after retry: '' @ js ''Timeout on retry''))),
      sent @ [CloseDocument] @ ops @ [Delay 500, Deliver message (if streaming then 5000 else 30000)])"
  using assms
  by (simp add: retryAttempt_def Let_def closeDocument_def delay_def raced_def messageText_def newError_def
        split: settled.splits option.splits)

lemma ensure_unreadable:
  "contextsScript w (count_list tr GetContexts) = None \<Longrightarrow>
   ensureOffscreenDocument w tr = (False, tr @ [GetContexts])"
  by (simp add: ensureOffscreenDocument_def getContexts_def)

lemma ensure_recreated:
  "contextsScript w (count_list tr GetContexts) = Some 0 \<Longrightarrow> createScript w (creations tr) \<Longrightarrow>
   sendScript w (sendCount tr) = Resolved r \<Longrightarrow> pingOk r \<Longrightarrow>
   ensureOffscreenDocument w tr = (True, tr @ [GetContexts, CreateDocument, Delay 500, Probe])"
  by (simp add: ensureOffscreenDocument_def getContexts_def createAndVerify_def createDocument_def
        delay_def raced_def creations_def sendCount_simps eval_nat_numeral)

lemma ensure_create_fails:
  "contextsScript w (count_list tr GetContexts) = Some 0 \<Longrightarrow> \<not> createScript w (creations tr) \<Longrightarrow>
   ensureOffscreenDocument w tr = (False, tr @ [GetContexts, CreateDocument])"
  by (simp add: ensureOffscreenDocument_def getContexts_def createAndVerify_def createDocument_def
        creations_def)

lemma verifyReady_unanswered:
  "\<forall>r. sendScript w (sendCount tr) \<noteq> Resolved r \<Longrightarrow>
   verifyReady w (Suc left) tr
     = verifyReady w left (if 0 < left then tr @ [Probe, Delay 200] else tr @ [Probe])"
  by (cases "sendScript w (sendCount tr)") (simp_all add: raced_def delay_def)

lemma ensure_unanswered:
  assumes "contextsScript w (count_list tr GetContexts) = Some 0" "createScript w (creations tr)"
    and u: "\<forall>i<5. \<forall>r. sendScript w (sendCount tr + i) \<noteq> Resolved r"
  shows "ensureOffscreenDocument w tr =
     (False, tr @ [GetContexts, CreateDocument, Delay 500, Probe, Delay 200, Probe, Delay 200,
                   Probe, Delay 200, Probe, Delay 200, Probe])"
proof -
  have five: "(5 :: nat) = Suc (Suc (Suc (Suc (Suc 0))))" by simp
  have u0: "\<forall>r. sendScript w (sendCount tr) \<noteq> Resolved r"
    using u[rule_format, of 0] by simp
  have u1: "\<forall>r. sendScript w (Suc (sendCount tr)) \<noteq> Resolved r"
    using u[rule_format, of 1] by simp
  have u2: "\<forall>r. sendScript w (Suc (Suc (sendCount tr))) \<noteq> Resolved r"
    using u[rule_format, of 2] by (simp add: eval_nat_numeral)
  have u3: "\<forall>r. sendScript w (Suc (Suc (Suc (sendCount tr)))) \<noteq> Resolved r"
    using u[rule_format, of 3] by (simp add: eval_nat_numeral)
  have u4: "\<forall>r. sendScript w (Suc (Suc (Suc (Suc (sendCount tr))))) \<noteq> Resolved r"
    using u[rule_format, of 4] by (simp add: eval_nat_numeral)
  let ?t0 = "tr @ [GetContexts, CreateDocument, Delay 500]"
  have s0: "sendCount ?t0 = sendCount tr" by (simp add: sendCount_simps)
  have v0: "verifyReady w (Suc (Suc (Suc (Suc (Suc 0))))) ?t0
              = verifyReady w (Suc (Suc (Suc (Suc 0)))) (?t0 @ [Probe, Delay 200])"
    using u0 by (subst verifyReady_unanswered) (simp_all add: s0)
  have v1: "verifyReady w (Suc (Suc (Suc (Suc 0)))) (?t0 @ [Probe, Delay 200])
              = verifyReady w (Suc (Suc (Suc 0))) (?t0 @ [Probe, Delay 200, Probe, Delay 200])"
    using u1 by (subst verifyReady_unanswered) (simp_all add: sendCount_simps)
  have v2: "verifyReady w (Suc (Suc (Suc 0))) (?t0 @ [Probe, Delay 200, Probe, Delay 200])
              = verifyReady w (Suc (Suc 0)) (?t0 @ [Probe, Delay 200, Probe, Delay 200, Probe, Delay 200])"
    using u2 by (subst verifyReady_unanswered) (simp_all add: sendCount_simps)
  have v3: "verifyReady w (Suc (Suc 0)) (?t0 @ [Probe, Delay 200, Probe, Delay 200, Probe, Delay 200])
              = verifyReady w (Suc 0)
                  (?t0 @ [Probe, Delay 200, Probe, Delay 200, Probe, Delay 200, Probe, Delay 200])"
    using u3 by (subst verifyReady_unanswered) (simp_all add: sendCount_simps)
  have v4: "verifyReady w (Suc 0)
                  (?t0 @ [Probe, Delay 200, Probe, Delay 200, Probe, Delay 200, Probe, Delay 200])
              = (False, ?t0 @ [Probe, Delay 200, Probe, Delay 200, Probe, Delay 200, Probe, Delay 200,
                               Probe])"
    using u4 by (subst verifyReady_unanswered) (simp_all add: sendCount_simps)
  have "ensureOffscreenDocument w tr = verifyReady w 5 ?t0"
    using assms(1,2)
    by (simp add: ensureOffscreenDocument_def getContexts_def createAndVerify_def createDocument_def
          delay_def creations_def)
  then show ?thesis unfolding five v0 v1 v2 v3 v4 by simp
qed

text \<open>
  Claim C4, as the code has it. When the first attempt of \<open>sendMessageToOffscreen\<close> throws
  an error of the transport class, the request had been delivered once, with the deadline
  of its mode (5 s for a streaming action, 30 s otherwise). The layer then closes the worker
  context, runs \<open>ensureOffscreenDocument\<close> once, waits 500 ms and delivers the request
  once more, raced against that same deadline alone: two deliveries in all, never a third.
  The run of \<open>ensureOffscreenDocument\<close> requests one creation, unless the host cannot
  list its contexts or still shows a live worker after the close, and then none; where the
  worker is gone, is created and answers the probe, the run is query, creation, 500 ms and
  one probe; where the creation fails, or none of five probes, 200 ms apart, is answered,
  the worker is not ready and the request is delivered all the same. Any reply to the
  second delivery is the result of the call; no reply, a rejection or the deadline is
  thrown as "Failed after retry: " followed by the message of the cause.
\<close>

theorem retry_once:
  "firstAttempt w message tr = (Inl err, sent) \<and> isTransportError err \<longrightarrow>
     (\<exists>streaming ops1 ready ops2.
        isStreamingAction message = Inr streaming
        \<and> deliveries ops1 = 0 \<and> deliveries ops2 = 0
        \<and> snd (ensureOffscreenDocument w tr) = tr @ ops1
        \<and> sent = tr @ ops1 @ [Delay 200, Deliver message (if streaming then 5000 else 30000)]
        \<and> ensureOffscreenDocument w (sent @ [CloseDocument]) = (ready, sent @ [CloseDocument] @ ops2)
        \<and> creations ops2 =
            (if contextsScript w (count_list sent GetContexts) = None
                \<or> liveWorker w (sent @ [CloseDocument]) then 0 else 1)
        \<and> (liveWorker w (sent @ [CloseDocument]) \<longrightarrow> ready \<and> ops2 = [GetContexts, Probe])
        \<and> (contextsScript w (count_list sent GetContexts) = Some 0 \<and> createScript w (creations sent)
              \<and> (\<exists>r. sendScript w (sendCount sent) = Resolved r \<and> pingOk r)
            \<longrightarrow> ready \<and> ops2 = [GetContexts, CreateDocument, Delay 500, Probe])
        \<and> (contextsScript w (count_list sent GetContexts) = Some 0 \<and> \<not> createScript w (creations sent)
            \<longrightarrow> \<not> ready \<and> ops2 = [GetContexts, CreateDocument])
        \<and> (contextsScript w (count_list sent GetContexts) = Some 0 \<and> createScript w (creations sent)
              \<and> (\<forall>i<5. \<forall>r. sendScript w (sendCount sent + i) \<noteq> Resolved r)
            \<longrightarrow> \<not> ready
                \<and> ops2 = [GetContexts, CreateDocument, Delay 500, Probe, Delay 200, Probe, Delay 200,
                           Probe, Delay 200, Probe, Delay 200, Probe])
        \<and> snd (sendMessageToOffscreen w message tr)
            = sent @ [CloseDocument] @ ops2
                @ [Delay 500, Deliver message (if streaming then 5000 else 30000)]
        \<and> deliveries (snd (sendMessageToOffscreen w message tr)) = deliveries tr + 2
        \<and> fst (sendMessageToOffscreen w message tr) =
            (case sendScript w (sendCount (sent @ [CloseDocument] @ ops2 @ [Delay 500])) of
               Resolved (Some r) \<Rightarrow> Inr r
             | Resolved None \<Rightarrow>
                 Inl (newError (js ''Failed after retry: ''
                                 @ js ''No response from offscreen document on retry''))
             | Rejected cause \<Rightarrow> Inl (newError (js ''Failed after retry: '' @ messageText cause))
             | Pending \<Rightarrow> Inl (newError (js ''Failed after retry: '' @ js ''Timeout on retry''))))"
proof
  assume a: "firstAttempt w message tr = (Inl err, sent) \<and> isTransportError err"
  then obtain streaming where s: "isStreamingAction message = Inr streaming"
    and t1: "sent = snd (ensureOffscreenDocument w tr)
                    @ [Delay 200, Deliver message (if streaming then 5000 else 30000)]"
    using firstAttempt_failure by blast
  obtain ops1 where o1: "snd (ensureOffscreenDocument w tr) = tr @ ops1" and d1: "deliveries ops1 = 0"
    using ensureOffscreenDocument_trace by blast
  obtain ops2 where o2: "snd (ensureOffscreenDocument w (sent @ [CloseDocument])) = sent @ [CloseDocument] @ ops2"
    and d2: "deliveries ops2 = 0"
    using ensureOffscreenDocument_trace[of w "sent @ [CloseDocument]"] by auto
  obtain ready where e: "ensureOffscreenDocument w (sent @ [CloseDocument]) = (ready, sent @ [CloseDocument] @ ops2)"
    using o2 by (cases "ensureOffscreenDocument w (sent @ [CloseDocument])") auto
  have t1': "sent = tr @ ops1 @ [Delay 200, Deliver message (if streaming then 5000 else 30000)]"
    using t1 o1 by simp
  have idx: "count_list (sent @ [CloseDocument]) GetContexts = count_list sent GetContexts"
    "creations (sent @ [CloseDocument]) = creations sent"
    "sendCount (sent @ [CloseDocument]) = sendCount sent"
    by (simp_all add: creations_simps sendCount_simps)
  have live: "liveWorker w (sent @ [CloseDocument]) \<longrightarrow> ready \<and> ops2 = [GetContexts, Probe]"
  proof
    assume "liveWorker w (sent @ [CloseDocument])"
    from ensure_live[OF this] e show "ready \<and> ops2 = [GetContexts, Probe]" by simp
  qed
  have made: "contextsScript w (count_list sent GetContexts) = Some 0 \<and> createScript w (creations sent)
              \<and> (\<exists>r. sendScript w (sendCount sent) = Resolved r \<and> pingOk r)
            \<longrightarrow> ready \<and> ops2 = [GetContexts, CreateDocument, Delay 500, Probe]"
  proof
    assume h: "contextsScript w (count_list sent GetContexts) = Some 0 \<and> createScript w (creations sent)
              \<and> (\<exists>r. sendScript w (sendCount sent) = Resolved r \<and> pingOk r)"
    then obtain r where r: "sendScript w (sendCount (sent @ [CloseDocument])) = Resolved r" "pingOk r"
      unfolding idx by blast
    from h have "contextsScript w (count_list (sent @ [CloseDocument]) GetContexts) = Some 0"
      and "createScript w (creations (sent @ [CloseDocument]))"
      unfolding idx by simp_all
    from ensure_recreated[OF this r] e
    show "ready \<and> ops2 = [GetContexts, CreateDocument, Delay 500, Probe]" by simp
  qed
  have unmade: "contextsScript w (count_list sent GetContexts) = Some 0 \<and> \<not> createScript w (creations sent)
            \<longrightarrow> \<not> ready \<and> ops2 = [GetContexts, CreateDocument]"
  proof
    assume h: "contextsScript w (count_list sent GetContexts) = Some 0 \<and> \<not> createScript w (creations sent)"
    then have "contextsScript w (count_list (sent @ [CloseDocument]) GetContexts) = Some 0"
      and "\<not> createScript w (creations (sent @ [CloseDocument]))"
      unfolding idx by simp_all
    from ensure_create_fails[OF this] e
    show "\<not> ready \<and> ops2 = [GetContexts, CreateDocument]" by simp
  qed
  have unanswered: "contextsScript w (count_list sent GetContexts) = Some 0 \<and> createScript w (creations sent)
              \<and> (\<forall>i<5. \<forall>r. sendScript w (sendCount sent + i) \<noteq> Resolved r)
            \<longrightarrow> \<not> ready
                \<and> ops2 = [GetContexts, CreateDocument, Delay 500, Probe, Delay 200, Probe, Delay 200,
                           Probe, Delay 200, Probe, Delay 200, Probe]"
  proof
    assume h: "contextsScript w (count_list sent GetContexts) = Some 0 \<and> createScript w (creations sent)
              \<and> (\<forall>i<5. \<forall>r. sendScript w (sendCount sent + i) \<noteq> Resolved r)"
    then have "contextsScript w (count_list (sent @ [CloseDocument]) GetContexts) = Some 0"
      and "createScript w (creations (sent @ [CloseDocument]))"
      and "\<forall>i<5. \<forall>r. sendScript w (sendCount (sent @ [CloseDocument]) + i) \<noteq> Resolved r"
      unfolding idx by simp_all
    from ensure_unanswered[OF this] e
    show "\<not> ready
                \<and> ops2 = [GetContexts, CreateDocument, Delay 500, Probe, Delay 200, Probe, Delay 200,
                           Probe, Delay 200, Probe, Delay 200, Probe]" by simp
  qed
  have cr: "creations ops2 =
            (if contextsScript w (count_list sent GetContexts) = None
                \<or> liveWorker w (sent @ [CloseDocument]) then 0 else 1)"
  proof (cases "contextsScript w (count_list sent GetContexts) = None")
    case True
    then have "contextsScript w (count_list (sent @ [CloseDocument]) GetContexts) = None"
      unfolding idx .
    from ensure_unreadable[OF this] e have "ops2 = [GetContexts]" by simp
    with True show ?thesis by (simp add: creations_simps)
  next
    case readable: False
    show ?thesis
    proof (cases "liveWorker w (sent @ [CloseDocument])")
      case True
      with live have "ops2 = [GetContexts, Probe]" by simp
      with True show ?thesis by (simp add: creations_simps)
    next
      case False
      from readable have "contextsScript w (count_list (sent @ [CloseDocument]) GetContexts) \<noteq> None"
        unfolding idx .
      from ensure_not_live[OF this False]
      have "creations ops2 = 1" unfolding o2 by (simp add: creations_simps)
      with readable False show ?thesis by simp
    qed
  qed
  have run: "sendMessageToOffscreen w message tr = retryAttempt w message sent"
    using a by (simp add: sendMessageToOffscreen_def)
  have tr2: "snd (sendMessageToOffscreen w message tr)
            = sent @ [CloseDocument] @ ops2
                @ [Delay 500, Deliver message (if streaming then 5000 else 30000)]"
    unfolding run retryAttempt_run[OF s o2] by simp
  have d: "deliveries (snd (sendMessageToOffscreen w message tr)) = deliveries tr + 2"
    unfolding tr2 unfolding t1' using d1 d2 by (simp add: deliveries_simps)
  have res: "fst (sendMessageToOffscreen w message tr) =
            (case sendScript w (sendCount (sent @ [CloseDocument] @ ops2 @ [Delay 500])) of
               Resolved (Some r) \<Rightarrow> Inr r
             | Resolved None \<Rightarrow>
                 Inl (newError (js ''Failed after retry: ''
                                 @ js ''No response from offscreen document on retry''))
             | Rejected cause \<Rightarrow> Inl (newError (js ''Failed after retry: '' @ messageText cause))
             | Pending \<Rightarrow> Inl (newError (js ''Failed after retry: '' @ js ''Timeout on retry'')))"
    unfolding run retryAttempt_run[OF s o2] by simp
  from s d1 d2 o1 t1' e cr live made unmade unanswered tr2 d res
  show "\<exists>streaming ops1 ready ops2.
        isStreamingAction message = Inr streaming
        \<and> deliveries ops1 = 0 \<and> deliveries ops2 = 0
        \<and> snd (ensureOffscreenDocument w tr) = tr @ ops1
        \<and> sent = tr @ ops1 @ [Delay 200, Deliver message (if streaming then 5000 else 30000)]
        \<and> ensureOffscreenDocument w (sent @ [CloseDocument]) = (ready, sent @ [CloseDocument] @ ops2)
        \<and> creations ops2 =
            (if contextsScript w (count_list sent GetContexts) = None
                \<or> liveWorker w (sent @ [CloseDocument]) then 0 else 1)
        \<and> (liveWorker w (sent @ [CloseDocument]) \<longrightarrow> ready \<and> ops2 = [GetContexts, Probe])
        \<and> (contextsScript w (count_list sent GetContexts) = Some 0 \<and> createScript w (creations sent)
              \<and> (\<exists>r. sendScript w (sendCount sent) = Resolved r \<and> pingOk r)
            \<longrightarrow> ready \<and> ops2 = [GetContexts, CreateDocument, Delay 500, Probe])
        \<and> (contextsScript w (count_list sent GetContexts) = Some 0 \<and> \<not> createScript w (creations sent)
            \<longrightarrow> \<not> ready \<and> ops2 = [GetContexts, CreateDocument])
        \<and> (contextsScript w (count_list sent GetContexts) = Some 0 \<and> createScript w (creations sent)
              \<and> (\<forall>i<5. \<forall>r. sendScript w (sendCount sent + i) \<noteq> Resolved r)
            \<longrightarrow> \<not> ready
                \<and> ops2 = [GetContexts, CreateDocument, Delay 500, Probe, Delay 200, Probe, Delay 200,
                           Probe, Delay 200, Probe, Delay 200, Probe])
        \<and> snd (sendMessageToOffscreen w message tr)
            = sent @ [CloseDocument] @ ops2
                @ [Delay 500, Deliver message (if streaming then 5000 else 30000)]
        \<and> deliveries (snd (sendMessageToOffscreen w message tr)) = deliveries tr + 2
        \<and> fst (sendMessageToOffscreen w message tr) =
            (case sendScript w (sendCount (sent @ [CloseDocument] @ ops2 @ [Delay 500])) of
               Resolved (Some r) \<Rightarrow> Inr r
             | Resolved None \<Rightarrow>
                 Inl (newError (js ''Failed after retry: ''
                                 @ js ''No response from offscreen document on retry''))
             | Rejected cause \<Rightarrow> Inl (newError (js ''Failed after retry: '' @ messageText cause))
             | Pending \<Rightarrow> Inl (newError (js ''Failed after retry: '' @ js ''Timeout on retry'')))"
    by blast
qed

lemma whyRequest_streaming: "isStreamingAction (sendPromptRequest 7 (js ''Why?'')) = Inr True"
  by (simp add: isStreamingAction_def sendPromptRequest_def textTurn_def js_def sublist_Cons_right)

lemma start_timeout_transport:
  "isTransportError (newError (js ''Timeout waiting for generation start''))"
  "isTransportError (newError (js ''Timeout after 30s''))"
  by (simp_all add: isTransportError_def newError_def js_def sublist_Cons_right)

lemma flaky_firstAttempt:
  "isStreamingAction message = Inr streaming \<Longrightarrow>
   firstAttempt (flakyWorld x) message [] =
     (Inl (newError (js (if streaming then ''Timeout waiting for generation start''
                         else ''Timeout after 30s''))),
      [GetContexts, Probe, Delay 200, Deliver message (if streaming then 5000 else 30000)])"
  by (simp add: firstAttempt_def ensureOffscreenDocument_def getContexts_def raced_def delay_def
        flakyWorld_def pingOk_def okResponse_def sendCount_simps)

theorem retry_once_witness:
  "sendMessageToOffscreen (flakyWorld (Resolved (Some okResponse))) (sendPromptRequest 7 (js ''Why?'')) [] =
     (Inr okResponse,
      [GetContexts, Probe, Delay 200, Deliver (sendPromptRequest 7 (js ''Why?'')) 5000, CloseDocument,
       GetContexts, CreateDocument, Delay 500, Probe, Delay 500,
       Deliver (sendPromptRequest 7 (js ''Why?'')) 5000])
   \<and> sendMessageToOffscreen silentWorld deleteRequest [] =
       (Inl (newError (js ''Failed after retry: Timeout on retry'')),
        [GetContexts, Probe, Delay 200, Deliver deleteRequest 30000, CloseDocument,
         GetContexts, CreateDocument, Delay 500, Probe, Delay 200, Probe, Delay 200, Probe, Delay 200,
         Probe, Delay 200, Probe, Delay 500, Deliver deleteRequest 30000])"
proof -
  let ?why = "sendPromptRequest 7 (js ''Why?'')"
  let ?sentWhy = "[GetContexts, Probe, Delay 200, Deliver ?why 5000]"
  let ?sentDel = "[GetContexts, Probe, Delay 200, Deliver deleteRequest 30000]"
  let ?flaky = "flakyWorld (Resolved (Some okResponse))"
  have sd: "isStreamingAction deleteRequest = Inr False"
    by (simp add: isStreamingAction_def deleteRequest_def js_def)
  have j: "js ''Failed after retry: '' @ js ''Timeout on retry'' = js ''Failed after retry: Timeout on retry''"
    by (simp add: js_def)
  have gone: "contextsScript ?flaky (count_list ?sentWhy GetContexts) = Some 0
      \<and> createScript ?flaky (creations ?sentWhy)
      \<and> (\<exists>r. sendScript ?flaky (sendCount ?sentWhy) = Resolved r \<and> pingOk r)"
    by (simp add: flakyWorld_def pingOk_def okResponse_def creations_simps sendCount_simps)
  have fw: "firstAttempt ?flaky ?why [] =
      (Inl (newError (js ''Timeout waiting for generation start'')), ?sentWhy)
      \<and> isTransportError (newError (js ''Timeout waiting for generation start''))"
    using flaky_firstAttempt[OF whyRequest_streaming] start_timeout_transport by simp
  from retry_once[where w="?flaky" and message="?why" and tr="[]"
      and err="newError (js ''Timeout waiting for generation start'')" and sent="?sentWhy"] fw
  obtain streaming ops2 where
    w1: "isStreamingAction ?why = Inr streaming"
    and w2: "contextsScript ?flaky (count_list ?sentWhy GetContexts) = Some 0
              \<and> createScript ?flaky (creations ?sentWhy)
              \<and> (\<exists>r. sendScript ?flaky (sendCount ?sentWhy) = Resolved r \<and> pingOk r)
            \<longrightarrow> ops2 = [GetContexts, CreateDocument, Delay 500, Probe]"
    and w3: "snd (sendMessageToOffscreen ?flaky ?why [])
            = ?sentWhy @ [CloseDocument] @ ops2
                @ [Delay 500, Deliver ?why (if streaming then 5000 else 30000)]"
    and w4: "fst (sendMessageToOffscreen ?flaky ?why []) =
            (case sendScript ?flaky (sendCount (?sentWhy @ [CloseDocument] @ ops2 @ [Delay 500])) of
               Resolved (Some r) \<Rightarrow> Inr r
             | Resolved None \<Rightarrow>
                 Inl (newError (js ''Failed after retry: ''
                                 @ js ''No response from offscreen document on retry''))
             | Rejected cause \<Rightarrow> Inl (newError (js ''Failed after retry: '' @ messageText cause))
             | Pending \<Rightarrow> Inl (newError (js ''Failed after retry: '' @ js ''Timeout on retry'')))"
    by blast
  have st: "streaming" using w1 whyRequest_streaming by simp
  have o: "ops2 = [GetContexts, CreateDocument, Delay 500, Probe]"
    using w2 gone by blast
  have one: "sendMessageToOffscreen ?flaky ?why [] =
     (Inr okResponse,
      [GetContexts, Probe, Delay 200, Deliver ?why 5000, CloseDocument,
       GetContexts, CreateDocument, Delay 500, Probe, Delay 500, Deliver ?why 5000])"
    using w3 w4 unfolding o using st
    by (simp add: prod_eq_iff sendCount_simps flakyWorld_def)
  have silent: "contextsScript silentWorld (count_list ?sentDel GetContexts) = Some 0
      \<and> createScript silentWorld (creations ?sentDel)
      \<and> (\<forall>i<5. \<forall>r. sendScript silentWorld (sendCount ?sentDel + i) \<noteq> Resolved r)"
    by (simp add: silentWorld_def creations_simps sendCount_simps)
  have fd: "firstAttempt silentWorld deleteRequest [] =
      (Inl (newError (js ''Timeout after 30s'')), ?sentDel)
      \<and> isTransportError (newError (js ''Timeout after 30s''))"
    using start_timeout_transport(2)
    by (simp add: firstAttempt_def ensureOffscreenDocument_def getContexts_def raced_def delay_def
        silentWorld_def pingOk_def okResponse_def sendCount_simps sd)
  from retry_once[where w=silentWorld and message=deleteRequest and tr="[]"
      and err="newError (js ''Timeout after 30s'')" and sent="?sentDel"] fd
  obtain streaming' ops2' where
    v1: "isStreamingAction deleteRequest = Inr streaming'"
    and v2: "contextsScript silentWorld (count_list ?sentDel GetContexts) = Some 0
              \<and> createScript silentWorld (creations ?sentDel)
              \<and> (\<forall>i<5. \<forall>r. sendScript silentWorld (sendCount ?sentDel + i) \<noteq> Resolved r)
            \<longrightarrow> ops2' = [GetContexts, CreateDocument, Delay 500, Probe, Delay 200, Probe, Delay 200,
                           Probe, Delay 200, Probe, Delay 200, Probe]"
    and v3: "snd (sendMessageToOffscreen silentWorld deleteRequest [])
            = ?sentDel @ [CloseDocument] @ ops2'
                @ [Delay 500, Deliver deleteRequest (if streaming' then 5000 else 30000)]"
    and v4: "fst (sendMessageToOffscreen silentWorld deleteRequest []) =
            (case sendScript silentWorld (sendCount (?sentDel @ [CloseDocument] @ ops2' @ [Delay 500])) of
               Resolved (Some r) \<Rightarrow> Inr r
             | Resolved None \<Rightarrow>
                 Inl (newError (js ''Failed after retry: ''
                                 @ js ''No response from offscreen document on retry''))
             | Rejected cause \<Rightarrow> Inl (newError (js ''Failed after retry: '' @ messageText cause))
             | Pending \<Rightarrow> Inl (newError (js ''Failed after retry: '' @ js ''Timeout on retry'')))"
    by blast
  have st': "\<not> streaming'" using v1 sd by simp
  have o': "ops2' = [GetContexts, CreateDocument, Delay 500, Probe, Delay 200, Probe, Delay 200,
                           Probe, Delay 200, Probe, Delay 200, Probe]"
    using v2 silent by blast
  have two: "sendMessageToOffscreen silentWorld deleteRequest [] =
       (Inl (newError (js ''Failed after retry: Timeout on retry'')),
        [GetContexts, Probe, Delay 200, Deliver deleteRequest 30000, CloseDocument,
         GetContexts, CreateDocument, Delay 500, Probe, Delay 200, Probe, Delay 200, Probe, Delay 200,
         Probe, Delay 200, Probe, Delay 500, Deliver deleteRequest 30000])"
    using v3 v4 unfolding o' using st'
    by (simp add: prod_eq_iff sendCount_simps silentWorld_def j)
  from one two show ?thesis by simp
qed

text \<open>
  Claim C4 as stated fails for a streaming request. Its first attempt checks that the reply
  says the generation has started and, with no stream update yet, waits for the first one:
  answered at once, it ends with that wait, and answered with the reply of a worker that
  could not start, it throws the worker's error. The retry does neither: the request is
  raced against the 5 s alone, the call returns with no wait for a stream update, and the
  reply of a worker that could not start is returned as the result of the call.
\<close>

theorem retry_skips_stream_checks:
  "firstAttempt (steadyWorld okResponse) (createSessionRequest 7) [] =
     (Inr okResponse,
      [GetContexts, Probe, Delay 200, Deliver (createSessionRequest 7) 5000, AwaitFirstUpdate])
   \<and> sendMessageToOffscreen (flakyWorld (Resolved (Some okResponse))) (createSessionRequest 7) [] =
       (Inr okResponse,
        [GetContexts, Probe, Delay 200, Deliver (createSessionRequest 7) 5000, CloseDocument,
         GetContexts, CreateDocument, Delay 500, Probe, Delay 500,
         Deliver (createSessionRequest 7) 5000])
   \<and> firstAttempt (steadyWorld failedResponse) (createSessionRequest 7) [] =
       (Inl (newError (js ''Worker failed'')),
        [GetContexts, Probe, Delay 200, Deliver (createSessionRequest 7) 5000])
   \<and> \<not> responseStarted failedResponse \<and> \<not> responseSuccess failedResponse
   \<and> fst (sendMessageToOffscreen (flakyWorld (Resolved (Some failedResponse))) (createSessionRequest 7) [])
       = Inr failedResponse"
proof -
  let ?m = "createSessionRequest 7"
  have s: "isStreamingAction ?m = Inr True"
    by (simp add: isStreamingAction_def createSessionRequest_def)
  have live: "\<And>reply. ensureOffscreenDocument (steadyWorld reply) [] = (True, [GetContexts, Probe])"
    by (simp add: ensureOffscreenDocument_def getContexts_def raced_def steadyWorld_def pingOk_def
          okResponse_def sendCount_simps)
  have one: "firstAttempt (steadyWorld okResponse) ?m [] =
     (Inr okResponse, [GetContexts, Probe, Delay 200, Deliver ?m 5000, AwaitFirstUpdate])"
    unfolding firstAttempt_def live s
    by (simp add: delay_def raced_def sendCount_simps steadyWorld_def okResponse_def)
  have three: "firstAttempt (steadyWorld failedResponse) ?m [] =
       (Inl (newError (js ''Worker failed'')), [GetContexts, Probe, Delay 200, Deliver ?m 5000])"
    unfolding firstAttempt_def live s
    by (simp add: delay_def raced_def sendCount_simps steadyWorld_def failedResponse_def truthy_def
          js_nonempty)
  have en: "\<And>x. ensureOffscreenDocument (flakyWorld x)
              ([GetContexts, Probe, Delay 200, Deliver ?m 5000] @ [CloseDocument])
            = (True, [GetContexts, Probe, Delay 200, Deliver ?m 5000] @ [CloseDocument]
                       @ [GetContexts, CreateDocument, Delay 500, Probe])"
    by (simp add: ensureOffscreenDocument_def getContexts_def createAndVerify_def createDocument_def
          delay_def raced_def flakyWorld_def pingOk_def okResponse_def sendCount_simps eval_nat_numeral)
  have run: "\<And>x. sendMessageToOffscreen (flakyWorld x) ?m []
      = retryAttempt (flakyWorld x) ?m [GetContexts, Probe, Delay 200, Deliver ?m 5000]"
    using flaky_firstAttempt[OF s] start_timeout_transport(1)
    by (simp add: sendMessageToOffscreen_def)
  have r: "\<And>x. snd (ensureOffscreenDocument (flakyWorld x)
              ([GetContexts, Probe, Delay 200, Deliver ?m 5000] @ [CloseDocument]))
            = [GetContexts, Probe, Delay 200, Deliver ?m 5000] @ [CloseDocument]
                       @ [GetContexts, CreateDocument, Delay 500, Probe]"
    unfolding en by simp
  have two: "sendMessageToOffscreen (flakyWorld (Resolved (Some okResponse))) ?m [] =
       (Inr okResponse,
        [GetContexts, Probe, Delay 200, Deliver ?m 5000, CloseDocument,
         GetContexts, CreateDocument, Delay 500, Probe, Delay 500, Deliver ?m 5000])"
    unfolding run retryAttempt_run[OF s r]
    by (simp add: sendCount_simps flakyWorld_def)
  have four: "fst (sendMessageToOffscreen (flakyWorld (Resolved (Some failedResponse))) ?m [])
       = Inr failedResponse"
    unfolding run retryAttempt_run[OF s r]
    by (simp add: sendCount_simps flakyWorld_def)
  have five: "\<not> responseStarted failedResponse \<and> \<not> responseSuccess failedResponse"
    by (simp add: failedResponse_def)
  from one two three four five show ?thesis by simp
qed

section \<open>Properties of the context chunker\<close>

subsection \<open>Sizes in UTF-8\<close>

declare getTextSizeInBytes.simps(2) [simp del]

lemma low_not_high: "isLowSurrogate d \<Longrightarrow> \<not> isHighSurrogate d"
  by (auto simp: isLowSurrogate_def isHighSurrogate_def word_less_nat_alt word_le_nat_alt)

lemma low_big: "isLowSurrogate d \<Longrightarrow> \<not> d < 0x80 \<and> \<not> d < 0x800"
  by (auto simp: isLowSurrogate_def word_less_nat_alt word_le_nat_alt)

lemma high_big: "isHighSurrogate c \<Longrightarrow> \<not> c < 0x80 \<and> \<not> c < 0x800"
  by (auto simp: isHighSurrogate_def word_less_nat_alt word_le_nat_alt)

lemma size_ascii_cons: "c < 0x80 \<Longrightarrow> getTextSizeInBytes (c # cs) = 1 + getTextSizeInBytes cs"
  by (simp add: getTextSizeInBytes.simps(2))

lemma size_not_high:
  "\<not> isHighSurrogate c \<Longrightarrow>
   \<exists>k. 1 \<le> k \<and> k \<le> 3 \<and> (\<forall>cs. getTextSizeInBytes (c # cs) = k + getTextSizeInBytes cs)"
proof (cases "c < 0x80")
  case True
  then show ?thesis by (intro exI[of _ 1]) (simp add: getTextSizeInBytes.simps(2))
next
  case False
  assume h: "\<not> isHighSurrogate c"
  show ?thesis
  proof (cases "c < 0x800")
    case True
    with False show ?thesis by (intro exI[of _ 2]) (simp add: getTextSizeInBytes.simps(2))
  next
    case big: False
    with False h show ?thesis by (intro exI[of _ 3]) (simp add: getTextSizeInBytes.simps(2))
  qed
qed

lemma size_high_nil: "isHighSurrogate c \<Longrightarrow> getTextSizeInBytes [c] = 3"
  using high_big[of c] by (simp add: getTextSizeInBytes.simps(2))

lemma size_pair:
  "isHighSurrogate c \<Longrightarrow> isLowSurrogate d \<Longrightarrow>
   getTextSizeInBytes (c # d # ds) = 4 + getTextSizeInBytes ds"
  using high_big[of c] by (simp add: getTextSizeInBytes.simps(2))

lemma size_high_lone:
  "isHighSurrogate c \<Longrightarrow> \<not> isLowSurrogate d \<Longrightarrow>
   getTextSizeInBytes (c # d # ds) = 3 + getTextSizeInBytes (d # ds)"
  using high_big[of c] by (simp add: getTextSizeInBytes.simps(2))

lemma size_low_cons: "isLowSurrogate d \<Longrightarrow> getTextSizeInBytes (d # ds) = 3 + getTextSizeInBytes ds"
  using low_big[of d] low_not_high[of d] by (simp add: getTextSizeInBytes.simps(2))

lemma size_cons_le: "getTextSizeInBytes (c # cs) \<le> 3 + getTextSizeInBytes cs"
proof (cases "isHighSurrogate c")
  case False
  then show ?thesis using size_not_high[of c] by auto
next
  case True
  show ?thesis
  proof (cases cs)
    case Nil
    with True show ?thesis by (simp add: size_high_nil)
  next
    case (Cons d ds)
    with True show ?thesis
      by (cases "isLowSurrogate d") (simp_all add: size_pair size_high_lone size_low_cons)
  qed
qed

lemma size_cons_ge: "getTextSizeInBytes cs \<le> getTextSizeInBytes (c # cs)"
proof (cases "isHighSurrogate c")
  case False
  then show ?thesis using size_not_high[of c] by auto
next
  case True
  show ?thesis
  proof (cases cs)
    case Nil
    then show ?thesis by simp
  next
    case (Cons d ds)
    with True show ?thesis
      by (cases "isLowSurrogate d") (simp_all add: size_pair size_high_lone size_low_cons)
  qed
qed

lemma size_append_le:
  "getTextSizeInBytes (a @ b) \<le> getTextSizeInBytes a + getTextSizeInBytes b"
proof (induction "length a" arbitrary: a rule: less_induct)
  case less
  show ?case
  proof (cases a)
    case Nil
    then show ?thesis by simp
  next
    case (Cons c cs)
    show ?thesis
    proof (cases "isHighSurrogate c")
      case False
      then obtain k where "\<forall>xs. getTextSizeInBytes (c # xs) = k + getTextSizeInBytes xs"
        using size_not_high by blast
      with Cons less[of cs] show ?thesis by simp
    next
      case True
      show ?thesis
      proof (cases cs)
        case Nil
        with Cons True show ?thesis using size_cons_le[of c b] by (simp add: size_high_nil)
      next
        case inner: (Cons d ds)
        show ?thesis
        proof (cases "isLowSurrogate d")
          case low: True
          with Cons inner True less[of ds] show ?thesis by (simp add: size_pair)
        next
          case notlow: False
          with Cons inner True less[of cs] show ?thesis by (simp add: size_high_lone)
        qed
      qed
    qed
  qed
qed

lemma size_take_le: "getTextSizeInBytes (take n s) \<le> getTextSizeInBytes s"
proof (induction "length s" arbitrary: s n rule: less_induct)
  case less
  show ?case
  proof (cases s)
    case Nil
    then show ?thesis by simp
  next
    case (Cons c cs)
    show ?thesis
    proof (cases n)
      case 0
      then show ?thesis by simp
    next
      case (Suc m)
      show ?thesis
      proof (cases "isHighSurrogate c")
        case False
        then obtain k where "\<forall>xs. getTextSizeInBytes (c # xs) = k + getTextSizeInBytes xs"
          using size_not_high by blast
        with Cons Suc less[of cs m] show ?thesis by simp
      next
        case True
        show ?thesis
        proof (cases cs)
          case Nil
          with Cons Suc show ?thesis by simp
        next
          case inner: (Cons d ds)
          show ?thesis
          proof (cases m)
            case 0
            with Cons Suc inner True show ?thesis
              using size_cons_ge[of "d # ds" c] size_cons_ge[of ds d]
              by (cases "isLowSurrogate d") (simp_all add: size_high_nil size_pair size_high_lone)
          next
            case next_m: (Suc j)
            show ?thesis
            proof (cases "isLowSurrogate d")
              case low: True
              with Cons Suc inner True next_m less[of ds j] show ?thesis by (simp add: size_pair)
            next
              case notlow: False
              with Cons Suc inner True next_m less[of cs m] show ?thesis by (simp add: size_high_lone)
            qed
          qed
        qed
      qed
    qed
  qed
qed

lemma size_append_sep:
  "\<not> isLowSurrogate c \<Longrightarrow>
   getTextSizeInBytes (a @ c # b) = getTextSizeInBytes a + getTextSizeInBytes (c # b)"
proof (induction "length a" arbitrary: a rule: less_induct)
  case less
  show ?case
  proof (cases a)
    case Nil
    then show ?thesis by simp
  next
    case (Cons x xs)
    show ?thesis
    proof (cases "isHighSurrogate x")
      case False
      then obtain k where "\<forall>ys. getTextSizeInBytes (x # ys) = k + getTextSizeInBytes ys"
        using size_not_high by blast
      with Cons less(1)[of xs] less(2) show ?thesis by simp
    next
      case True
      show ?thesis
      proof (cases xs)
        case Nil
        with Cons True less(2) show ?thesis by (simp add: size_high_nil size_high_lone)
      next
        case inner: (Cons d ds)
        show ?thesis
        proof (cases "isLowSurrogate d")
          case low: True
          with Cons inner True less(1)[of ds] less(2) show ?thesis by (simp add: size_pair)
        next
          case notlow: False
          with Cons inner True less(1)[of xs] less(2) show ?thesis by (simp add: size_high_lone)
        qed
      qed
    qed
  qed
qed

lemma ascii_not_low: "c < 0x80 \<Longrightarrow> \<not> isLowSurrogate c"
  by (auto simp: isLowSurrogate_def word_less_nat_alt word_le_nat_alt)

lemma size_append_ascii:
  "c < 0x80 \<Longrightarrow> getTextSizeInBytes (a @ c # b) = getTextSizeInBytes a + 1 + getTextSizeInBytes b"
  using size_append_sep[OF ascii_not_low, of c a b] by (simp add: size_ascii_cons)

lemma nl_ascii: "nl < 0x80"
  by (simp add: nl_def)

lemma size_js_ascii:
  "\<forall>c\<in>set s. of_char c < (0x80 :: 16 word) \<Longrightarrow>
   getTextSizeInBytes (js s @ b) = length s + getTextSizeInBytes b"
  by (induction s) (auto simp: js_def size_ascii_cons)

lemma size_replicate_ascii:
  "c < 0x80 \<Longrightarrow> getTextSizeInBytes (replicate n c @ b) = n + getTextSizeInBytes b"
  by (induction n) (auto simp: size_ascii_cons)

lemma footer_size: "getTextSizeInBytes FOOTER_MESSAGE = 68"
proof -
  have d: "\<not> isHighSurrogate (0x2014 :: 16 word)" "\<not> (0x2014 :: 16 word) < 0x800"
    by (simp_all add: isHighSurrogate_def)
  have "getTextSizeInBytes FOOTER_MESSAGE
      = 15 + getTextSizeInBytes (0x2014 # js '' use only this data. Do not invent or guess links.'' @ [])"
    unfolding FOOTER_MESSAGE_def by (subst size_js_ascii) simp_all
  also have "\<dots> = 15 + (3 + getTextSizeInBytes (js '' use only this data. Do not invent or guess links.'' @ []))"
    using d by (simp add: getTextSizeInBytes.simps(2))
  also have "\<dots> = 68"
    by (subst size_js_ascii) simp_all
  finally show ?thesis .
qed

subsection \<open>Truncation stays within its limit\<close>

lemma size_item_nl: "getTextSizeInBytes (item @ [nl]) = getTextSizeInBytes item + 1"
  using size_append_ascii[OF nl_ascii, of item "[]"] by simp

lemma truncateArrayFrom_bound:
  "truncateArrayFrom maxBytes currentSize items \<noteq> [] \<Longrightarrow>
   currentSize + (\<Sum>x\<leftarrow>truncateArrayFrom maxBytes currentSize items. int (getTextSizeInBytes x) + 1)
     \<le> maxBytes"
proof (induction items arbitrary: currentSize)
  case Nil
  then show ?case by simp
next
  case (Cons item items)
  let ?s = "int (getTextSizeInBytes (item @ [nl]))"
  from Cons.prems have fits: "\<not> currentSize + ?s > maxBytes"
    by (auto simp: Let_def split: if_splits)
  show ?case
  proof (cases "truncateArrayFrom maxBytes (currentSize + ?s) items = []")
    case True
    with fits show ?thesis by (simp add: Let_def size_item_nl)
  next
    case False
    from Cons.IH[OF False] fits show ?thesis by (simp add: Let_def size_item_nl)
  qed
qed

lemma joinLines_size:
  "items \<noteq> [] \<Longrightarrow>
   int (getTextSizeInBytes (joinLines items)) + 1 \<le> (\<Sum>x\<leftarrow>items. int (getTextSizeInBytes x) + 1)"
proof (induction items rule: joinLines.induct)
  case 1
  then show ?case by simp
next
  case (2 item)
  then show ?case by simp
next
  case (3 item v va)
  have "getTextSizeInBytes (item @ nl # joinLines (v # va))
          = getTextSizeInBytes item + 1 + getTextSizeInBytes (joinLines (v # va))"
    by (rule size_append_ascii[OF nl_ascii])
  with 3 show ?case by simp
qed

lemma truncateArray_size:
  "truncateArray items maxBytes \<noteq> [] \<Longrightarrow>
   int (getTextSizeInBytes (joinLines (truncateArray items maxBytes))) + 1 \<le> maxBytes"
  using truncateArrayFrom_bound[of maxBytes 0 items] joinLines_size[of "truncateArray items maxBytes"]
  by (simp add: truncateArray_def)

declare bisect.simps [simp del]

lemma bisect_stop: "\<not> low \<le> high \<Longrightarrow> bisect str maxBytes low high result = result"
  by (subst bisect.simps) simp

lemma bisect_fits:
  "low \<le> high \<Longrightarrow> int (getTextSizeInBytes (take (nat ((low + high) div 2)) str)) \<le> maxBytes \<Longrightarrow>
   bisect str maxBytes low high result
     = bisect str maxBytes ((low + high) div 2 + 1) high (take (nat ((low + high) div 2)) str)"
  by (subst bisect.simps) (simp add: Let_def)

lemma bisect_over:
  "low \<le> high \<Longrightarrow> \<not> int (getTextSizeInBytes (take (nat ((low + high) div 2)) str)) \<le> maxBytes \<Longrightarrow>
   bisect str maxBytes low high result = bisect str maxBytes low ((low + high) div 2 - 1) result"
  by (subst bisect.simps) (simp add: Let_def)

lemma bisect_bound:
  "result = [] \<or> int (getTextSizeInBytes result) \<le> maxBytes \<Longrightarrow>
   bisect str maxBytes low high result = []
   \<or> int (getTextSizeInBytes (bisect str maxBytes low high result)) \<le> maxBytes"
proof (induction str maxBytes low high result rule: bisect.induct)
  case (1 str maxBytes low high result)
  show ?case
  proof (cases "low \<le> high")
    case False
    with "1.prems" show ?thesis by (simp add: bisect_stop)
  next
    case True
    let ?mid = "(low + high) div 2"
    let ?sub = "take (nat ?mid) str"
    show ?thesis
    proof (cases "int (getTextSizeInBytes ?sub) \<le> maxBytes")
      case fits: True
      from "1.IH"(1)[OF True refl refl fits] fits
      have "bisect str maxBytes (?mid + 1) high ?sub = []
            \<or> int (getTextSizeInBytes (bisect str maxBytes (?mid + 1) high ?sub)) \<le> maxBytes"
        by simp
      with True fits show ?thesis by (simp add: bisect_fits)
    next
      case over: False
      from "1.IH"(2)[OF True refl refl over "1.prems"]
      have "bisect str maxBytes low (?mid - 1) result = []
            \<or> int (getTextSizeInBytes (bisect str maxBytes low (?mid - 1) result)) \<le> maxBytes" .
      with True over show ?thesis by (simp add: bisect_over)
    qed
  qed
qed

lemma bisect_prefix:
  "\<exists>n. result = take n str \<Longrightarrow> \<exists>n. bisect str maxBytes low high result = take n str"
proof (induction str maxBytes low high result rule: bisect.induct)
  case (1 str maxBytes low high result)
  show ?case
  proof (cases "low \<le> high")
    case False
    with "1.prems" show ?thesis by (simp add: bisect_stop)
  next
    case True
    let ?mid = "(low + high) div 2"
    let ?sub = "take (nat ?mid) str"
    show ?thesis
    proof (cases "int (getTextSizeInBytes ?sub) \<le> maxBytes")
      case fits: True
      have "\<exists>n. ?sub = take n str" by blast
      from "1.IH"(1)[OF True refl refl fits this] True fits show ?thesis
        by (simp add: bisect_fits)
    next
      case over: False
      from "1.IH"(2)[OF True refl refl over "1.prems"] True over show ?thesis
        by (simp add: bisect_over)
    qed
  qed
qed

lemma bisect_negative:
  "maxBytes < 0 \<Longrightarrow> bisect str maxBytes low high [] = []"
proof (induction str maxBytes low high "[] :: jsstring" rule: bisect.induct)
  case (1 str maxBytes low high)
  show ?case
  proof (cases "low \<le> high")
    case False
    then show ?thesis by (simp add: bisect_stop)
  next
    case True
    let ?mid = "(low + high) div 2"
    have over: "\<not> int (getTextSizeInBytes (take (nat ?mid) str)) \<le> maxBytes"
      using "1.prems" by simp
    from "1.hyps"(2)[OF True refl refl over "1.prems"] True over show ?thesis
      by (simp add: bisect_over)
  qed
qed

lemma size_dropWhile_le: "getTextSizeInBytes (dropWhile P s) \<le> getTextSizeInBytes s"
proof (induction s)
  case Nil
  then show ?case by simp
next
  case (Cons c cs)
  then show ?case using size_cons_ge[of cs c] by auto
qed

lemma rev_dropWhile_rev_take: "\<exists>n. rev (dropWhile P (rev t)) = take n t"
proof -
  have "rev t = takeWhile P (rev t) @ dropWhile P (rev t)" by simp
  then have "t = rev (dropWhile P (rev t)) @ rev (takeWhile P (rev t))"
    by (metis rev_append rev_rev_ident)
  then show ?thesis by (metis append_eq_conv_conj)
qed

lemma size_trim_le: "getTextSizeInBytes (trim s) \<le> getTextSizeInBytes s"
proof -
  obtain n where "trim s = take n (dropWhile isWhiteSpace s)"
    unfolding trim_def using rev_dropWhile_rev_take by blast
  then show ?thesis
    using size_take_le[of n "dropWhile isWhiteSpace s"] size_dropWhile_le[of isWhiteSpace s] by simp
qed

lemma trim_Nil: "trim [] = []"
  by (simp add: trim_def)

lemma truncateText_size:
  "truncateText str maxBytes \<noteq> [] \<Longrightarrow>
   int (getTextSizeInBytes (truncateText str maxBytes)) \<le> maxBytes"
proof (cases "str = [] \<or> int (getTextSizeInBytes str) \<le> maxBytes")
  case True
  assume "truncateText str maxBytes \<noteq> []"
  with True show ?thesis by (auto simp: truncateText_def)
next
  case False
  assume ne: "truncateText str maxBytes \<noteq> []"
  let ?r = "bisect str maxBytes 0 (int (length str)) []"
  let ?c = "if 5 * lastIndexOfSpace ?r > 4 * int (length ?r) then take (nat (lastIndexOfSpace ?r)) ?r else ?r"
  have t: "truncateText str maxBytes = trim ?c"
    using False by (simp add: truncateText_def Let_def)
  have "?r \<noteq> []"
  proof
    assume "?r = []"
    then have "?c = []" by simp
    with t ne show False by (simp add: trim_Nil)
  qed
  then have "int (getTextSizeInBytes ?r) \<le> maxBytes"
    using bisect_bound[of "[]" maxBytes str 0 "int (length str)"] by simp
  moreover have "getTextSizeInBytes ?c \<le> getTextSizeInBytes ?r"
    using size_take_le[of "nat (lastIndexOfSpace ?r)" ?r] by simp
  moreover have "getTextSizeInBytes (trim ?c) \<le> getTextSizeInBytes ?c"
    by (rule size_trim_le)
  ultimately show ?thesis unfolding t by linarith
qed

lemma truncateText_negative: "maxBytes < 0 \<Longrightarrow> truncateText str maxBytes = []"
  by (simp add: truncateText_def bisect_negative lastIndexOfSpace_def trim_Nil Let_def)

lemma size_pos: "s \<noteq> [] \<Longrightarrow> 0 < getTextSizeInBytes s"
proof (cases s)
  case Nil
  assume "s \<noteq> []"
  with Nil show ?thesis by simp
next
  case (Cons c cs)
  show ?thesis
  proof (cases "isHighSurrogate c")
    case False
    then show ?thesis using size_not_high[of c] Cons by auto
  next
    case True
    show ?thesis
    proof (cases cs)
      case Nil
      with Cons True show ?thesis by (simp add: size_high_nil)
    next
      case inner: (Cons d ds)
      with Cons True show ?thesis
        by (cases "isLowSurrogate d") (simp_all add: size_pair size_high_lone)
    qed
  qed
qed

lemma size_take_mono:
  "n \<le> m \<Longrightarrow> getTextSizeInBytes (take n s) \<le> getTextSizeInBytes (take m s)"
  using size_take_le[of n "take m s"] by (simp add: min_def)

lemma size_take_Suc:
  "getTextSizeInBytes (take (Suc k) s) \<le> getTextSizeInBytes (take k s) + 3"
proof (cases "k < length s")
  case True
  then have "take (Suc k) s = take k s @ [s ! k]" by (rule take_Suc_conv_app_nth)
  then show ?thesis
    using size_append_le[of "take k s" "[s ! k]"] size_cons_le[of "s ! k" "[]"] by simp
next
  case False
  then show ?thesis by simp
qed

lemma bisect_longest:
  "0 \<le> low \<Longrightarrow> high \<le> int (length str) \<Longrightarrow> k \<le> length str \<Longrightarrow> result = take k str \<Longrightarrow>
   int (getTextSizeInBytes (take k str)) \<le> maxBytes \<Longrightarrow> low - 1 \<le> int k \<Longrightarrow>
   (\<forall>n. high < int n \<and> n \<le> length str \<longrightarrow> maxBytes < int (getTextSizeInBytes (take n str))) \<Longrightarrow>
   \<exists>j. bisect str maxBytes low high result = take j str \<and> j \<le> length str
       \<and> int (getTextSizeInBytes (take j str)) \<le> maxBytes
       \<and> (\<forall>n. j < n \<and> n \<le> length str \<longrightarrow> maxBytes < int (getTextSizeInBytes (take n str)))"
proof (induction str maxBytes low high result arbitrary: k rule: bisect.induct)
  case (1 str maxBytes low high result)
  show ?case
  proof (cases "low \<le> high")
    case False
    have "\<forall>n. k < n \<and> n \<le> length str \<longrightarrow> maxBytes < int (getTextSizeInBytes (take n str))"
      using "1.prems"(6,7) False by auto
    with "1.prems" False show ?thesis
      by (intro exI[of _ k]) (simp add: bisect_stop)
  next
    case True
    let ?mid = "(low + high) div 2"
    let ?sub = "take (nat ?mid) str"
    have m: "low \<le> ?mid" "?mid \<le> high" "0 \<le> ?mid" using True "1.prems"(1) by auto
    show ?thesis
    proof (cases "int (getTextSizeInBytes ?sub) \<le> maxBytes")
      case fits: True
      have "\<exists>j. bisect str maxBytes (?mid + 1) high ?sub = take j str \<and> j \<le> length str
       \<and> int (getTextSizeInBytes (take j str)) \<le> maxBytes
       \<and> (\<forall>n. j < n \<and> n \<le> length str \<longrightarrow> maxBytes < int (getTextSizeInBytes (take n str)))"
        using m "1.prems"(2,7) fits
        by (intro "1.IH"(1)[OF True refl refl fits, of "nat ?mid"]) auto
      with True fits show ?thesis by (simp add: bisect_fits)
    next
      case over: False
      have up: "\<forall>n. ?mid - 1 < int n \<and> n \<le> length str \<longrightarrow> maxBytes < int (getTextSizeInBytes (take n str))"
      proof (intro allI impI)
        fix n assume "?mid - 1 < int n \<and> n \<le> length str"
        then have "nat ?mid \<le> n" by auto
        from size_take_mono[OF this, of str] over
        show "maxBytes < int (getTextSizeInBytes (take n str))" by linarith
      qed
      have "\<exists>j. bisect str maxBytes low (?mid - 1) result = take j str \<and> j \<le> length str
       \<and> int (getTextSizeInBytes (take j str)) \<le> maxBytes
       \<and> (\<forall>n. j < n \<and> n \<le> length str \<longrightarrow> maxBytes < int (getTextSizeInBytes (take n str)))"
        using m "1.prems" up
        by (intro "1.IH"(2)[OF True refl refl over, of k]) auto
      with True over show ?thesis by (simp add: bisect_over)
    qed
  qed
qed

lemma truncateText_longest:
  assumes "str \<noteq> []" "\<not> int (getTextSizeInBytes str) \<le> maxBytes" "0 \<le> maxBytes"
  shows "\<exists>k. k < length str
           \<and> int (getTextSizeInBytes (take k str)) \<le> maxBytes
           \<and> maxBytes < int (getTextSizeInBytes (take (Suc k) str))
           \<and> truncateText str maxBytes
               = trim (if 5 * lastIndexOfSpace (take k str) > 4 * int k
                       then take (nat (lastIndexOfSpace (take k str))) (take k str)
                       else take k str)"
proof -
  have "\<exists>j. bisect str maxBytes 0 (int (length str)) [] = take j str \<and> j \<le> length str
       \<and> int (getTextSizeInBytes (take j str)) \<le> maxBytes
       \<and> (\<forall>n. j < n \<and> n \<le> length str \<longrightarrow> maxBytes < int (getTextSizeInBytes (take n str)))"
    using assms(3) by (intro bisect_longest[of 0 "int (length str)" str 0]) auto
  then obtain j where j: "bisect str maxBytes 0 (int (length str)) [] = take j str" "j \<le> length str"
       "int (getTextSizeInBytes (take j str)) \<le> maxBytes"
       "\<forall>n. j < n \<and> n \<le> length str \<longrightarrow> maxBytes < int (getTextSizeInBytes (take n str))"
    by blast
  have lt: "j < length str"
  proof (rule ccontr)
    assume "\<not> j < length str"
    with j(2) have "take j str = str" by simp
    with j(3) assms(2) show False by simp
  qed
  then have nx: "maxBytes < int (getTextSizeInBytes (take (Suc j) str))"
    using j(4) by auto
  have len: "int (length (take j str)) = int j" using lt by simp
  have "truncateText str maxBytes
               = trim (if 5 * lastIndexOfSpace (take j str) > 4 * int j
                       then take (nat (lastIndexOfSpace (take j str))) (take j str)
                       else take j str)"
    using assms(1,2) unfolding truncateText_def Let_def j(1) len by simp
  with lt j(3) nx show ?thesis by blast
qed

lemma trim_nonempty: "s \<noteq> [] \<Longrightarrow> \<not> isWhiteSpace (hd s) \<Longrightarrow> trim s \<noteq> []"
proof -
  assume a: "s \<noteq> []" "\<not> isWhiteSpace (hd s)"
  then obtain c cs where s: "s = c # cs" by (cases s) auto
  with a have d: "dropWhile isWhiteSpace s = s" by simp
  have "dropWhile isWhiteSpace (rev s) \<noteq> []"
    using a s by (auto simp: dropWhile_eq_Nil_conv)
  then show ?thesis unfolding trim_def d by simp
qed

lemma truncateText_nonempty:
  assumes "str \<noteq> []" "\<not> int (getTextSizeInBytes str) \<le> maxBytes" "3 \<le> maxBytes"
    and "\<not> isWhiteSpace (hd str)"
  shows "truncateText str maxBytes \<noteq> []"
proof -
  from truncateText_longest[OF assms(1,2)] assms(3) obtain k where k: "k < length str"
    "maxBytes < int (getTextSizeInBytes (take (Suc k) str))"
    "truncateText str maxBytes
               = trim (if 5 * lastIndexOfSpace (take k str) > 4 * int k
                       then take (nat (lastIndexOfSpace (take k str))) (take k str)
                       else take k str)"
    by auto
  have "k \<noteq> 0"
  proof
    assume "k = 0"
    with k(2) have "maxBytes < int (getTextSizeInBytes (take (Suc 0) str))" by simp
    moreover have "getTextSizeInBytes (take (Suc 0) str) \<le> 3"
      using size_take_Suc[of 0 str] by simp
    ultimately show False using assms(3) by linarith
  qed
  let ?c = "if 5 * lastIndexOfSpace (take k str) > 4 * int k
                       then take (nat (lastIndexOfSpace (take k str))) (take k str)
                       else take k str"
  have "?c \<noteq> [] \<and> hd ?c = hd str"
    using \<open>k \<noteq> 0\<close> assms(1) by (cases str; cases k) (auto simp: take_Suc_Cons nat_eq_iff)
  then show ?thesis unfolding k(3) using assms(4) by (intro trim_nonempty) auto
qed

lemma truncateText_tight:
  assumes "maxBytes \<le> 0" "\<not> int (getTextSizeInBytes str) \<le> maxBytes"
  shows "truncateText str maxBytes = []"
proof (rule ccontr)
  assume ne: "truncateText str maxBytes \<noteq> []"
  from truncateText_size[OF ne] assms(1) size_pos[OF ne] show False by linarith
qed

subsection \<open>The budget\<close>

lemma remainingFor_append:
  "remainingFor a - int (getTextSizeInBytes b) \<le> remainingFor (a @ b)"
  using size_append_le[of a b] by (simp add: remainingFor_def)

lemma size_section:
  "\<forall>c\<in>set label. of_char c < (0x80 :: 16 word) \<Longrightarrow>
   getTextSizeInBytes (js label @ [nl] @ body @ [nl, nl]) = length label + getTextSizeInBytes body + 3"
  using size_append_ascii[OF nl_ascii, of body "[nl]"] nl_ascii
  by (simp add: size_js_ascii size_ascii_cons)

lemma addSection_inv:
  assumes "\<forall>c\<in>set label. of_char c < (0x80 :: 16 word)" "length label \<le> 40"
    and "0 \<le> remainingBytes" "remainingBytes \<le> remainingFor ctx"
  shows "0 \<le> snd (addSection label items (ctx, remainingBytes))
         \<and> snd (addSection label items (ctx, remainingBytes))
             \<le> remainingFor (fst (addSection label items (ctx, remainingBytes)))"
proof (cases "items \<noteq> [] \<and> remainingBytes > 0")
  case False
  with assms show ?thesis by (auto simp: addSection_def)
next
  case True
  let ?section = "js label @ [nl] @ joinLines items @ [nl, nl]"
  show ?thesis
  proof (cases "int (getTextSizeInBytes ?section) \<le> remainingBytes")
    case fits: True
    have "addSection label items (ctx, remainingBytes)
            = (ctx @ ?section, remainingBytes - int (getTextSizeInBytes ?section))"
      using True fits by (simp add: addSection_def Let_def)
    with fits assms(4) remainingFor_append[of ctx ?section] show ?thesis by simp
  next
    case over: False
    let ?truncated = "truncateArray items (remainingBytes - 50)"
    show ?thesis
    proof (cases "?truncated = []")
      case empty: True
      have "addSection label items (ctx, remainingBytes) = (ctx, remainingBytes)"
        using True over empty by (simp add: addSection_def Let_def)
      with assms show ?thesis by simp
    next
      case some: False
      let ?added = "js label @ [nl] @ joinLines ?truncated @ [nl, nl]"
      have r: "addSection label items (ctx, remainingBytes)
            = (ctx @ ?added, remainingFor (ctx @ ?added))"
        using True over some by (simp add: addSection_def Let_def)
      have eq: "getTextSizeInBytes ?added
                  = length label + getTextSizeInBytes (joinLines ?truncated) + 3"
        by (rule size_section[OF assms(1)])
      have "int (getTextSizeInBytes ?added) \<le> remainingBytes"
        unfolding eq using truncateArray_size[OF some] assms(2) by linarith
      with assms(4) remainingFor_append[of ctx ?added] show ?thesis
        unfolding r by simp
    qed
  qed
qed

lemma size_snippet_section:
  "getTextSizeInBytes (js ''PAGE TEXT (SNAPSHOT):'' @ [nl] @ body @ js ''...'' @ [nl, nl])
     \<le> getTextSizeInBytes body + 27"
proof -
  have "getTextSizeInBytes (js ''PAGE TEXT (SNAPSHOT):'' @ [nl] @ body @ js ''...'' @ [nl, nl])
          = 22 + getTextSizeInBytes (body @ js ''...'' @ [nl, nl])"
    using nl_ascii by (simp add: size_js_ascii size_ascii_cons)
  moreover have "getTextSizeInBytes (js ''...'' @ [nl, nl]) = 5"
    using nl_ascii by (simp add: size_js_ascii size_ascii_cons)
  ultimately show ?thesis
    using size_append_le[of body "js ''...'' @ [nl, nl]"] by simp
qed

lemma addSnippet_bound:
  assumes "0 \<le> remainingBytes" "remainingBytes \<le> remainingFor ctx"
  shows "0 \<le> remainingFor (addSnippet snip (ctx, remainingBytes))"
proof (cases "snip \<noteq> [] \<and> remainingBytes > 0")
  case False
  with assms show ?thesis by (auto simp: addSnippet_def)
next
  case True
  let ?section = "js ''PAGE TEXT (SNAPSHOT):'' @ [nl] @ snip @ [nl, nl]"
  show ?thesis
  proof (cases "int (getTextSizeInBytes ?section) \<le> remainingBytes")
    case fits: True
    have "addSnippet snip (ctx, remainingBytes) = ctx @ ?section"
      using True fits by (simp add: addSnippet_def Let_def)
    with fits assms remainingFor_append[of ctx ?section] show ?thesis by simp
  next
    case over: False
    let ?t = "truncateText snip (remainingBytes - 100)"
    show ?thesis
    proof (cases "?t = []")
      case empty: True
      have "addSnippet snip (ctx, remainingBytes) = ctx"
        using True over empty by (simp add: addSnippet_def Let_def)
      with assms show ?thesis by simp
    next
      case some: False
      let ?added = "js ''PAGE TEXT (SNAPSHOT):'' @ [nl] @ ?t @ js ''...'' @ [nl, nl]"
      have r: "addSnippet snip (ctx, remainingBytes) = ctx @ ?added"
        using True over some by (simp add: addSnippet_def Let_def)
      have "int (getTextSizeInBytes ?added) \<le> remainingBytes"
        using truncateText_size[OF some] size_snippet_section[of ?t] by linarith
      with assms remainingFor_append[of ctx ?added] show ?thesis
        unfolding r by simp
    qed
  qed
qed

lemma with_footer:
  "0 \<le> remainingFor ctx \<Longrightarrow>
   int (getTextSizeInBytes (ctx @ FOOTER_MESSAGE)) \<le> MAX_CONTEXT_SIZE"
  using size_append_le[of ctx FOOTER_MESSAGE] by (simp add: remainingFor_def)

lemma standard_path_bound:
  assumes "0 \<le> remainingFor (header cd)"
  shows "int (getTextSizeInBytes
           (addSnippet (snippet cd)
              (addSection ''LINKS:'' (links cd)
                 (addSection ''HEADINGS:'' (map (\<lambda>h. js ''- '' @ h) (headings cd))
                    (addSection ''META TAGS:'' (meta cd) (header cd, remainingFor (header cd)))))
            @ FOOTER_MESSAGE)) \<le> MAX_CONTEXT_SIZE"
proof -
  obtain c1 r1 where s1: "addSection ''META TAGS:'' (meta cd) (header cd, remainingFor (header cd)) = (c1, r1)"
    by (cases "addSection ''META TAGS:'' (meta cd) (header cd, remainingFor (header cd))")
  have i1: "0 \<le> r1 \<and> r1 \<le> remainingFor c1"
    using addSection_inv[of "''META TAGS:''" "remainingFor (header cd)" "header cd" "meta cd"] assms s1
    by simp
  obtain c2 r2 where s2: "addSection ''HEADINGS:'' (map (\<lambda>h. js ''- '' @ h) (headings cd)) (c1, r1) = (c2, r2)"
    by (cases "addSection ''HEADINGS:'' (map (\<lambda>h. js ''- '' @ h) (headings cd)) (c1, r1)")
  have i2: "0 \<le> r2 \<and> r2 \<le> remainingFor c2"
    using addSection_inv[of "''HEADINGS:''" r1 c1 "map (\<lambda>h. js ''- '' @ h) (headings cd)"] i1 s2
    by simp
  obtain c3 r3 where s3: "addSection ''LINKS:'' (links cd) (c2, r2) = (c3, r3)"
    by (cases "addSection ''LINKS:'' (links cd) (c2, r2)")
  have i3: "0 \<le> r3 \<and> r3 \<le> remainingFor c3"
    using addSection_inv[of "''LINKS:''" r2 c2 "links cd"] i2 s3
    by simp
  have "0 \<le> remainingFor (addSnippet (snippet cd) (c3, r3))"
    using addSnippet_bound[of r3 c3 "snippet cd"] i3 by simp
  then show ?thesis
    unfolding s1 s2 s3 by (rule with_footer)
qed

lemma size_replicate_only: "c < 0x80 \<Longrightarrow> getTextSizeInBytes (replicate n c) = n"
  using size_replicate_ascii[of c n "[]"] by simp

lemma size_js_only:
  "\<forall>c\<in>set s. of_char c < (0x80 :: 16 word) \<Longrightarrow> getTextSizeInBytes (js s) = length s"
  using size_js_ascii[of s "[]"] by simp

lemma article_path_bound:
  assumes "isArticle cd" "articleContent cd = Some a" "a \<noteq> []" "0 < remainingFor (header cd)"
    and "int (getTextSizeInBytes a) \<le> remainingFor (header cd)
           \<longrightarrow> int (getTextSizeInBytes a) + 2 \<le> remainingFor (header cd)"
  shows "int (getTextSizeInBytes (chunkContext cd)) \<le> MAX_CONTEXT_SIZE"
proof (cases "int (getTextSizeInBytes a) \<le> remainingFor (header cd)")
  case True
  have c: "chunkContext cd = (header cd @ a @ [nl, nl]) @ FOOTER_MESSAGE"
    using assms(1-4) True by (simp add: chunkContext_def Let_def truthy_def)
  have "getTextSizeInBytes (a @ [nl, nl]) = getTextSizeInBytes a + 2"
    using size_append_ascii[OF nl_ascii, of a "[nl]"] nl_ascii by (simp add: size_ascii_cons)
  then have "0 \<le> remainingFor (header cd @ a @ [nl, nl])"
    using remainingFor_append[of "header cd" "a @ [nl, nl]"] assms(5) True by simp
  then show ?thesis unfolding c by (rule with_footer)
next
  case False
  let ?t = "truncateText a (remainingFor (header cd) - 100)"
  show ?thesis
  proof (cases "?t = []")
    case True
    have c: "chunkContext cd = header cd @ FOOTER_MESSAGE"
      using assms(1-4) False True by (simp add: chunkContext_def Let_def truthy_def)
    show ?thesis unfolding c using assms(4) by (intro with_footer) simp
  next
    case some: False
    have c: "chunkContext cd = (header cd @ ?t @ js ''...'' @ [nl, nl]) @ FOOTER_MESSAGE"
      using assms(1-4) False some by (simp add: chunkContext_def Let_def truthy_def)
    have "getTextSizeInBytes (js ''...'' @ [nl, nl]) = 5"
      using nl_ascii by (simp add: size_js_ascii size_ascii_cons)
    then have "int (getTextSizeInBytes (?t @ js ''...'' @ [nl, nl])) \<le> remainingFor (header cd)"
      using size_append_le[of ?t "js ''...'' @ [nl, nl]"] truncateText_size[OF some] by linarith
    then have "0 \<le> remainingFor (header cd @ ?t @ js ''...'' @ [nl, nl])"
      using remainingFor_append[of "header cd" "?t @ js ''...'' @ [nl, nl]"] by simp
    then show ?thesis unfolding c by (rule with_footer)
  qed
qed

lemma addSection_prefix: "prefix ctx (fst (addSection label items (ctx, r)))"
  by (simp add: addSection_def Let_def)

lemma addSnippet_prefix: "prefix ctx (addSnippet snip (ctx, r)) "
  by (simp add: addSnippet_def Let_def)

lemma chunkContext_header: "prefix (header cd) (chunkContext cd)"
proof (cases "isArticle cd \<and> truthy (articleContent cd) \<and> remainingFor (header cd) > 0")
  case True
  then show ?thesis by (simp add: chunkContext_def Let_def)
next
  case False
  then have c: "chunkContext cd =
        addSnippet (snippet cd)
          (addSection ''LINKS:'' (links cd)
             (addSection ''HEADINGS:'' (map (\<lambda>h. js ''- '' @ h) (headings cd))
                (addSection ''META TAGS:'' (meta cd) (header cd, remainingFor (header cd)))))
        @ FOOTER_MESSAGE"
    unfolding chunkContext_def Let_def by (rule if_not_P)
  obtain c1 r1 where s1: "addSection ''META TAGS:'' (meta cd) (header cd, remainingFor (header cd)) = (c1, r1)"
    by (cases "addSection ''META TAGS:'' (meta cd) (header cd, remainingFor (header cd))")
  obtain c2 r2 where s2: "addSection ''HEADINGS:'' (map (\<lambda>h. js ''- '' @ h) (headings cd)) (c1, r1) = (c2, r2)"
    by (cases "addSection ''HEADINGS:'' (map (\<lambda>h. js ''- '' @ h) (headings cd)) (c1, r1)")
  obtain c3 r3 where s3: "addSection ''LINKS:'' (links cd) (c2, r2) = (c3, r3)"
    by (cases "addSection ''LINKS:'' (links cd) (c2, r2)")
  have "prefix (header cd) c1"
    using addSection_prefix[of "header cd" "''META TAGS:''" "meta cd" "remainingFor (header cd)"] s1 by simp
  moreover have "prefix c1 c2"
    using addSection_prefix[of c1 "''HEADINGS:''" "map (\<lambda>h. js ''- '' @ h) (headings cd)" r1] s2 by simp
  moreover have "prefix c2 c3"
    using addSection_prefix[of c2 "''LINKS:''" "links cd" r2] s3 by simp
  moreover have "prefix c3 (addSnippet (snippet cd) (c3, r3))"
    by (rule addSnippet_prefix)
  ultimately have "prefix (header cd) (addSnippet (snippet cd) (c3, r3))"
    by (meson prefix_order.order_trans)
  then show ?thesis unfolding c s1 s2 s3 by (rule prefix_prefix)
qed

lemma size_footer_append:
  "getTextSizeInBytes (ctx @ FOOTER_MESSAGE) = getTextSizeInBytes ctx + 68"
proof -
  obtain rest where f: "FOOTER_MESSAGE = of_char CHR ''E'' # rest"
    by (simp add: FOOTER_MESSAGE_def js_def)
  have "\<not> isLowSurrogate (of_char CHR ''E'')"
    by (rule ascii_not_low) simp
  from size_append_sep[OF this, of ctx rest] show ?thesis
    using footer_size unfolding f by simp
qed

lemma header_over:
  assumes "remainingFor (header cd) < 0"
  shows "chunkContext cd = header cd @ FOOTER_MESSAGE"
    and "int (getTextSizeInBytes (chunkContext cd)) = MAX_CONTEXT_SIZE - remainingFor (header cd)"
proof -
  show c: "chunkContext cd = header cd @ FOOTER_MESSAGE"
    using assms by (simp add: chunkContext_def Let_def addSection_def addSnippet_def)
  show "int (getTextSizeInBytes (chunkContext cd)) = MAX_CONTEXT_SIZE - remainingFor (header cd)"
    unfolding c size_footer_append by (simp add: remainingFor_def footer_size)
qed

text \<open>
  Claim C2, as the code has it. The URL line and the title line are always written in full:
  the result begins with them. When they and the footer are more than \<open>MAX_CONTEXT_SIZE\<close>,
  the result is these lines and the footer, and it is over the budget by what they exceed
  it. When they leave room for the footer, and a whole article is not put in with fewer than
  two bytes to spare, the UTF-8 size of what \<open>chunkContext\<close> returns is at most
  \<open>MAX_CONTEXT_SIZE\<close>.
\<close>

theorem chunkContext_within_budget:
  "prefix (js ''URL: '' @ url cd @ [nl, nl]
             @ (if title cd \<noteq> [] then js ''TITLE: '' @ title cd @ [nl, nl] else []))
          (chunkContext cd)
   \<and> (remainingFor (header cd) < 0 \<longrightarrow>
        chunkContext cd = header cd @ FOOTER_MESSAGE
        \<and> int (getTextSizeInBytes (chunkContext cd)) = MAX_CONTEXT_SIZE - remainingFor (header cd))
   \<and> (0 \<le> remainingFor (header cd)
      \<and> (\<forall>a. isArticle cd \<and> articleContent cd = Some a \<and> a \<noteq> []
             \<and> int (getTextSizeInBytes a) \<le> remainingFor (header cd)
           \<longrightarrow> int (getTextSizeInBytes a) + 2 \<le> remainingFor (header cd))
      \<longrightarrow> int (getTextSizeInBytes (chunkContext cd)) \<le> MAX_CONTEXT_SIZE)"
proof (intro conjI impI)
  show "prefix (js ''URL: '' @ url cd @ [nl, nl]
             @ (if title cd \<noteq> [] then js ''TITLE: '' @ title cd @ [nl, nl] else []))
          (chunkContext cd)"
    using chunkContext_header[of cd] by (simp add: header_def)
next
  assume "remainingFor (header cd) < 0"
  then show "chunkContext cd = header cd @ FOOTER_MESSAGE" by (rule header_over(1))
next
  assume "remainingFor (header cd) < 0"
  then show "int (getTextSizeInBytes (chunkContext cd)) = MAX_CONTEXT_SIZE - remainingFor (header cd)"
    by (rule header_over(2))
next
  assume a: "0 \<le> remainingFor (header cd)
   \<and> (\<forall>a. isArticle cd \<and> articleContent cd = Some a \<and> a \<noteq> []
          \<and> int (getTextSizeInBytes a) \<le> remainingFor (header cd)
        \<longrightarrow> int (getTextSizeInBytes a) + 2 \<le> remainingFor (header cd))"
  show "int (getTextSizeInBytes (chunkContext cd)) \<le> MAX_CONTEXT_SIZE"
  proof (cases "isArticle cd \<and> truthy (articleContent cd) \<and> remainingFor (header cd) > 0")
    case True
    then obtain art where art: "articleContent cd = Some art" "art \<noteq> []"
      by (auto simp: truthy_def split: option.splits)
    with True a show ?thesis by (intro article_path_bound[of cd art]) auto
  next
    case False
    then have "chunkContext cd =
        addSnippet (snippet cd)
          (addSection ''LINKS:'' (links cd)
             (addSection ''HEADINGS:'' (map (\<lambda>h. js ''- '' @ h) (headings cd))
                (addSection ''META TAGS:'' (meta cd) (header cd, remainingFor (header cd)))))
        @ FOOTER_MESSAGE"
      unfolding chunkContext_def Let_def by (rule if_not_P)
    with a standard_path_bound[of cd] show ?thesis by simp
  qed
qed

lemma sample_remaining: "remainingFor (header sampleArticlePage) = 10123"
  using nl_ascii
  by (simp add: remainingFor_def header_def sampleArticlePage_def MAX_CONTEXT_SIZE_def footer_size
        size_js_ascii size_ascii_cons js_nonempty)

lemma longTitle_remaining: "remainingFor (header longTitlePage) = - 84"
proof -
  have a: "(97 :: 16 word) < 0x80" by simp
  show ?thesis
    using nl_ascii
    by (simp add: remainingFor_def header_def longTitlePage_def MAX_CONTEXT_SIZE_def footer_size
          size_js_ascii size_ascii_cons size_replicate_ascii[OF a])
qed

theorem chunkContext_within_budget_witness:
  "prefix (js ''URL: https://example.org/post/1'' @ [nl, nl] @ js ''TITLE: Example'' @ [nl, nl])
          (chunkContext sampleArticlePage)
   \<and> remainingFor (header sampleArticlePage) = 10123
   \<and> isArticle sampleArticlePage
   \<and> articleContent sampleArticlePage = Some (js ''A short article.'')
   \<and> getTextSizeInBytes (js ''A short article.'') = 16
   \<and> int (getTextSizeInBytes (chunkContext sampleArticlePage)) \<le> MAX_CONTEXT_SIZE
   \<and> remainingFor (header longTitlePage) = - 84
   \<and> chunkContext longTitlePage = header longTitlePage @ FOOTER_MESSAGE
   \<and> int (getTextSizeInBytes (chunkContext longTitlePage)) = 10324"
proof -
  have s: "getTextSizeInBytes (js ''A short article.'') = 16"
    by (simp add: size_js_only)
  have i: "isArticle sampleArticlePage"
    and a: "articleContent sampleArticlePage = Some (js ''A short article.'')"
    and u: "url sampleArticlePage = js ''https://example.org/post/1''"
    and t: "title sampleArticlePage = js ''Example''"
    by (simp_all add: sampleArticlePage_def)
  have j: "js ''URL: '' @ js ''https://example.org/post/1'' = js ''URL: https://example.org/post/1''"
    "js ''TITLE: '' @ js ''Example'' = js ''TITLE: Example''"
    by (simp_all add: js_def)
  have p: "prefix (js ''URL: https://example.org/post/1'' @ [nl, nl] @ js ''TITLE: Example'' @ [nl, nl])
          (chunkContext sampleArticlePage)"
    using chunkContext_within_budget[of sampleArticlePage] unfolding u t
    by (simp add: js_nonempty j[symmetric])
  have b: "int (getTextSizeInBytes (chunkContext sampleArticlePage)) \<le> MAX_CONTEXT_SIZE"
    using chunkContext_within_budget[of sampleArticlePage] a s
    by (simp add: sample_remaining)
  have neg: "remainingFor (header longTitlePage) < 0"
    by (simp add: longTitle_remaining)
  from chunkContext_within_budget[of longTitlePage] neg
  have o1: "chunkContext longTitlePage = header longTitlePage @ FOOTER_MESSAGE"
    and o2: "int (getTextSizeInBytes (chunkContext longTitlePage))
               = MAX_CONTEXT_SIZE - remainingFor (header longTitlePage)"
    by blast+
  have o: "chunkContext longTitlePage = header longTitlePage @ FOOTER_MESSAGE
           \<and> int (getTextSizeInBytes (chunkContext longTitlePage)) = 10324"
    using o1 o2 unfolding longTitle_remaining MAX_CONTEXT_SIZE_def by linarith
  show ?thesis using p b o i a s sample_remaining longTitle_remaining by blast
qed

text \<open>
  Claim C2 as stated fails. For a page whose URL has 10240 letters the result is the URL
  line and the footer, 10315 bytes. For an article page whose article is exactly as long as
  what the URL line leaves, the article is put in whole, the two line feeds after it are
  not counted, and the result has 10242 bytes.
\<close>

theorem chunkContext_over_budget:
  "int (getTextSizeInBytes (chunkContext longUrlPage)) = 10315
   \<and> \<not> int (getTextSizeInBytes (chunkContext longUrlPage)) \<le> 10 * 1024
   \<and> isArticle snugArticlePage
   \<and> articleContent snugArticlePage = Some (replicate 10165 (of_char CHR ''z''))
   \<and> remainingFor (header snugArticlePage) = 10165
   \<and> chunkContext snugArticlePage
       = js ''URL: '' @ [nl, nl] @ replicate 10165 (of_char CHR ''z'') @ [nl, nl] @ FOOTER_MESSAGE
   \<and> int (getTextSizeInBytes (chunkContext snugArticlePage)) = 10242
   \<and> \<not> int (getTextSizeInBytes (chunkContext snugArticlePage)) \<le> 10 * 1024"
proof -
  have a: "(97 :: 16 word) < 0x80" and z: "(122 :: 16 word) < 0x80" by simp_all
  have h: "header longUrlPage = js ''URL: '' @ replicate 10240 (of_char CHR ''a'') @ [nl, nl]"
    by (simp add: header_def longUrlPage_def)
  have c: "chunkContext longUrlPage = header longUrlPage @ FOOTER_MESSAGE"
    by (simp add: chunkContext_def Let_def addSection_def addSnippet_def longUrlPage_def truthy_def)
  have one: "getTextSizeInBytes (chunkContext longUrlPage) = 10315"
    unfolding c h using nl_ascii
    by (simp add: size_js_ascii size_replicate_ascii[OF a] size_ascii_cons footer_size)
  have hs: "header snugArticlePage = js ''URL: '' @ [nl, nl]"
    by (simp add: header_def snugArticlePage_def)
  have r: "remainingFor (header snugArticlePage) = 10165"
    unfolding hs using nl_ascii
    by (simp add: remainingFor_def MAX_CONTEXT_SIZE_def footer_size size_js_ascii size_ascii_cons)
  have i: "isArticle snugArticlePage"
    and ar: "articleContent snugArticlePage = Some (replicate 10165 (of_char CHR ''z''))"
    by (simp_all add: snugArticlePage_def)
  have sz: "getTextSizeInBytes (replicate 10165 (122 :: 16 word)) = 10165"
    using z by (rule size_replicate_only)
  have cs: "chunkContext snugArticlePage
       = js ''URL: '' @ [nl, nl] @ replicate 10165 (of_char CHR ''z'') @ [nl, nl] @ FOOTER_MESSAGE"
    unfolding chunkContext_def Let_def r using i ar sz unfolding hs by (simp add: truthy_def)
  have two: "getTextSizeInBytes (chunkContext snugArticlePage) = 10242"
    unfolding cs using nl_ascii
    by (simp add: size_js_ascii size_replicate_ascii[OF z] size_ascii_cons footer_size)
  show ?thesis using one two i ar r cs by simp
qed

subsection \<open>Articles longer than the remainder\<close>

lemma truncateText_shape:
  "str \<noteq> [] \<Longrightarrow> \<not> int (getTextSizeInBytes str) \<le> maxBytes \<Longrightarrow>
   \<exists>n. truncateText str maxBytes = trim (take n str)"
proof -
  assume a: "str \<noteq> []" "\<not> int (getTextSizeInBytes str) \<le> maxBytes"
  obtain n where n: "bisect str maxBytes 0 (int (length str)) [] = take n str"
    using bisect_prefix[of "[]" str maxBytes 0 "int (length str)"] by auto
  show ?thesis
  proof (cases "5 * lastIndexOfSpace (take n str) > 4 * int (length (take n str))")
    case True
    with a n have "truncateText str maxBytes
        = trim (take (min (nat (lastIndexOfSpace (take n str))) n) str)"
      by (simp add: truncateText_def Let_def)
    then show ?thesis by blast
  next
    case False
    with a n have "truncateText str maxBytes = trim (take n str)"
      by (simp add: truncateText_def Let_def)
    then show ?thesis by blast
  qed
qed

lemma header_sections:
  "header (cd\<lparr>meta := m, headings := h, links := l\<rparr>) = header cd"
  by (simp add: header_def)

lemma article_truncated_form:
  assumes "isArticle cd" "articleContent cd = Some a" "0 < remainingFor (header cd)"
    and "remainingFor (header cd) < int (getTextSizeInBytes a)"
  shows "chunkContext cd =
     header cd
       @ (if truncateText a (remainingFor (header cd) - 100) \<noteq> []
          then truncateText a (remainingFor (header cd) - 100) @ js ''...'' @ [nl, nl] else [])
       @ FOOTER_MESSAGE"
proof -
  from assms(3,4) have "a \<noteq> []" by auto
  with assms show ?thesis by (simp add: chunkContext_def Let_def truthy_def)
qed

text \<open>
  Claim C6, as the code has it. For an article page whose URL and title lines leave a
  positive remainder smaller than the article, \<open>chunkContext\<close> returns the header, then
  the truncated article followed by "..." and an empty line (nothing at all when the
  truncated article is empty), then the footer. With no more than 100 bytes left the
  article is left out. With more, the truncated article is the longest prefix of the
  article, counted in code units, that has at most the remainder less 100 bytes, cut back
  to its last space when that lies in its last fifth, and trimmed of white space at both
  ends; it is not empty when at least 103 bytes are left and the article does not begin
  with white space. The result is within the budget, and meta tags, headings and links
  have no part in it.
\<close>

theorem chunkContext_article_truncated:
  "isArticle cd \<and> articleContent cd = Some a \<and> 0 < remainingFor (header cd)
     \<and> remainingFor (header cd) < int (getTextSizeInBytes a)
   \<longrightarrow> chunkContext cd =
         header cd
           @ (if truncateText a (remainingFor (header cd) - 100) \<noteq> []
              then truncateText a (remainingFor (header cd) - 100) @ js ''...'' @ [nl, nl] else [])
           @ FOOTER_MESSAGE
       \<and> (remainingFor (header cd) \<le> 100 \<longrightarrow> chunkContext cd = header cd @ FOOTER_MESSAGE)
       \<and> (100 < remainingFor (header cd) \<longrightarrow>
            (\<exists>k. k < length a
               \<and> int (getTextSizeInBytes (take k a)) \<le> remainingFor (header cd) - 100
               \<and> remainingFor (header cd) - 100 < int (getTextSizeInBytes (take (Suc k) a))
               \<and> truncateText a (remainingFor (header cd) - 100)
                   = trim (if 5 * lastIndexOfSpace (take k a) > 4 * int k
                           then take (nat (lastIndexOfSpace (take k a))) (take k a)
                           else take k a)))
       \<and> (103 \<le> remainingFor (header cd) \<and> \<not> isWhiteSpace (hd a)
            \<longrightarrow> truncateText a (remainingFor (header cd) - 100) \<noteq> [])
       \<and> (\<exists>n. truncateText a (remainingFor (header cd) - 100) = trim (take n a))
       \<and> (truncateText a (remainingFor (header cd) - 100) \<noteq> []
            \<longrightarrow> int (getTextSizeInBytes (truncateText a (remainingFor (header cd) - 100)))
                  \<le> remainingFor (header cd) - 100)
       \<and> int (getTextSizeInBytes (chunkContext cd)) \<le> MAX_CONTEXT_SIZE
       \<and> chunkContext (cd\<lparr>meta := m, headings := h, links := l\<rparr>) = chunkContext cd"
proof (intro impI conjI)
  assume p: "isArticle cd \<and> articleContent cd = Some a \<and> 0 < remainingFor (header cd)
     \<and> remainingFor (header cd) < int (getTextSizeInBytes a)"
  then have ne: "a \<noteq> []" by auto
  have over: "\<not> int (getTextSizeInBytes a) \<le> remainingFor (header cd) - 100"
    using p by simp
  show form: "chunkContext cd =
         header cd
           @ (if truncateText a (remainingFor (header cd) - 100) \<noteq> []
              then truncateText a (remainingFor (header cd) - 100) @ js ''...'' @ [nl, nl] else [])
           @ FOOTER_MESSAGE"
    using p by (intro article_truncated_form) auto
  show "chunkContext cd = header cd @ FOOTER_MESSAGE" if "remainingFor (header cd) \<le> 100"
  proof -
    have "truncateText a (remainingFor (header cd) - 100) = []"
      using that over by (intro truncateText_tight) auto
    with form show ?thesis by simp
  qed
  show "\<exists>k. k < length a
               \<and> int (getTextSizeInBytes (take k a)) \<le> remainingFor (header cd) - 100
               \<and> remainingFor (header cd) - 100 < int (getTextSizeInBytes (take (Suc k) a))
               \<and> truncateText a (remainingFor (header cd) - 100)
                   = trim (if 5 * lastIndexOfSpace (take k a) > 4 * int k
                           then take (nat (lastIndexOfSpace (take k a))) (take k a)
                           else take k a)"
    if "100 < remainingFor (header cd)"
    using that by (intro truncateText_longest[OF ne over]) simp
  show "truncateText a (remainingFor (header cd) - 100) \<noteq> []"
    if "103 \<le> remainingFor (header cd) \<and> \<not> isWhiteSpace (hd a)"
    using that by (intro truncateText_nonempty[OF ne over]) auto
  show "\<exists>n. truncateText a (remainingFor (header cd) - 100) = trim (take n a)"
    using p ne by (intro truncateText_shape) auto
  show "int (getTextSizeInBytes (truncateText a (remainingFor (header cd) - 100)))
                  \<le> remainingFor (header cd) - 100"
    if "truncateText a (remainingFor (header cd) - 100) \<noteq> []"
    using that by (rule truncateText_size)
  show "int (getTextSizeInBytes (chunkContext cd)) \<le> MAX_CONTEXT_SIZE"
    using p ne by (intro article_path_bound[of cd a]) auto
  have "chunkContext (cd\<lparr>meta := m, headings := h, links := l\<rparr>) =
         header cd
           @ (if truncateText a (remainingFor (header cd) - 100) \<noteq> []
              then truncateText a (remainingFor (header cd) - 100) @ js ''...'' @ [nl, nl] else [])
           @ FOOTER_MESSAGE"
    using p article_truncated_form[of "cd\<lparr>meta := m, headings := h, links := l\<rparr>" a]
    by (simp add: header_sections)
  then show "chunkContext (cd\<lparr>meta := m, headings := h, links := l\<rparr>) = chunkContext cd"
    using form by simp
qed

lemma longArticle_remaining: "remainingFor (header longArticlePage) = 1156"
proof -
  have a: "(97 :: 16 word) < 0x80" by simp
  show ?thesis
    using nl_ascii
    by (simp add: remainingFor_def header_def longArticlePage_def MAX_CONTEXT_SIZE_def footer_size
          size_js_ascii size_ascii_cons size_replicate_ascii[OF a])
qed

lemma tight_remaining: "remainingFor (header tightArticlePage) = 100"
proof -
  have a: "(97 :: 16 word) < 0x80" by simp
  show ?thesis
    using nl_ascii
    by (simp add: remainingFor_def header_def tightArticlePage_def MAX_CONTEXT_SIZE_def footer_size
          size_js_ascii size_ascii_cons size_replicate_ascii[OF a])
qed

lemma lastIndexOfSpace_none: "0x20 \<notin> set s \<Longrightarrow> lastIndexOfSpace s = - 1"
  by (simp add: lastIndexOfSpace_def)

lemma trim_replicate: "\<not> isWhiteSpace c \<Longrightarrow> trim (replicate n c) = replicate n c"
  by (simp add: trim_def dropWhile_replicate)

theorem chunkContext_article_truncated_witness:
  "isArticle longArticlePage
   \<and> articleContent longArticlePage = Some (replicate 2000 (of_char CHR ''z''))
   \<and> remainingFor (header longArticlePage) = 1156
   \<and> getTextSizeInBytes (replicate 2000 (of_char CHR ''z'')) = 2000
   \<and> chunkContext longArticlePage
       = header longArticlePage @ replicate 1056 (of_char CHR ''z'') @ js ''...'' @ [nl, nl]
           @ FOOTER_MESSAGE
   \<and> int (getTextSizeInBytes (chunkContext longArticlePage)) \<le> MAX_CONTEXT_SIZE
   \<and> chunkContext (longArticlePage\<lparr>meta := [], headings := [], links := []\<rparr>)
       = chunkContext longArticlePage
   \<and> isArticle tightArticlePage
   \<and> articleContent tightArticlePage = Some (replicate 200 (of_char CHR ''z''))
   \<and> remainingFor (header tightArticlePage) = 100
   \<and> chunkContext tightArticlePage = header tightArticlePage @ FOOTER_MESSAGE"
proof -
  have z: "(122 :: 16 word) < 0x80" by simp
  have w: "\<not> isWhiteSpace (122 :: 16 word)" by (simp add: isWhiteSpace_def)
  have sz: "\<And>n. getTextSizeInBytes (replicate n (122 :: 16 word)) = n"
    using z by (rule size_replicate_only)
  have s: "getTextSizeInBytes (replicate 2000 (of_char CHR ''z'')) = 2000"
    by (simp add: sz)
  have i: "isArticle longArticlePage"
    and a: "articleContent longArticlePage = Some (replicate 2000 (of_char CHR ''z''))"
    by (simp_all add: longArticlePage_def)
  have hyp: "isArticle longArticlePage
     \<and> articleContent longArticlePage = Some (replicate 2000 (of_char CHR ''z''))
     \<and> 0 < remainingFor (header longArticlePage)
     \<and> remainingFor (header longArticlePage) < int (getTextSizeInBytes (replicate 2000 (of_char CHR ''z'')))"
    unfolding s longArticle_remaining using i a by simp
  note t = chunkContext_article_truncated[of longArticlePage "replicate 2000 (of_char CHR ''z'')" "[]" "[]" "[]"]
  from t hyp
  have c: "int (getTextSizeInBytes (chunkContext longArticlePage)) \<le> MAX_CONTEXT_SIZE
     \<and> chunkContext (longArticlePage\<lparr>meta := [], headings := [], links := []\<rparr>)
         = chunkContext longArticlePage"
    by blast
  from t hyp have form: "chunkContext longArticlePage =
         header longArticlePage
           @ (if truncateText (replicate 2000 (of_char CHR ''z'')) (remainingFor (header longArticlePage) - 100) \<noteq> []
              then truncateText (replicate 2000 (of_char CHR ''z'')) (remainingFor (header longArticlePage) - 100)
                     @ js ''...'' @ [nl, nl] else [])
           @ FOOTER_MESSAGE"
    by blast
  have big: "100 < remainingFor (header longArticlePage)"
    by (simp add: longArticle_remaining)
  from t hyp big obtain k where
     k1: "int (getTextSizeInBytes (take k (replicate 2000 (of_char CHR ''z'' :: 16 word))))
                    \<le> remainingFor (header longArticlePage) - 100"
     and k2: "remainingFor (header longArticlePage) - 100
                    < int (getTextSizeInBytes (take (Suc k) (replicate 2000 (of_char CHR ''z'' :: 16 word))))"
     and tt: "truncateText (replicate 2000 (of_char CHR ''z'')) (remainingFor (header longArticlePage) - 100)
                   = trim (if 5 * lastIndexOfSpace (take k (replicate 2000 (of_char CHR ''z'' :: 16 word))) > 4 * int k
                           then take (nat (lastIndexOfSpace (take k (replicate 2000 (of_char CHR ''z'' :: 16 word)))))
                                  (take k (replicate 2000 (of_char CHR ''z'' :: 16 word)))
                           else take k (replicate 2000 (of_char CHR ''z'' :: 16 word)))"
    by blast
  have szc: "\<And>n. getTextSizeInBytes (replicate n (of_char CHR ''z'' :: 16 word)) = n"
    by (rule size_replicate_only) simp
  have k': "k = 1056"
    using k1[unfolded take_replicate szc longArticle_remaining]
      k2[unfolded take_replicate szc longArticle_remaining]
    by (auto simp: min_def split: if_splits)
  have ls: "lastIndexOfSpace (replicate 1056 (of_char CHR ''z'' :: 16 word)) = - 1"
    by (rule lastIndexOfSpace_none) simp
  have tk: "take 1056 (replicate 2000 (of_char CHR ''z'' :: 16 word)) = replicate 1056 (of_char CHR ''z'')"
    by simp
  have tr: "truncateText (replicate 2000 (of_char CHR ''z'')) (remainingFor (header longArticlePage) - 100)
              = replicate 1056 (of_char CHR ''z'')"
    using tt unfolding k' tk ls by (simp add: trim_replicate[OF w])
  have out: "chunkContext longArticlePage
       = header longArticlePage @ replicate 1056 (of_char CHR ''z'') @ js ''...'' @ [nl, nl]
           @ FOOTER_MESSAGE"
    using form unfolding tr by simp
  have i2: "isArticle tightArticlePage"
    and a2: "articleContent tightArticlePage = Some (replicate 200 (of_char CHR ''z''))"
    by (simp_all add: tightArticlePage_def)
  have hyp2: "isArticle tightArticlePage
     \<and> articleContent tightArticlePage = Some (replicate 200 (of_char CHR ''z''))
     \<and> 0 < remainingFor (header tightArticlePage)
     \<and> remainingFor (header tightArticlePage) < int (getTextSizeInBytes (replicate 200 (of_char CHR ''z'')))"
    unfolding szc tight_remaining using i2 a2 by simp
  have small: "remainingFor (header tightArticlePage) \<le> 100"
    by (simp add: tight_remaining)
  from chunkContext_article_truncated[of tightArticlePage "replicate 200 (of_char CHR ''z'')" "[]" "[]" "[]"]
    hyp2 small
  have "chunkContext tightArticlePage = header tightArticlePage @ FOOTER_MESSAGE"
    by blast
  then show ?thesis using c out i a s longArticle_remaining i2 a2 tight_remaining by blast
qed

lemma crowded_remaining: "remainingFor (header crowdedArticlePage) = 56"
proof -
  have a: "(97 :: 16 word) < 0x80" by simp
  show ?thesis
    using nl_ascii
    by (simp add: remainingFor_def header_def crowdedArticlePage_def MAX_CONTEXT_SIZE_def footer_size
          size_js_ascii size_ascii_cons size_replicate_ascii[OF a])
qed

text \<open>
  Claim C6 as stated fails: on an article page whose title leaves 56 bytes, an article of
  200 letters z is left out altogether; the result is the header and the footer, and no z
  occurs in it.
\<close>

theorem chunkContext_article_left_out:
  "isArticle crowdedArticlePage
   \<and> articleContent crowdedArticlePage = Some (replicate 200 (of_char CHR ''z''))
   \<and> remainingFor (header crowdedArticlePage) = 56
   \<and> getTextSizeInBytes (replicate 200 (of_char CHR ''z'')) = 200
   \<and> chunkContext crowdedArticlePage = header crowdedArticlePage @ FOOTER_MESSAGE
   \<and> of_char CHR ''z'' \<notin> set (chunkContext crowdedArticlePage)"
proof -
  have s: "getTextSizeInBytes (replicate 200 (of_char CHR ''z'')) = 200"
    by (simp add: size_replicate_only)
  have i: "isArticle crowdedArticlePage"
    and a: "articleContent crowdedArticlePage = Some (replicate 200 (of_char CHR ''z''))"
    by (simp_all add: crowdedArticlePage_def)
  have t: "truncateText (replicate 200 (of_char CHR ''z'')) (remainingFor (header crowdedArticlePage) - 100) = []"
    unfolding crowded_remaining by (rule truncateText_negative) simp
  have "0 < remainingFor (header crowdedArticlePage)"
    and "remainingFor (header crowdedArticlePage) < int (getTextSizeInBytes (replicate 200 (of_char CHR ''z'')))"
    unfolding s crowded_remaining by simp_all
  from article_truncated_form[OF i a this]
  have c: "chunkContext crowdedArticlePage = header crowdedArticlePage @ FOOTER_MESSAGE"
    unfolding t by simp
  have n: "of_char CHR ''z'' \<notin> set (header crowdedArticlePage @ FOOTER_MESSAGE)"
    by (simp add: header_def crowdedArticlePage_def FOOTER_MESSAGE_def js_def nl_def)
  show ?thesis
    using c n i a s crowded_remaining by simp
qed

section \<open>Properties of the coordinator\<close>

lemma inFlight_nonempty: "inFlight st key \<Longrightarrow> isAnyTabStreaming st"
  by (cases st) (auto simp: inFlight_def isAnyTabStreaming_def)

lemma cleanup_idle: "\<not> inFlight (cleanupStreamingState tabId st) tabId"
  by (auto simp: cleanupStreamingState_def inFlight_def deleteState_def map_of_eq_None_iff)

lemma map_of_updateState: "map_of (updateState k v st) k = Some v"
  by (induction st) auto

lemma update_inFlight: "inFlight (fst (handleStreamUpdate key chunk st)) key"
  by (cases "map_of st key") (simp_all add: handleStreamUpdate_def inFlight_def map_of_updateState)

lemma describe_from_idle:
  "tabId \<noteq> 0 \<Longrightarrow> captureOk env \<Longrightarrow> pageSignals env = Some cd \<Longrightarrow>
   describePage env (Some tabId) [] = ([], [createSessionRequest tabId])"
  by (simp add: describePage_def handleDescribePage_def isAnyTabStreaming_def
        captureAndProcessScreenshot_def cleanupStreamingState_def inFlight_def)

text \<open>
  Claim C5, as the code has it. The one guard is in the popup: when the coordinator's map
  has an entry for any key (so in particular for the key asked for), \<open>handleDescribePage\<close>
  does not send \<open>analyzePage\<close>, the map stays as it is and nothing is handed to the
  delivery layer. A key has its entry from the first stream update of a generation, or from
  a follow-up question: a page description asked for with an empty map leaves the map empty,
  so that a second one, asked for before the first stream update, is started as well, and
  one asked for after it is not. The coordinator's own entry points do not reject, whatever
  the map holds: once the screenshot is taken, \<open>captureAndProcessScreenshot\<close> clears the
  key's entry and hands the \<open>createSession\<close> request to the delivery layer;
  \<open>handleFollowupQuestion\<close> overwrites the key's entry and hands over the prompt; the
  context menu leaves the map alone and hands over its \<open>createSession\<close> request.
\<close>

theorem popup_guard:
  "(inFlight st key \<longrightarrow>
      \<not> handleDescribePage (Resolved (Some (isAnyTabStreaming st))) tab
      \<and> describePage env tab st = (st, []))
   \<and> inFlight (fst (handleStreamUpdate key chunk st)) key
   \<and> (tabId \<noteq> 0 \<and> captureOk env \<and> pageSignals env = Some cd \<longrightarrow>
        captureAndProcessScreenshot env (Some tabId) st
          = (cleanupStreamingState tabId st, [createSessionRequest tabId])
        \<and> \<not> inFlight (cleanupStreamingState tabId st) tabId
        \<and> describePage env (Some tabId) [] = ([], [createSessionRequest tabId])
        \<and> describePage env (Some tabId) (fst (describePage env (Some tabId) []))
            = ([], [createSessionRequest tabId])
        \<and> describePage env (Some tabId)
             (fst (handleStreamUpdate tabId chunk (fst (describePage env (Some tabId) []))))
            = (fst (handleStreamUpdate tabId chunk []), []))
   \<and> (tabId \<noteq> 0 \<and> hasMetadata followupEnv tabId \<and> question \<noteq> []
        \<and> conversationUpdateOk followupEnv \<longrightarrow>
        handleFollowupQuestion followupEnv (Some tabId) question st
          = (updateState tabId
               \<lparr>isFollowup = True, initialized = False, isActionButtons = False,
                generatingTitle = False\<rparr> st,
             [sendPromptRequest tabId question])
        \<and> inFlight (fst (handleFollowupQuestion followupEnv (Some tabId) question st)) tabId)
   \<and> (tabId \<noteq> 0 \<and> srcUrl \<noteq> [] \<and> contextScriptOk menuEnv \<and> imageFetchOk menuEnv \<longrightarrow>
        handleContextMenuClick menuEnv (js ''generateFromImage'') (Some tabId) srcUrl st
          = (st, [createSessionRequest tabId]))"
proof (intro conjI impI)
  assume f: "inFlight st key"
  from inFlight_nonempty[OF this]
  show "\<not> handleDescribePage (Resolved (Some (isAnyTabStreaming st))) tab"
    by (simp add: handleDescribePage_def)
  from inFlight_nonempty[OF f] show "describePage env tab st = (st, [])"
    by (simp add: describePage_def handleDescribePage_def)
next
  show "inFlight (fst (handleStreamUpdate key chunk st)) key"
    by (rule update_inFlight)
next
  assume c: "tabId \<noteq> 0 \<and> captureOk env \<and> pageSignals env = Some cd"
  then show "captureAndProcessScreenshot env (Some tabId) st
          = (cleanupStreamingState tabId st, [createSessionRequest tabId])"
    by (simp add: captureAndProcessScreenshot_def)
  show "\<not> inFlight (cleanupStreamingState tabId st) tabId"
    by (rule cleanup_idle)
  from c show first: "describePage env (Some tabId) [] = ([], [createSessionRequest tabId])"
    by (intro describe_from_idle) auto
  show "describePage env (Some tabId) (fst (describePage env (Some tabId) []))
            = ([], [createSessionRequest tabId])"
    by (simp add: first)
  have "inFlight (fst (handleStreamUpdate tabId chunk [])) tabId"
    by (rule update_inFlight)
  from inFlight_nonempty[OF this]
  show "describePage env (Some tabId)
             (fst (handleStreamUpdate tabId chunk (fst (describePage env (Some tabId) []))))
            = (fst (handleStreamUpdate tabId chunk []), [])"
    unfolding first fst_conv by (simp add: describePage_def handleDescribePage_def)
next
  assume q: "tabId \<noteq> 0 \<and> hasMetadata followupEnv tabId \<and> question \<noteq> []
        \<and> conversationUpdateOk followupEnv"
  then show r: "handleFollowupQuestion followupEnv (Some tabId) question st
          = (updateState tabId
               \<lparr>isFollowup = True, initialized = False, isActionButtons = False,
                generatingTitle = False\<rparr> st,
             [sendPromptRequest tabId question])"
    by (simp add: handleFollowupQuestion_def)
  show "inFlight (fst (handleFollowupQuestion followupEnv (Some tabId) question st)) tabId"
    unfolding r by (simp add: inFlight_def map_of_updateState)
next
  assume "tabId \<noteq> 0 \<and> srcUrl \<noteq> [] \<and> contextScriptOk menuEnv \<and> imageFetchOk menuEnv"
  then show "handleContextMenuClick menuEnv (js ''generateFromImage'') (Some tabId) srcUrl st
          = (st, [createSessionRequest tabId])"
    by (simp add: handleContextMenuClick_def)
qed

theorem popup_guard_witness:
  "inFlight [(7, streamingInitial)] 7
   \<and> describePage \<lparr>captureOk = True, pageSignals = Some sampleArticlePage\<rparr> (Some 7)
        [(7, streamingInitial)] = ([(7, streamingInitial)], [])
   \<and> captureAndProcessScreenshot \<lparr>captureOk = True, pageSignals = Some sampleArticlePage\<rparr> (Some 7)
        [(7, streamingInitial)] = ([], [createSessionRequest 7])
   \<and> describePage \<lparr>captureOk = True, pageSignals = Some sampleArticlePage\<rparr> (Some 7) []
       = ([], [createSessionRequest 7])
   \<and> describePage \<lparr>captureOk = True, pageSignals = Some sampleArticlePage\<rparr> (Some 7)
        (fst (describePage \<lparr>captureOk = True, pageSignals = Some sampleArticlePage\<rparr> (Some 7) []))
       = ([], [createSessionRequest 7])
   \<and> fst (handleStreamUpdate 7 (js ''Desc'') []) = [(7, streamingInitial)]
   \<and> handleFollowupQuestion readyEnv (Some 7) (js ''Why?'') [(7, streamingInitial)]
       = ([(7, \<lparr>isFollowup = True, initialized = False, isActionButtons = False,
                generatingTitle = False\<rparr>)],
          [sendPromptRequest 7 (js ''Why?'')])
   \<and> handleContextMenuClick \<lparr>contextScriptOk = True, imageFetchOk = True\<rparr>
        (js ''generateFromImage'') (Some 7) (js ''https://example.org/a.png'') [(7, streamingInitial)]
       = ([(7, streamingInitial)], [createSessionRequest 7])"
proof -
  let ?env = "\<lparr>captureOk = True, pageSignals = Some sampleArticlePage\<rparr>"
  let ?menu = "\<lparr>contextScriptOk = True, imageFetchOk = True\<rparr>"
  note g = popup_guard[where st="[(7, streamingInitial)]" and key=7 and tab="Some 7" and env="?env"
      and chunk="js ''Desc''" and tabId=7 and cd=sampleArticlePage
      and followupEnv=readyEnv and question="js ''Why?''"
      and srcUrl="js ''https://example.org/a.png''" and menuEnv="?menu"]
  have f: "inFlight [(7, streamingInitial)] 7"
    by (simp add: inFlight_def)
  have c: "(7 :: nat) \<noteq> 0 \<and> captureOk ?env \<and> pageSignals ?env = Some sampleArticlePage"
    by simp
  have q: "(7 :: nat) \<noteq> 0 \<and> hasMetadata readyEnv 7 \<and> js ''Why?'' \<noteq> [] \<and> conversationUpdateOk readyEnv"
    by (simp add: readyEnv_def js_nonempty)
  have m: "(7 :: nat) \<noteq> 0 \<and> js ''https://example.org/a.png'' \<noteq> [] \<and> contextScriptOk ?menu
             \<and> imageFetchOk ?menu"
    by (simp add: js_nonempty)
  from g f have one: "describePage ?env (Some 7) [(7, streamingInitial)] = ([(7, streamingInitial)], [])"
    by blast
  from g c have two: "captureAndProcessScreenshot ?env (Some 7) [(7, streamingInitial)]
          = (cleanupStreamingState 7 [(7, streamingInitial)], [createSessionRequest 7])"
    and three: "describePage ?env (Some 7) [] = ([], [createSessionRequest 7])"
    and four: "describePage ?env (Some 7) (fst (describePage ?env (Some 7) []))
            = ([], [createSessionRequest 7])"
    by blast+
  from g q have five: "handleFollowupQuestion readyEnv (Some 7) (js ''Why?'') [(7, streamingInitial)]
          = (updateState 7
               \<lparr>isFollowup = True, initialized = False, isActionButtons = False,
                generatingTitle = False\<rparr> [(7, streamingInitial)],
             [sendPromptRequest 7 (js ''Why?'')])"
    by blast
  from g m have six: "handleContextMenuClick ?menu (js ''generateFromImage'') (Some 7)
          (js ''https://example.org/a.png'') [(7, streamingInitial)]
          = ([(7, streamingInitial)], [createSessionRequest 7])"
    by blast
  have cl: "cleanupStreamingState 7 [(7, streamingInitial)] = []"
    by (simp add: cleanupStreamingState_def inFlight_def deleteState_def)
  have up: "fst (handleStreamUpdate 7 (js ''Desc'') []) = [(7, streamingInitial)]"
    by (simp add: handleStreamUpdate_def streamingInitial_def)
  show ?thesis
    using f one two[unfolded cl] three four up five six by simp
qed

text \<open>
  Claim C5 as stated fails: while tab 7 is streaming its first answer, a follow-up question
  for tab 7 overwrites the entry of tab 7 and is handed to the delivery layer, which
  delivers it to the worker; and so are the \<open>createSession\<close> requests of a new page
  analysis, which clears the entry, and of an image description, which leaves it.
\<close>

theorem followup_not_rejected:
  "inFlight [(7, streamingInitial)] 7
   \<and> handleFollowupQuestion readyEnv (Some 7) (js ''Why?'') [(7, streamingInitial)]
       = ([(7, \<lparr>isFollowup = True, initialized = False, isActionButtons = False,
                generatingTitle = False\<rparr>)],
          [sendPromptRequest 7 (js ''Why?'')])
   \<and> captureAndProcessScreenshot \<lparr>captureOk = True, pageSignals = Some sampleArticlePage\<rparr>
        (Some 7) [(7, streamingInitial)]
       = ([], [createSessionRequest 7])
   \<and> handleContextMenuClick \<lparr>contextScriptOk = True, imageFetchOk = True\<rparr>
        (js ''generateFromImage'') (Some 7) (js ''https://example.org/a.png'')
        [(7, streamingInitial)]
       = ([(7, streamingInitial)], [createSessionRequest 7])
   \<and> snd (sendMessageToOffscreen liveWorld (sendPromptRequest 7 (js ''Why?'')) [])
       = [GetContexts, CreateDocument, Delay 500, Probe, Delay 200,
          Deliver (sendPromptRequest 7 (js ''Why?'')) 5000]"
proof -
  have e: "ensureOffscreenDocument liveWorld [] = (True, [GetContexts, CreateDocument, Delay 500, Probe])"
    by (simp add: ensureOffscreenDocument_def getContexts_def createAndVerify_def createDocument_def
          delay_def raced_def liveWorld_def pingOk_def okResponse_def eval_nat_numeral)
  have d: "snd (sendMessageToOffscreen liveWorld (sendPromptRequest 7 (js ''Why?'')) [])
       = [GetContexts, CreateDocument, Delay 500, Probe, Delay 200,
          Deliver (sendPromptRequest 7 (js ''Why?'')) 5000]"
    unfolding sendMessageToOffscreen_def firstAttempt_def e whyRequest_streaming
    by (simp add: delay_def raced_def sendCount_simps liveWorld_def okResponse_def)
  show ?thesis
    using d
    by (simp add: inFlight_def handleFollowupQuestion_def readyEnv_def captureAndProcessScreenshot_def
          handleContextMenuClick_def js_nonempty cleanupStreamingState_def deleteState_def)
qed

end

